theory Spec2Isabelle
  imports Complex_Main "HOL-Library.Sublist"
begin

section \<open>The two-layer network engine (class NeuralNetwork)\<close>

text \<open>
  The engine is the TypeScript class \<open>NeuralNetwork\<close>. A JavaScript \<open>number\<close> is modelled
  as a \<open>real\<close>, an array \<open>number[]\<close> as a \<open>real list\<close> and a matrix \<open>number[][]\<close> as a list of
  rows. Rounding, overflow and the IEEE values NaN and Infinity are outside this model of
  numbers; the places where the source would produce a value that is not a finite number
  from finite operands (reading past the end of an array and computing with the result, a
  logarithm of a non-positive number, the quotient 0/0) are branches of the model. The
  forward pass and the loss are modelled a second time over numbers with NaN and the
  infinities, in the section on numbers that overflow.

  The engine is modelled twice. In this section its tensors are lists and a method that
  mutates the engine returns the new engine: this is where the numbers are computed. In
  the two sections that follow its tensors are arrays in a store, copied, shared or
  written in place as the source does: this is where it shows which arrays a caller can
  reach. Lemma \<open>trainStepAt_refines\<close> connects the two models of \<open>trainStep\<close>.
\<close>

datatype TaskType = classification | regression

record NeuralNetwork =
  weights1 :: "real list list"
  weights2 :: "real list list"
  biases1 :: "real list"
  biases2 :: "real list"
  learningRate :: real
  taskType :: TaskType

subsection \<open>JavaScript array primitives\<close>

text \<open>\<open>xs[i]\<close>: reading at or past the length gives \<open>undefined\<close>, here \<open>None\<close>.\<close>

definition elem :: "'a list \<Rightarrow> nat \<Rightarrow> 'a option" where
  "elem xs i = (if i < length xs then Some (xs ! i) else None)"

text \<open>\<open>m[i]?.[j]\<close>: \<open>undefined\<close> when the row or the cell is missing.\<close>

definition elem2 :: "'a list list \<Rightarrow> nat \<Rightarrow> nat \<Rightarrow> 'a option" where
  "elem2 m i j = (case elem m i of None \<Rightarrow> None | Some row \<Rightarrow> elem row j)"

text \<open>\<open>xs.map((x, i) => f(x, i))\<close>.\<close>

definition mapi :: "('a \<Rightarrow> nat \<Rightarrow> 'b) \<Rightarrow> 'a list \<Rightarrow> 'b list" where
  "mapi f xs = map (\<lambda>i. f (xs ! i) i) [0..<length xs]"

text \<open>\<open>xs.reduce((acc, x, i) => f(acc, x, i), init)\<close>.\<close>

definition reducei :: "('b \<Rightarrow> 'a \<Rightarrow> nat \<Rightarrow> 'b) \<Rightarrow> 'b \<Rightarrow> 'a list \<Rightarrow> 'b" where
  "reducei f init xs = fold (\<lambda>i acc. f acc (xs ! i) i) [0..<length xs] init"

subsection \<open>Activation\<close>

definition sigmoid :: "real \<Rightarrow> real" where
  "sigmoid x = 1 / (1 + exp (- x))"

definition sigmoidDerivative :: "real \<Rightarrow> real" where
  "sigmoidDerivative x = (let s = sigmoid x in s * (1 - s))"

subsection \<open>matrixMultiply and vectorAdd\<close>

text \<open>
  \<open>matrixMultiply\<close> returns \<open>[]\<close> for a matrix without rows, a zero vector as long as the
  first row when the vector's length is not the number of rows, and otherwise runs the
  two nested loops, which add \<open>vector_b[i] * matrix_a[i][j]\<close> into \<open>result[j]\<close> and skip a
  cell that is \<open>undefined\<close>.
\<close>

definition mulAddCell :: "real list list \<Rightarrow> real list \<Rightarrow> nat \<Rightarrow> nat \<Rightarrow> real list \<Rightarrow> real list" where
  \<comment> \<open>the body of the inner loop, lines 93 to 97\<close>
  "mulAddCell matrix_a vector_b j i result =
     (case (elem2 matrix_a i j, elem vector_b i) of
        (Some a, Some b) \<Rightarrow> result[j := result ! j + b * a]
      | _ \<Rightarrow> result)"

definition matrixMultiply :: "real list list \<Rightarrow> real list \<Rightarrow> real list" where
  "matrixMultiply matrix_a vector_b =
     (case matrix_a of
        [] \<Rightarrow> []
      | row0 # _ \<Rightarrow>
          let numRowsMatrix = length matrix_a;
              numColsMatrix = length row0
          in if length vector_b \<noteq> numRowsMatrix then replicate numColsMatrix 0
             else fold (\<lambda>j result.
                          fold (mulAddCell matrix_a vector_b j) [0..<numRowsMatrix] result)
                    [0..<numColsMatrix] (replicate numColsMatrix 0))"

definition vectorAdd :: "real list \<Rightarrow> real list \<Rightarrow> real list" where
  "vectorAdd a b = mapi (\<lambda>val i. case elem b i of Some bi \<Rightarrow> val + bi | None \<Rightarrow> 0) a"

subsection \<open>predict\<close>

definition predict :: "NeuralNetwork \<Rightarrow> real list \<Rightarrow> real list" where
  "predict nn inputs =
     (let hiddenPre = vectorAdd (matrixMultiply (weights1 nn) inputs) (biases1 nn);
          hiddenPost = map sigmoid hiddenPre;
          outputPre = vectorAdd (matrixMultiply (weights2 nn) hiddenPost) (biases2 nn)
      in if taskType nn = classification then map sigmoid outputPre else outputPre)"

subsection \<open>The record of a training step\<close>

record Forward =
  fw_inputs :: "real list"
  fw_hiddenPre :: "real list"
  fw_hiddenPost :: "real list"
  fw_outputPre :: "real list"
  fw_outputPost :: "real list"
  fw_weights1 :: "real list list"
  fw_weights2 :: "real list list"
  fw_biases1 :: "real list"
  fw_biases2 :: "real list"

text \<open>
  Overflow apart, the loss is the one number of the record that the source can compute as
  NaN from finite parameters (the quotient by \<open>outputPost.length\<close> when there is no output
  unit), so the field is a \<open>real option\<close>: \<open>None\<close> stands for a loss that is not a finite
  number.
\<close>

record Backward =
  bw_loss :: "real option"
  bw_outputGradients :: "real list"
  bw_hiddenGradients :: "real list"
  bw_weights2Gradients :: "real list list"
  bw_weights1Gradients :: "real list list"
  bw_biases2Gradients :: "real list"
  bw_biases1Gradients :: "real list"

record After =
  af_weights1 :: "real list list"
  af_weights2 :: "real list list"
  af_biases1 :: "real list"
  af_biases2 :: "real list"

record TrainingStep =
  forward :: Forward
  backward :: Backward
  after :: After

subsection \<open>Loss and output gradient\<close>

definition epsilon :: real where
  "epsilon = 1 / 10 ^ 12"

text \<open>
  \<open>Math.log\<close> is finite on the positive numbers only (\<open>-Infinity\<close> at 0, NaN below).
\<close>

definition Math_log :: "real \<Rightarrow> real option" where
  "Math_log x = (if 0 < x then Some (ln x) else None)"

text \<open>\<open>Math.max(epsilon, Math.min(1 - epsilon, output))\<close>, line 146.\<close>

definition clampOutput :: "real \<Rightarrow> real" where
  "clampOutput output = max epsilon (min (1 - epsilon) output)"

text \<open>
  One round of the classification \<open>reduce\<close> (lines 144 to 148). The accumulator (\<open>sum\<close> in the source) is \<open>None\<close>
  once it is not a finite number: when \<open>target[i]\<close> is \<open>undefined\<close> or a logarithm is not
  finite.
\<close>

definition bceStep :: "real list \<Rightarrow> real option \<Rightarrow> real \<Rightarrow> nat \<Rightarrow> real option" where
  "bceStep target acc output i =
     (case (acc, elem target i) of
        (Some s, Some t) \<Rightarrow>
          (let y = clampOutput output
           in case (Math_log y, Math_log (1 - y)) of
                (Some ly, Some l1y) \<Rightarrow> Some (s - (t * ly + (1 - t) * l1y))
              | _ \<Rightarrow> None)
      | _ \<Rightarrow> None)"

text \<open>One round of the regression \<open>reduce\<close> (lines 152 to 154).\<close>

definition mseStep :: "real list \<Rightarrow> real option \<Rightarrow> real \<Rightarrow> nat \<Rightarrow> real option" where
  "mseStep target acc output i =
     (case (acc, elem target i) of
        (Some s, Some t) \<Rightarrow> Some (s + 0.5 * (t - output) ^ 2)
      | _ \<Rightarrow> None)"

text \<open>\<open>sum / outputPost.length\<close>: the sum of no terms is 0, and 0/0 is NaN.\<close>

definition divideByLength :: "real option \<Rightarrow> nat \<Rightarrow> real option" where
  "divideByLength acc n =
     (case acc of
        None \<Rightarrow> None
      | Some s \<Rightarrow> if n = 0 then None else Some (s / real n))"

definition lossOf :: "TaskType \<Rightarrow> real list \<Rightarrow> real list \<Rightarrow> real option" where
  "lossOf tt outputPost target =
     (if tt = classification
      then divideByLength (reducei (bceStep target) (Some 0) outputPost) (length outputPost)
      else divideByLength (reducei (mseStep target) (Some 0) outputPost) (length outputPost))"

text \<open>
  \<open>outputPost.map((output, i) => output - target[i])\<close>, the same expression in both
  branches (lines 150 and 156). An entry is \<open>None\<close> where \<open>target[i]\<close> is \<open>undefined\<close>
  and the difference is NaN.
\<close>

definition outputGradientsOf :: "real list \<Rightarrow> real list \<Rightarrow> real option list" where
  "outputGradientsOf outputPost target =
     mapi (\<lambda>output i. case elem target i of Some t \<Rightarrow> Some (output - t) | None \<Rightarrow> None)
       outputPost"

subsection \<open>Hidden gradient (lines 160 to 173)\<close>

definition addErrorTerm :: "real list list \<Rightarrow> real list \<Rightarrow> nat \<Rightarrow> nat \<Rightarrow> real \<Rightarrow> real" where
  \<comment> \<open>the body of the loop over \<open>oIdx\<close>, lines 163 to 165\<close>
  "addErrorTerm w2 outputGradients hIdx oIdx errorSum =
     (case (elem2 w2 hIdx oIdx, elem outputGradients oIdx) of
        (Some w, Some g) \<Rightarrow> errorSum + g * w
      | _ \<Rightarrow> errorSum)"

definition hiddenErrorValuesOf :: "NeuralNetwork \<Rightarrow> real list \<Rightarrow> real list" where
  "hiddenErrorValuesOf nn outputGradients =
     map (\<lambda>hIdx. fold (addErrorTerm (weights2 nn) outputGradients hIdx)
                   [0..<length (biases2 nn)] 0)
       [0..<length (biases1 nn)]"

definition hiddenGradientsOf :: "real list \<Rightarrow> real list \<Rightarrow> real list" where
  "hiddenGradientsOf hiddenErrorValues hiddenPre =
     mapi (\<lambda>error i. case elem hiddenPre i of
                        None \<Rightarrow> 0
                      | Some p \<Rightarrow> error * sigmoidDerivative p)
       hiddenErrorValues"

subsection \<open>The update loops (lines 188 to 214)\<close>

text \<open>
  The loops over \<open>weights2\<close> and over \<open>weights1\<close> have the same body; \<open>updateMatrix\<close> is
  that loop. The matrix is updated in place, so every read is from the current matrix. A
  cell is left alone when it or its gradient is \<open>undefined\<close>.
\<close>

definition updateCell :: "real \<Rightarrow> real list list \<Rightarrow> nat \<Rightarrow> nat \<Rightarrow> real list list \<Rightarrow> real list list" where
  \<comment> \<open>the body of the inner loop, lines 190 to 192 and 198 to 200\<close>
  "updateCell rate grads i j w =
     (case (elem2 w i j, elem2 grads i j) of
        (Some c, Some g) \<Rightarrow> w[i := (w ! i)[j := c - rate * g]]
      | _ \<Rightarrow> w)"

definition updateMatrix :: "real \<Rightarrow> real list list \<Rightarrow> real list list \<Rightarrow> real list list" where
  "updateMatrix rate w grads =
     fold (\<lambda>i w. fold (updateCell rate grads i) [0..<length (w ! i)] w) [0..<length w] w"

definition updateEntry :: "real \<Rightarrow> real list \<Rightarrow> nat \<Rightarrow> real list \<Rightarrow> real list" where
  \<comment> \<open>the body of the loop, lines 205 to 207 and 211 to 213\<close>
  "updateEntry rate grads i b =
     (case (elem b i, elem grads i) of
        (Some c, Some g) \<Rightarrow> b[i := c - rate * g]
      | _ \<Rightarrow> b)"

definition updateVector :: "real \<Rightarrow> real list \<Rightarrow> real list \<Rightarrow> real list" where
  "updateVector rate b grads = fold (updateEntry rate grads) [0..<length b] b"

subsection \<open>trainStep\<close>

text \<open>
  \<open>trainStep\<close> mutates the engine and returns the record, so the model returns the record
  and the engine after the call. The parameters of the \<open>forward\<close> section are the copies
  made on entry, those of the \<open>after\<close> section the copies made on exit. An update
  \<open>w[i][j] -= ...\<close> is a list update, which changes that cell only; for the arrays of the
  source this needs that no two rows of the engine are the same array, which is proved on
  the store (\<open>updateMatrixAt_refines\<close>).

  The source never throws. When \<open>target\<close> is shorter than \<open>outputPost\<close>, the entries of
  \<open>outputGradients\<close> past its end are NaN, and from there NaN spreads through the
  gradients into the parameters; the model stops there with \<open>Inl NotANumber\<close>.
\<close>

datatype error = NotANumber

definition trainStep ::
  "NeuralNetwork \<Rightarrow> real list \<Rightarrow> real list \<Rightarrow> error + (TrainingStep \<times> NeuralNetwork)" where
  "trainStep nn inputs target =
     (let initialWeights1 = weights1 nn;
          initialWeights2 = weights2 nn;
          initialBiases1 = biases1 nn;
          initialBiases2 = biases2 nn;
          hiddenPre = vectorAdd (matrixMultiply (weights1 nn) inputs) (biases1 nn);
          hiddenPost = map sigmoid hiddenPre;
          outputPre = vectorAdd (matrixMultiply (weights2 nn) hiddenPost) (biases2 nn);
          outputPost = (if taskType nn = classification then map sigmoid outputPre
                        else outputPre);
          loss = lossOf (taskType nn) outputPost target;
          outputGradientsOpt = outputGradientsOf outputPost target
      in if None \<in> set outputGradientsOpt then Inl NotANumber
         else
           let outputGradients = map the outputGradientsOpt;
               hiddenErrorValues = hiddenErrorValuesOf nn outputGradients;
               hiddenGradients = hiddenGradientsOf hiddenErrorValues hiddenPre;
               weights2Gradients =
                 map (\<lambda>hidden_val. map (\<lambda>grad. hidden_val * grad) outputGradients) hiddenPost;
               weights1Gradients =
                 map (\<lambda>input_val. map (\<lambda>grad. input_val * grad) hiddenGradients) inputs;
               biases2Gradients = outputGradients;
               biases1Gradients = hiddenGradients;
               nn2 = nn\<lparr>weights2 := updateMatrix (learningRate nn) (weights2 nn) weights2Gradients\<rparr>;
               nn1 = nn2\<lparr>weights1 := updateMatrix (learningRate nn2) (weights1 nn2) weights1Gradients\<rparr>;
               nnb2 = nn1\<lparr>biases2 := updateVector (learningRate nn1) (biases2 nn1) biases2Gradients\<rparr>;
               nnb1 = nnb2\<lparr>biases1 := updateVector (learningRate nnb2) (biases1 nnb2) biases1Gradients\<rparr>
           in Inr (\<lparr>forward = \<lparr>fw_inputs = inputs,
                                fw_hiddenPre = hiddenPre,
                                fw_hiddenPost = hiddenPost,
                                fw_outputPre = outputPre,
                                fw_outputPost = outputPost,
                                fw_weights1 = initialWeights1,
                                fw_weights2 = initialWeights2,
                                fw_biases1 = initialBiases1,
                                fw_biases2 = initialBiases2\<rparr>,
                    backward = \<lparr>bw_loss = loss,
                                 bw_outputGradients = outputGradients,
                                 bw_hiddenGradients = hiddenGradients,
                                 bw_weights2Gradients = weights2Gradients,
                                 bw_weights1Gradients = weights1Gradients,
                                 bw_biases2Gradients = biases2Gradients,
                                 bw_biases1Gradients = biases1Gradients\<rparr>,
                    after = \<lparr>af_weights1 = weights1 nnb1,
                              af_weights2 = weights2 nnb1,
                              af_biases1 = biases1 nnb1,
                              af_biases2 = biases2 nnb1\<rparr>\<rparr>,
                   nnb1))"

subsection \<open>Well-dimensioned engines\<close>

text \<open>
  The constructor takes \<open>inputSize\<close>, \<open>hiddenSize\<close> and \<open>outputSize\<close> and keeps them only
  as the shapes of the tensors it builds: \<open>weights1\<close> has \<open>inputSize\<close> rows of \<open>hiddenSize\<close>
  cells, \<open>weights2\<close> has \<open>hiddenSize\<close> rows of \<open>outputSize\<close> cells, \<open>biases1\<close> has
  \<open>hiddenSize\<close> and \<open>biases2\<close> has \<open>outputSize\<close> entries. The sizes are read back from the
  tensors; an engine is well-dimensioned when the shapes agree and no size is zero.
\<close>

definition inputSize :: "NeuralNetwork \<Rightarrow> nat" where
  "inputSize nn = length (weights1 nn)"

definition hiddenSize :: "NeuralNetwork \<Rightarrow> nat" where
  "hiddenSize nn = length (biases1 nn)"

definition outputSize :: "NeuralNetwork \<Rightarrow> nat" where
  "outputSize nn = length (biases2 nn)"

definition wellDimensioned :: "NeuralNetwork \<Rightarrow> bool" where
  "wellDimensioned nn \<longleftrightarrow>
     0 < inputSize nn \<and> 0 < hiddenSize nn \<and> 0 < outputSize nn \<and>
     list_all (\<lambda>row. length row = hiddenSize nn) (weights1 nn) \<and>
     length (weights2 nn) = hiddenSize nn \<and>
     list_all (\<lambda>row. length row = outputSize nn) (weights2 nn)"

subsection \<open>The forward pass as the specification words it\<close>

text \<open>
  These four definitions follow the specification's formulas, index by index, and are
  what \<open>predict\<close> and \<open>trainStep\<close> are compared with.
\<close>

definition spec_hiddenPre :: "NeuralNetwork \<Rightarrow> real list \<Rightarrow> real list" where
  "spec_hiddenPre nn inputs =
     map (\<lambda>h. (\<Sum>i<inputSize nn. weights1 nn ! i ! h * inputs ! i) + biases1 nn ! h)
       [0..<hiddenSize nn]"

definition spec_hiddenPost :: "NeuralNetwork \<Rightarrow> real list \<Rightarrow> real list" where
  "spec_hiddenPost nn inputs = map (\<lambda>x. 1 / (1 + exp (- x))) (spec_hiddenPre nn inputs)"

definition spec_outputPre :: "NeuralNetwork \<Rightarrow> real list \<Rightarrow> real list" where
  "spec_outputPre nn inputs =
     map (\<lambda>k. (\<Sum>h<hiddenSize nn. weights2 nn ! h ! k * spec_hiddenPost nn inputs ! h)
               + biases2 nn ! k)
       [0..<outputSize nn]"

definition spec_outputPost :: "NeuralNetwork \<Rightarrow> real list \<Rightarrow> real list" where
  "spec_outputPost nn inputs =
     (case taskType nn of
        classification \<Rightarrow> map (\<lambda>x. 1 / (1 + exp (- x))) (spec_outputPre nn inputs)
      | regression \<Rightarrow> spec_outputPre nn inputs)"

definition hasShape :: "nat \<Rightarrow> nat \<Rightarrow> real list list \<Rightarrow> bool" where
  "hasShape r c m \<longleftrightarrow> length m = r \<and> list_all (\<lambda>row. length row = c) m"

text \<open>
  The specification's clamp, which "restricts \<open>y\<close> to \<open>[\<epsilon>, 1 - \<epsilon>]\<close> with \<open>\<epsilon> = 1e-12\<close>".
\<close>

definition spec_clamp :: "real \<Rightarrow> real" where
  "spec_clamp y =
     (if y < 1 / 10 ^ 12 then 1 / 10 ^ 12
      else if 1 - 1 / 10 ^ 12 < y then 1 - 1 / 10 ^ 12
      else y)"

subsection \<open>Two small engines\<close>

text \<open>
  Two inputs, one hidden unit, one output, the shape of the specification's single-step
  scenario, with parameters chosen so that the input \<open>[2, -1]\<close> gives the hidden
  pre-activation 0, where the sigmoid is one half.
\<close>

definition regressionNet :: NeuralNetwork where
  "regressionNet = \<lparr>weights1 = [[1], [2]], weights2 = [[2]], biases1 = [0], biases2 = [1],
                     learningRate = 1 / 10, taskType = regression\<rparr>"

definition classificationNet :: NeuralNetwork where
  "classificationNet = \<lparr>weights1 = [[1], [2]], weights2 = [[2]], biases1 = [0], biases2 = [- 1],
                         learningRate = 1 / 10, taskType = classification\<rparr>"

section \<open>Arrays as objects: getWeights and setWeights\<close>

text \<open>
  Whether a caller who holds an array can change the engine through it depends on which
  arrays are shared, which lists of numbers do not show. Here an array is an object in a
  store. The store is the list of the arrays allocated so far and the address of an array
  is its position, so a new array gets the address \<open>length s\<close> and every address handed
  out before stays below it. An array of numbers is a \<open>Numbers\<close> object; a matrix is a
  \<open>Rows\<close> object, the array of the addresses of its rows. The source is typed, so an
  address of type \<open>number[]\<close> holds a \<open>Numbers\<close> object and one of type \<open>number[][]\<close> a
  \<open>Rows\<close> object of such addresses (\<open>isNumbers\<close> and \<open>isMatrix\<close> below); the reading
  functions give the empty list elsewhere, and every theorem is about well-typed addresses.
\<close>

datatype obj = Numbers "real list" | Rows "nat list"

type_synonym store = "obj list"

definition alloc :: "obj \<Rightarrow> store \<Rightarrow> nat \<times> store" where
  "alloc ob s = (length s, s @ [ob])"

definition numbersAt :: "store \<Rightarrow> nat \<Rightarrow> real list" where
  "numbersAt s a = (case elem s a of Some (Numbers xs) \<Rightarrow> xs | _ \<Rightarrow> [])"

definition rowsAt :: "store \<Rightarrow> nat \<Rightarrow> nat list" where
  "rowsAt s a = (case elem s a of Some (Rows rs) \<Rightarrow> rs | _ \<Rightarrow> [])"

definition matrixAt :: "store \<Rightarrow> nat \<Rightarrow> real list list" where
  "matrixAt s a = map (numbersAt s) (rowsAt s a)"

text \<open>\<open>[...row]\<close>: a new array with the entries of \<open>row\<close>.\<close>

definition spread :: "nat \<Rightarrow> store \<Rightarrow> nat \<times> store" where
  "spread a s = alloc (Numbers (numbersAt s a)) s"

text \<open>\<open>m.map(row => [...row])\<close>: the rows are copied in order, then the array of the copies
  is allocated.\<close>

fun spreadEach :: "nat list \<Rightarrow> store \<Rightarrow> nat list \<times> store" where
  "spreadEach [] s = ([], s)"
| "spreadEach (r # rs) s =
     (case spread r s of (r', s1) \<Rightarrow>
        case spreadEach rs s1 of (rs', s2) \<Rightarrow> (r' # rs', s2))"

definition copyRows :: "nat \<Rightarrow> store \<Rightarrow> nat \<times> store" where
  "copyRows a s = (case spreadEach (rowsAt s a) s of (rs', s1) \<Rightarrow> alloc (Rows rs') s1)"

text \<open>
  The object \<open>{weights1, weights2, biases1, biases2}\<close> that \<open>getWeights\<close> returns and
  \<open>setWeights\<close> takes holds four addresses, and so do the four private fields of the
  engine.
\<close>

record Tensors =
  weights1At :: nat
  weights2At :: nat
  biases1At :: nat
  biases2At :: nat

record EngineObj =
  tensors :: Tensors
  learningRateOf :: real
  taskTypeOf :: TaskType

text \<open>
  The four copies that both \<open>getWeights\<close> (lines 247 to 252) and \<open>setWeights\<close> (lines 261
  to 264) make, in the order of the source.
\<close>

definition copyTensors :: "Tensors \<Rightarrow> store \<Rightarrow> Tensors \<times> store" where
  "copyTensors t s =
     (case copyRows (weights1At t) s of (w1, s1) \<Rightarrow>
      case copyRows (weights2At t) s1 of (w2, s2) \<Rightarrow>
      case spread (biases1At t) s2 of (b1, s3) \<Rightarrow>
      case spread (biases2At t) s3 of (b2, s4) \<Rightarrow>
        (\<lparr>weights1At = w1, weights2At = w2, biases1At = b1, biases2At = b2\<rparr>, s4))"

definition getWeights :: "EngineObj \<Rightarrow> store \<Rightarrow> Tensors \<times> store" where
  "getWeights e s = copyTensors (tensors e) s"

definition setWeights :: "EngineObj \<Rightarrow> Tensors \<Rightarrow> store \<Rightarrow> EngineObj \<times> store" where
  "setWeights e weights s =
     (case copyTensors weights s of (t, s') \<Rightarrow> (e\<lparr>tensors := t\<rparr>, s'))"

text \<open>The parameters that an engine object holds in a store, as the lists of section 1.\<close>

definition engineOf :: "store \<Rightarrow> EngineObj \<Rightarrow> NeuralNetwork" where
  "engineOf s e =
     \<lparr>weights1 = matrixAt s (weights1At (tensors e)),
      weights2 = matrixAt s (weights2At (tensors e)),
      biases1 = numbersAt s (biases1At (tensors e)),
      biases2 = numbersAt s (biases2At (tensors e)),
      learningRate = learningRateOf e,
      taskType = taskTypeOf e\<rparr>"

text \<open>
  \<open>predict\<close> reads the engine's arrays and the input and writes to arrays of its own
  only, so on the store it is \<open>predict\<close> on the parameters read from the store.
\<close>

definition predictAt :: "store \<Rightarrow> EngineObj \<Rightarrow> real list \<Rightarrow> real list" where
  "predictAt s e inputs = predict (engineOf s e) inputs"

text \<open>
  The types \<open>number[]\<close> and \<open>number[][]\<close> of the source, as predicates on addresses.
\<close>

definition isNumbers :: "store \<Rightarrow> nat \<Rightarrow> bool" where
  "isNumbers s a = (case elem s a of Some (Numbers xs) \<Rightarrow> True | _ \<Rightarrow> False)"

definition isMatrix :: "store \<Rightarrow> nat \<Rightarrow> bool" where
  "isMatrix s a = (case elem s a of Some (Rows rs) \<Rightarrow> list_all (isNumbers s) rs | _ \<Rightarrow> False)"

definition validTensors :: "store \<Rightarrow> Tensors \<Rightarrow> bool" where
  "validTensors s t \<longleftrightarrow>
     isMatrix s (weights1At t) \<and> isMatrix s (weights2At t) \<and>
     isNumbers s (biases1At t) \<and> isNumbers s (biases2At t)"

text \<open>
  The arrays that can be reached from a matrix, and from the four fields of a weights
  object: what a caller holding the object can write to.
\<close>

definition matrixCells :: "store \<Rightarrow> nat \<Rightarrow> nat set" where
  "matrixCells s a = insert a (set (rowsAt s a))"

definition tensorCells :: "store \<Rightarrow> Tensors \<Rightarrow> nat set" where
  "tensorCells s t =
     matrixCells s (weights1At t) \<union> matrixCells s (weights2At t)
     \<union> {biases1At t, biases2At t}"

text \<open>
  Any mutation confined to the arrays \<open>C\<close>: the later store \<open>s'\<close> may hold anything at the
  addresses in \<open>C\<close> and may have new arrays, and is \<open>s\<close> everywhere else.
\<close>

definition changedOnlyAt :: "nat set \<Rightarrow> store \<Rightarrow> store \<Rightarrow> bool" where
  "changedOnlyAt C s s' \<longleftrightarrow>
     length s \<le> length s' \<and> (\<forall>a<length s. a \<notin> C \<longrightarrow> s' ! a = s ! a)"

text \<open>
  A store with the arrays of the engine \<open>regressionNet\<close> at the addresses 0 to 6, and with a
  weights object that a caller has built at the addresses 7 to 13.
\<close>

definition exampleStore :: store where
  "exampleStore =
     [Numbers [1], Numbers [2], Rows [0, 1], Numbers [2], Rows [3], Numbers [0], Numbers [1],
      Numbers [5], Numbers [6], Rows [7, 8], Numbers [7], Rows [10], Numbers [8], Numbers [9]]"

definition exampleEngine :: EngineObj where
  "exampleEngine =
     \<lparr>tensors = \<lparr>weights1At = 2, weights2At = 4, biases1At = 5, biases2At = 6\<rparr>,
      learningRateOf = 1 / 10, taskTypeOf = regression\<rparr>"

definition callerWeights :: Tensors where
  "callerWeights = \<lparr>weights1At = 9, weights2At = 11, biases1At = 12, biases2At = 13\<rparr>"

section \<open>trainStep on the store\<close>

text \<open>
  \<open>trainStep\<close> copies the parameters, allocates the arrays of the forward pass and of the
  gradients, then writes the new parameters into the engine's own arrays, cell by cell, and
  copies them once more. This section gives the same function on the store, statement by
  statement, so that the order of the copies and of the writes is the source's.
\<close>

text \<open>Arrays built by nested \<open>map\<close> calls: each row is a new array, then the array of
  the rows.\<close>

fun allocEach :: "real list list \<Rightarrow> store \<Rightarrow> nat list \<times> store" where
  "allocEach [] s = ([], s)"
| "allocEach (row # rows) s =
     (case alloc (Numbers row) s of (r', s1) \<Rightarrow>
        case allocEach rows s1 of (rs', s2) \<Rightarrow> (r' # rs', s2))"

definition allocMatrix :: "real list list \<Rightarrow> store \<Rightarrow> nat \<times> store" where
  "allocMatrix rows s = (case allocEach rows s of (rs', s1) \<Rightarrow> alloc (Rows rs') s1)"

text \<open>\<open>a[j] = v\<close> on the array at address \<open>a\<close>.\<close>

definition writeCell :: "nat \<Rightarrow> nat \<Rightarrow> real \<Rightarrow> store \<Rightarrow> store" where
  "writeCell a j v s = s[a := Numbers ((numbersAt s a)[j := v])]"

text \<open>
  The update loops of lines 188 to 214 on the store. \<open>wAt\<close> is the matrix that is updated
  and \<open>gAt\<close> the matrix of its gradients; every read is from the store as it is at that
  moment, and the write goes to the row array \<open>w[i]\<close>.
\<close>

definition updateCellAt :: "real \<Rightarrow> nat \<Rightarrow> nat \<Rightarrow> nat \<Rightarrow> nat \<Rightarrow> store \<Rightarrow> store" where
  "updateCellAt rate wAt gAt i j s =
     (case (elem2 (matrixAt s wAt) i j, elem2 (matrixAt s gAt) i j) of
        (Some c, Some g) \<Rightarrow> writeCell (rowsAt s wAt ! i) j (c - rate * g) s
      | _ \<Rightarrow> s)"

definition updateMatrixAt :: "real \<Rightarrow> nat \<Rightarrow> nat \<Rightarrow> store \<Rightarrow> store" where
  "updateMatrixAt rate wAt gAt s =
     fold (\<lambda>i s. fold (updateCellAt rate wAt gAt i) [0..<length (matrixAt s wAt ! i)] s)
       [0..<length (matrixAt s wAt)] s"

definition updateEntryAt :: "real \<Rightarrow> nat \<Rightarrow> nat \<Rightarrow> nat \<Rightarrow> store \<Rightarrow> store" where
  "updateEntryAt rate bAt gAt i s =
     (case (elem (numbersAt s bAt) i, elem (numbersAt s gAt) i) of
        (Some c, Some g) \<Rightarrow> writeCell bAt i (c - rate * g) s
      | _ \<Rightarrow> s)"

definition updateVectorAt :: "real \<Rightarrow> nat \<Rightarrow> nat \<Rightarrow> store \<Rightarrow> store" where
  "updateVectorAt rate bAt gAt s =
     fold (updateEntryAt rate bAt gAt) [0..<length (numbersAt s bAt)] s"

text \<open>
  The record that \<open>trainStep\<close> returns, as the addresses of its arrays. \<open>initialAt\<close> holds
  the four copies made on entry (the \<open>forward\<close> section's parameters) and \<open>afterAt\<close> the
  four copies made before returning. The loss is a number, not an array.
\<close>

record TrainingStepObj =
  inputsAt :: nat
  hiddenPreAt :: nat
  hiddenPostAt :: nat
  outputPreAt :: nat
  outputPostAt :: nat
  initialAt :: Tensors
  lossValue :: "real option"
  outputGradientsAt :: nat
  hiddenGradientsAt :: nat
  weights2GradientsAt :: nat
  weights1GradientsAt :: nat
  biases2GradientsAt :: nat
  biases1GradientsAt :: nat
  afterAt :: Tensors

text \<open>
  Lines 126 to 136. \<open>vectorAdd\<close> and both \<open>map\<close> calls return new arrays, and so does the copy
  \<open>[...outputPre]\<close> of the regression branch. The array that \<open>matrixMultiply\<close> returns is
  passed to \<open>vectorAdd\<close> and dropped, so it is not allocated here.
\<close>

definition forwardPassAt :: "EngineObj \<Rightarrow> nat \<Rightarrow> store \<Rightarrow> (nat \<times> nat \<times> nat \<times> nat) \<times> store" where
  "forwardPassAt e inputs s =
     (case alloc (Numbers (vectorAdd
                    (matrixMultiply (matrixAt s (weights1At (tensors e))) (numbersAt s inputs))
                    (numbersAt s (biases1At (tensors e))))) s of (hiddenPre, s1) \<Rightarrow>
      case alloc (Numbers (map sigmoid (numbersAt s1 hiddenPre))) s1 of (hiddenPost, s2) \<Rightarrow>
      case alloc (Numbers (vectorAdd
                    (matrixMultiply (matrixAt s2 (weights2At (tensors e))) (numbersAt s2 hiddenPost))
                    (numbersAt s2 (biases2At (tensors e))))) s2 of (outputPre, s3) \<Rightarrow>
      case alloc (Numbers (if taskTypeOf e = classification
                           then map sigmoid (numbersAt s3 outputPre)
                           else numbersAt s3 outputPre)) s3 of (outputPost, s4) \<Rightarrow>
        ((hiddenPre, hiddenPost, outputPre, outputPost), s4))"

text \<open>
  Lines 139 to 185: the loss, \<open>outputGradients\<close>, \<open>hiddenGradients\<close>, the two matrices of
  weight gradients, and the two copies \<open>[...outputGradients]\<close> and \<open>[...hiddenGradients]\<close>.
  The array \<open>hiddenErrorValues\<close> is used once and dropped, so it is not allocated here.
  As in \<open>trainStep\<close>, a NaN in \<open>outputGradients\<close> ends the model with \<open>Inl NotANumber\<close>.
\<close>

definition gradientsAt ::
  "EngineObj \<Rightarrow> nat \<Rightarrow> nat \<Rightarrow> nat \<Rightarrow> nat \<Rightarrow> nat \<Rightarrow> store
   \<Rightarrow> error + ((real option \<times> nat \<times> nat \<times> nat \<times> nat \<times> nat \<times> nat) \<times> store)" where
  "gradientsAt e inputs target hiddenPre hiddenPost outputPost s =
     (let loss = lossOf (taskTypeOf e) (numbersAt s outputPost) (numbersAt s target);
          outputGradientsOpt = outputGradientsOf (numbersAt s outputPost) (numbersAt s target)
      in if None \<in> set outputGradientsOpt then Inl NotANumber
         else
           case alloc (Numbers (map the outputGradientsOpt)) s of (outputGradients, s1) \<Rightarrow>
           case alloc (Numbers (hiddenGradientsOf
                          (hiddenErrorValuesOf (engineOf s1 e) (numbersAt s1 outputGradients))
                          (numbersAt s1 hiddenPre))) s1 of (hiddenGradients, s2) \<Rightarrow>
           case allocMatrix (map (\<lambda>hidden_val. map (\<lambda>grad. hidden_val * grad)
                                                  (numbersAt s2 outputGradients))
                               (numbersAt s2 hiddenPost)) s2 of (weights2Gradients, s3) \<Rightarrow>
           case allocMatrix (map (\<lambda>input_val. map (\<lambda>grad. input_val * grad)
                                                 (numbersAt s3 hiddenGradients))
                               (numbersAt s3 inputs)) s3 of (weights1Gradients, s4) \<Rightarrow>
           case spread outputGradients s4 of (biases2Gradients, s5) \<Rightarrow>
           case spread hiddenGradients s5 of (biases1Gradients, s6) \<Rightarrow>
             Inr ((loss, outputGradients, hiddenGradients, weights2Gradients,
                   weights1Gradients, biases2Gradients, biases1Gradients), s6))"

text \<open>Lines 188 to 214: the four updates in place, in the order of the source.\<close>

definition updateParametersAt :: "EngineObj \<Rightarrow> nat \<Rightarrow> nat \<Rightarrow> nat \<Rightarrow> nat \<Rightarrow> store \<Rightarrow> store" where
  "updateParametersAt e weights2Gradients weights1Gradients biases2Gradients biases1Gradients s =
     (let s1 = updateMatrixAt (learningRateOf e) (weights2At (tensors e)) weights2Gradients s;
          s2 = updateMatrixAt (learningRateOf e) (weights1At (tensors e)) weights1Gradients s1;
          s3 = updateVectorAt (learningRateOf e) (biases2At (tensors e)) biases2Gradients s2
      in updateVectorAt (learningRateOf e) (biases1At (tensors e)) biases1Gradients s3)"

text \<open>
  \<open>trainStep\<close>: the four copies of lines 120 to 123, the forward pass, the gradients, the
  updates, the four copies of lines 238 to 241, and the record. The \<open>inputs\<close> of the record
  is the caller's array itself.
\<close>

definition trainStepAt ::
  "EngineObj \<Rightarrow> nat \<Rightarrow> nat \<Rightarrow> store \<Rightarrow> error + (TrainingStepObj \<times> store)" where
  "trainStepAt e inputs target s =
     (case copyTensors (tensors e) s of (initial, s1) \<Rightarrow>
      case forwardPassAt e inputs s1 of ((hiddenPre, hiddenPost, outputPre, outputPost), s2) \<Rightarrow>
      case gradientsAt e inputs target hiddenPre hiddenPost outputPost s2 of
        Inl err \<Rightarrow> Inl err
      | Inr ((loss, outputGradients, hiddenGradients, weights2Gradients, weights1Gradients,
              biases2Gradients, biases1Gradients), s3) \<Rightarrow>
          let s4 = updateParametersAt e weights2Gradients weights1Gradients
                     biases2Gradients biases1Gradients s3
          in case copyTensors (tensors e) s4 of (afterCopy, s5) \<Rightarrow>
               Inr (\<lparr>inputsAt = inputs,
                     hiddenPreAt = hiddenPre,
                     hiddenPostAt = hiddenPost,
                     outputPreAt = outputPre,
                     outputPostAt = outputPost,
                     initialAt = initial,
                     lossValue = loss,
                     outputGradientsAt = outputGradients,
                     hiddenGradientsAt = hiddenGradients,
                     weights2GradientsAt = weights2Gradients,
                     weights1GradientsAt = weights1Gradients,
                     biases2GradientsAt = biases2Gradients,
                     biases1GradientsAt = biases1Gradients,
                     afterAt = afterCopy\<rparr>, s5))"

text \<open>The record as a caller reads it from a store: every array by its address.\<close>

definition stepOf :: "store \<Rightarrow> TrainingStepObj \<Rightarrow> TrainingStep" where
  "stepOf s r =
     \<lparr>forward = \<lparr>fw_inputs = numbersAt s (inputsAt r),
                 fw_hiddenPre = numbersAt s (hiddenPreAt r),
                 fw_hiddenPost = numbersAt s (hiddenPostAt r),
                 fw_outputPre = numbersAt s (outputPreAt r),
                 fw_outputPost = numbersAt s (outputPostAt r),
                 fw_weights1 = matrixAt s (weights1At (initialAt r)),
                 fw_weights2 = matrixAt s (weights2At (initialAt r)),
                 fw_biases1 = numbersAt s (biases1At (initialAt r)),
                 fw_biases2 = numbersAt s (biases2At (initialAt r))\<rparr>,
      backward = \<lparr>bw_loss = lossValue r,
                  bw_outputGradients = numbersAt s (outputGradientsAt r),
                  bw_hiddenGradients = numbersAt s (hiddenGradientsAt r),
                  bw_weights2Gradients = matrixAt s (weights2GradientsAt r),
                  bw_weights1Gradients = matrixAt s (weights1GradientsAt r),
                  bw_biases2Gradients = numbersAt s (biases2GradientsAt r),
                  bw_biases1Gradients = numbersAt s (biases1GradientsAt r)\<rparr>,
      after = \<lparr>af_weights1 = matrixAt s (weights1At (afterAt r)),
               af_weights2 = matrixAt s (weights2At (afterAt r)),
               af_biases1 = numbersAt s (biases1At (afterAt r)),
               af_biases2 = numbersAt s (biases2At (afterAt r))\<rparr>\<rparr>"

text \<open>
  The engine's arrays of numbers: the rows of its two matrices and its two bias vectors. The
  constructor and \<open>setWeights\<close> allocate each of them afresh, so the list has no address
  twice; the update loops rely on it, since a row that stood for two rows would be updated
  twice.
\<close>

definition numberCells :: "store \<Rightarrow> Tensors \<Rightarrow> nat list" where
  "numberCells s t =
     rowsAt s (weights1At t) @ rowsAt s (weights2At t) @ [biases1At t, biases2At t]"

definition ownsItsArrays :: "store \<Rightarrow> EngineObj \<Rightarrow> bool" where
  "ownsItsArrays s e \<longleftrightarrow>
     validTensors s (tensors e) \<and> distinct (numberCells s (tensors e))"

text \<open>
  The stores that the update loops pass through: the arrays \<open>rs\<close> are still arrays of
  numbers, and nothing else has changed since \<open>s0\<close>.
\<close>

definition updatedInPlace :: "nat list \<Rightarrow> store \<Rightarrow> store \<Rightarrow> bool" where
  "updatedInPlace rs s0 s \<longleftrightarrow>
     length s = length s0 \<and> (\<forall>a<length s0. a \<notin> set rs \<longrightarrow> s ! a = s0 ! a) \<and>
     (\<forall>r\<in>set rs. isNumbers s r)"

text \<open>
  A store for a training step: the arrays of \<open>regressionNet\<close> at the addresses 0 to 6, as in
  \<open>exampleStore\<close>, the caller's input \<open>[2, -1]\<close> at 7 and target \<open>[1]\<close> at 8.
\<close>

definition trainingStore :: store where
  "trainingStore =
     [Numbers [1], Numbers [2], Rows [0, 1], Numbers [2], Rows [3], Numbers [0], Numbers [1],
      Numbers [2, - 1], Numbers [1]]"

section \<open>Numbers that overflow: the loss of a classification step\<close>















subsection \<open>The forward pass of trainStep (lines 126 to 136)\<close>







subsection \<open>The loss of trainStep (lines 139 to 157)\<close>










subsection \<open>Four engines over these numbers\<close>





section \<open>Properties of the array primitives and the loops\<close>

lemma elem_Some [simp]: "i < length xs \<Longrightarrow> elem xs i = Some (xs ! i)"
  by (simp add: elem_def)

lemma elem_None [simp]: "\<not> i < length xs \<Longrightarrow> elem xs i = None"
  by (simp add: elem_def)

lemma elem2_Some [simp]:
  "i < length m \<Longrightarrow> j < length (m ! i) \<Longrightarrow> elem2 m i j = Some (m ! i ! j)"
  by (simp add: elem2_def)

lemma elem2_None_row [simp]: "\<not> i < length m \<Longrightarrow> elem2 m i j = None"
  by (simp add: elem2_def)

lemma elem2_None_cell [simp]: "i < length m \<Longrightarrow> \<not> j < length (m ! i) \<Longrightarrow> elem2 m i j = None"
  by (simp add: elem2_def)

lemma length_mapi [simp]: "length (mapi f xs) = length xs"
  by (simp add: mapi_def)

lemma nth_mapi [simp]: "i < length xs \<Longrightarrow> mapi f xs ! i = f (xs ! i) i"
  by (simp add: mapi_def)

text \<open>
  A counted loop that rewrites cell \<open>j\<close> of an array in round \<open>j\<close> has rewritten the first
  \<open>k\<close> cells after \<open>k\<close> rounds.
\<close>

lemma fold_cells:
  assumes step: "\<And>j r. j < m \<Longrightarrow> length r = m \<Longrightarrow> F j r = r[j := h j (r ! j)]"
  shows "k \<le> m \<Longrightarrow> length r = m \<Longrightarrow>
         fold F [0..<k] r = map (\<lambda>j. if j < k then h j (r ! j) else r ! j) [0..<m]"
proof (induction k)
  case 0
  then show ?case by (auto intro: nth_equalityI)
next
  case (Suc k)
  let ?prev = "map (\<lambda>j. if j < k then h j (r ! j) else r ! j) [0..<m]"
  have prev: "fold F [0..<k] r = ?prev" using Suc by simp
  have "fold F [0..<Suc k] r = F k ?prev" by (simp add: prev)
  also have "\<dots> = ?prev[k := h k (?prev ! k)]" using Suc.prems by (intro step) simp_all
  also have "\<dots> = map (\<lambda>j. if j < Suc k then h j (r ! j) else r ! j) [0..<m]"
    using Suc.prems by (intro nth_equalityI) (auto simp: nth_list_update less_Suc_eq)
  finally show ?case .
qed

subsection \<open>matrixMultiply\<close>

lemma matrixMultiply_nonempty:
  "matrix_a \<noteq> [] \<Longrightarrow>
   matrixMultiply matrix_a vector_b =
     (if length vector_b \<noteq> length matrix_a then replicate (length (hd matrix_a)) 0
      else fold (\<lambda>j result. fold (mulAddCell matrix_a vector_b j) [0..<length matrix_a] result)
             [0..<length (hd matrix_a)] (replicate (length (hd matrix_a)) 0))"
  by (cases matrix_a) (simp_all add: matrixMultiply_def Let_def del: upt_Suc)

lemma matrixMultiply_mismatch:
  "matrix_a \<noteq> [] \<Longrightarrow> length vector_b \<noteq> length matrix_a \<Longrightarrow>
   matrixMultiply matrix_a vector_b = replicate (length (hd matrix_a)) 0"
  by (simp add: matrixMultiply_nonempty)

lemma length_mulAddCell [simp]: "length (mulAddCell a b j i r) = length r"
  by (simp add: mulAddCell_def split: option.splits)

lemma length_fold_mulAddCell [simp]: "length (fold (mulAddCell a b j) is r) = length r"
  by (induction "is" arbitrary: r) simp_all

lemma mm_inner:
  assumes "j < length r"
  shows "n \<le> length a \<Longrightarrow> n \<le> length b \<Longrightarrow> \<forall>i<n. j < length (a ! i) \<Longrightarrow>
     fold (mulAddCell a b j) [0..<n] r = r[j := r ! j + (\<Sum>i<n. b ! i * (a ! i ! j))]"
proof (induction n)
  case 0
  then show ?case by simp
next
  case (Suc n)
  then show ?case using assms by (simp add: mulAddCell_def add.assoc)
qed

lemma matrixMultiply_rect:
  assumes ne: "matrix_a \<noteq> []"
    and rect: "\<forall>row\<in>set matrix_a. length row = m"
    and len: "length vector_b = length matrix_a"
  shows "matrixMultiply matrix_a vector_b
         = map (\<lambda>j. \<Sum>i<length matrix_a. vector_b ! i * (matrix_a ! i ! j)) [0..<m]"
proof -
  have m: "length (hd matrix_a) = m" using rect ne by (cases matrix_a) simp_all
  have rows: "\<forall>i<length matrix_a. length (matrix_a ! i) = m" using rect by simp
  let ?inner = "\<lambda>j result. fold (mulAddCell matrix_a vector_b j) [0..<length matrix_a] result"
  let ?h = "\<lambda>j c. c + (\<Sum>i<length matrix_a. vector_b ! i * (matrix_a ! i ! j))"
  have step: "?inner j r = r[j := ?h j (r ! j)]" if "j < m" "length r = m" for j r
    using that rows len by (simp add: mm_inner)
  have "matrixMultiply matrix_a vector_b = fold ?inner [0..<m] (replicate m 0)"
    using ne m len by (simp add: matrixMultiply_nonempty del: upt_Suc)
  also have "\<dots> = map (\<lambda>j. if j < m then ?h j (replicate m (0::real) ! j)
                               else replicate m 0 ! j) [0..<m]"
    by (rule fold_cells[OF step]) simp_all
  also have "\<dots> = map (\<lambda>j. \<Sum>i<length matrix_a. vector_b ! i * (matrix_a ! i ! j)) [0..<m]"
    by simp
  finally show ?thesis .
qed

lemma length_matrixMultiply:
  "length (matrixMultiply matrix_a vector_b) = (case matrix_a of [] \<Rightarrow> 0 | row0 # _ \<Rightarrow> length row0)"
proof (cases matrix_a)
  case Nil
  then show ?thesis by (simp add: matrixMultiply_def)
next
  case (Cons row0 rest)
  have outer: "length (fold (\<lambda>j result. fold (mulAddCell matrix_a vector_b j)
                        [0..<length matrix_a] result) js r) = length r" for js r
    by (induction js arbitrary: r) (simp_all del: upt_Suc)
  show ?thesis
    using Cons outer[of "[0..<length row0]" "replicate (length row0) 0"]
    by (simp add: matrixMultiply_nonempty del: upt_Suc)
qed

subsection \<open>vectorAdd\<close>

lemma length_vectorAdd [simp]: "length (vectorAdd a b) = length a"
  by (simp add: vectorAdd_def)

lemma vectorAdd_same_length:
  "length a = length b \<Longrightarrow> vectorAdd a b = map (\<lambda>i. a ! i + b ! i) [0..<length a]"
  by (intro nth_equalityI) (simp_all add: vectorAdd_def)

subsection \<open>The forward pass of a well-dimensioned engine\<close>

lemma wellDimensionedD:
  assumes "wellDimensioned nn"
  shows "weights1 nn \<noteq> []" "weights2 nn \<noteq> []"
    "\<forall>row\<in>set (weights1 nn). length row = hiddenSize nn"
    "\<forall>row\<in>set (weights2 nn). length row = outputSize nn"
    "length (weights2 nn) = hiddenSize nn"
    "length (biases1 nn) = hiddenSize nn" "length (biases2 nn) = outputSize nn"
    "length (weights1 nn) = inputSize nn"
    "0 < inputSize nn" "0 < hiddenSize nn" "0 < outputSize nn"
  using assms
  by (auto simp: wellDimensioned_def inputSize_def hiddenSize_def outputSize_def list_all_iff)

lemma sigmoid_eq: "sigmoid = (\<lambda>x. 1 / (1 + exp (- x)))"
  by (rule ext) (simp add: sigmoid_def)

lemma hiddenPre_spec:
  assumes wd: "wellDimensioned nn" and len: "length inputs = inputSize nn"
  shows "vectorAdd (matrixMultiply (weights1 nn) inputs) (biases1 nn) = spec_hiddenPre nn inputs"
proof -
  note d = wellDimensionedD[OF wd]
  have mm: "matrixMultiply (weights1 nn) inputs
        = map (\<lambda>j. \<Sum>i<inputSize nn. inputs ! i * (weights1 nn ! i ! j)) [0..<hiddenSize nn]"
    using matrixMultiply_rect[OF d(1) d(3), of inputs] len d(8) by simp
  show ?thesis
    unfolding mm spec_hiddenPre_def using d(6)
    by (intro nth_equalityI) (simp_all add: vectorAdd_def mult.commute)
qed

lemma length_spec_hiddenPost [simp]: "length (spec_hiddenPost nn inputs) = hiddenSize nn"
  by (simp add: spec_hiddenPost_def spec_hiddenPre_def)

lemma outputPre_spec:
  assumes wd: "wellDimensioned nn"
  shows "vectorAdd (matrixMultiply (weights2 nn) (spec_hiddenPost nn inputs)) (biases2 nn)
         = spec_outputPre nn inputs"
proof -
  note d = wellDimensionedD[OF wd]
  have mm: "matrixMultiply (weights2 nn) (spec_hiddenPost nn inputs)
        = map (\<lambda>j. \<Sum>i<hiddenSize nn. spec_hiddenPost nn inputs ! i * (weights2 nn ! i ! j))
            [0..<outputSize nn]"
    using matrixMultiply_rect[OF d(2) d(4), of "spec_hiddenPost nn inputs"] d(5) by simp
  show ?thesis
    unfolding mm spec_outputPre_def using d(7)
    by (intro nth_equalityI) (simp_all add: vectorAdd_def mult.commute)
qed

subsection \<open>The update loops and the hidden error\<close>

lemma length_updateEntry [simp]: "length (updateEntry rate g i b) = length b"
  by (simp add: updateEntry_def split: option.splits)

lemma updateVector_eq:
  "updateVector rate b grads
   = mapi (\<lambda>c i. case elem grads i of Some g \<Rightarrow> c - rate * g | None \<Rightarrow> c) b"
proof -
  let ?h = "\<lambda>i c. case elem grads i of Some g \<Rightarrow> c - rate * g | None \<Rightarrow> c"
  have step: "updateEntry rate grads j r = r[j := ?h j (r ! j)]"
    if "j < length b" "length r = length b" for j r
    using that by (simp add: updateEntry_def split: option.splits)
  have "updateVector rate b grads
        = map (\<lambda>j. if j < length b then ?h j (b ! j) else b ! j) [0..<length b]"
    unfolding updateVector_def by (rule fold_cells[OF step]) simp_all
  also have "\<dots> = mapi (\<lambda>c i. ?h i c) b"
    by (simp add: mapi_def)
  finally show ?thesis .
qed

lemma length_updateCell [simp]: "length (updateCell rate g i j w) = length w"
  by (simp add: updateCell_def split: option.splits)

lemma updateCell_row:
  assumes "i < length w" "j < length (w ! i)"
  shows "updateCell rate grads i j w
         = w[i := (w ! i)[j := (case elem2 grads i j of Some g \<Rightarrow> w ! i ! j - rate * g
                                | None \<Rightarrow> w ! i ! j)]]"
  using assms by (simp add: updateCell_def split: option.splits)

lemma update_row_loop:
  assumes i: "i < length w"
  shows "k \<le> length (w ! i) \<Longrightarrow>
     fold (updateCell rate grads i) [0..<k] w
     = w[i := map (\<lambda>j. if j < k then (case elem2 grads i j of Some g \<Rightarrow> w ! i ! j - rate * g
                                                 | None \<Rightarrow> w ! i ! j)
                           else w ! i ! j) [0..<length (w ! i)]]"
proof (induction k)
  case 0
  have "map (\<lambda>j. w ! i ! j) [0..<length (w ! i)] = w ! i" by (rule map_nth)
  then show ?case by simp
next
  case (Suc k)
  let ?c = "\<lambda>j. case elem2 grads i j of Some g \<Rightarrow> w ! i ! j - rate * g | None \<Rightarrow> w ! i ! j"
  let ?row = "\<lambda>k. map (\<lambda>j. if j < k then ?c j else w ! i ! j) [0..<length (w ! i)]"
  have prev: "fold (updateCell rate grads i) [0..<k] w = w[i := ?row k]"
    using Suc by simp
  have "fold (updateCell rate grads i) [0..<Suc k] w = updateCell rate grads i k (w[i := ?row k])"
    by (simp add: prev)
  also have "\<dots> = (w[i := ?row k])[i := (?row k)[k := ?c k]]"
    using i Suc.prems by (subst updateCell_row) (auto split: option.splits)
  also have "\<dots> = w[i := ?row (Suc k)]"
  proof -
    have "(?row k)[k := ?c k] = ?row (Suc k)"
      using Suc.prems
      by (intro nth_equalityI) (auto simp: nth_list_update less_Suc_eq cong: option.case_cong)
    then show ?thesis by simp
  qed
  finally show ?case .
qed

lemma updateMatrix_eq:
  "updateMatrix rate w grads
   = mapi (\<lambda>row i. mapi (\<lambda>c j. case elem2 grads i j of Some g \<Rightarrow> c - rate * g | None \<Rightarrow> c) row) w"
proof -
  let ?h = "\<lambda>i row. mapi (\<lambda>c j. case elem2 grads i j of Some g \<Rightarrow> c - rate * g | None \<Rightarrow> c) row"
  have step: "fold (updateCell rate grads j) [0..<length (r ! j)] r = r[j := ?h j (r ! j)]"
    if "j < length w" "length r = length w" for j r
  proof -
    have "fold (updateCell rate grads j) [0..<length (r ! j)] r
          = r[j := map (\<lambda>ja. if ja < length (r ! j) then (case elem2 grads j ja of Some g \<Rightarrow> r ! j ! ja - rate * g
                                                 | None \<Rightarrow> r ! j ! ja)
                           else r ! j ! ja) [0..<length (r ! j)]]"
      using that by (intro update_row_loop) simp_all
    also have "map (\<lambda>ja. if ja < length (r ! j) then (case elem2 grads j ja of Some g \<Rightarrow> r ! j ! ja - rate * g
                                                 | None \<Rightarrow> r ! j ! ja)
                           else r ! j ! ja) [0..<length (r ! j)] = ?h j (r ! j)"
      by (simp add: mapi_def)
    finally show ?thesis .
  qed
  have "updateMatrix rate w grads
        = map (\<lambda>j. if j < length w then ?h j (w ! j) else w ! j) [0..<length w]"
    unfolding updateMatrix_def by (rule fold_cells[OF step]) simp_all
  also have "\<dots> = mapi (\<lambda>row i. ?h i row) w"
    by (simp add: mapi_def)
  finally show ?thesis .
qed

lemma hiddenError_loop:
  assumes "h < length w2"
  shows "n \<le> length (w2 ! h) \<Longrightarrow> n \<le> length og \<Longrightarrow>
     fold (addErrorTerm w2 og h) [0..<n] s = s + (\<Sum>k<n. og ! k * (w2 ! h ! k))"
  using assms by (induction n) (simp_all add: addErrorTerm_def add.assoc)

subsection \<open>The pieces of trainStep on well-dimensioned data\<close>

lemma length_spec_hiddenPre [simp]: "length (spec_hiddenPre nn inputs) = hiddenSize nn"
  by (simp add: spec_hiddenPre_def)

lemma length_spec_outputPre [simp]: "length (spec_outputPre nn inputs) = outputSize nn"
  by (simp add: spec_outputPre_def)

lemma length_spec_outputPost [simp]: "length (spec_outputPost nn inputs) = outputSize nn"
  by (simp add: spec_outputPost_def split: TaskType.splits)

lemma outputPost_spec:
  assumes wd: "wellDimensioned nn" and len: "length inputs = inputSize nn"
  shows "(if taskType nn = classification
          then map sigmoid (vectorAdd (matrixMultiply (weights2 nn)
                 (map sigmoid (vectorAdd (matrixMultiply (weights1 nn) inputs) (biases1 nn))))
                 (biases2 nn))
          else vectorAdd (matrixMultiply (weights2 nn)
                 (map sigmoid (vectorAdd (matrixMultiply (weights1 nn) inputs) (biases1 nn))))
                 (biases2 nn))
         = spec_outputPost nn inputs"
  unfolding hiddenPre_spec[OF wd len] sigmoid_eq
    spec_hiddenPost_def[symmetric] outputPre_spec[OF wd]
  by (simp add: spec_outputPost_def split: TaskType.splits)

lemma predict_is_spec:
  assumes wd: "wellDimensioned nn" and len: "length inputs = inputSize nn"
  shows "predict nn inputs = spec_outputPost nn inputs"
  unfolding predict_def Let_def by (rule outputPost_spec[OF wd len])

lemma outputGradientsOf_defined:
  "length ys \<le> length target \<Longrightarrow>
   outputGradientsOf ys target = map (\<lambda>i. Some (ys ! i - target ! i)) [0..<length ys]"
  by (intro nth_equalityI) (simp_all add: outputGradientsOf_def)

lemma hiddenErrorValuesOf_wd:
  assumes wd: "wellDimensioned nn" and og: "length og = outputSize nn"
  shows "hiddenErrorValuesOf nn og
         = map (\<lambda>h. \<Sum>k<outputSize nn. og ! k * (weights2 nn ! h ! k)) [0..<hiddenSize nn]"
proof -
  note d = wellDimensionedD[OF wd]
  have "fold (addErrorTerm (weights2 nn) og h) [0..<length (biases2 nn)] 0
        = (\<Sum>k<outputSize nn. og ! k * (weights2 nn ! h ! k))" if "h < hiddenSize nn" for h
    using that d og by (subst hiddenError_loop) simp_all
  then show ?thesis
    using d by (simp add: hiddenErrorValuesOf_def)
qed

lemma hiddenGradientsOf_same_length:
  "length errs = length pre \<Longrightarrow>
   hiddenGradientsOf errs pre = map (\<lambda>h. errs ! h * sigmoidDerivative (pre ! h)) [0..<length errs]"
  by (intro nth_equalityI) (simp_all add: hiddenGradientsOf_def)

lemma updateVector_same_length:
  "length grads = length b \<Longrightarrow>
   updateVector rate b grads = map (\<lambda>i. b ! i - rate * grads ! i) [0..<length b]"
  by (intro nth_equalityI) (simp_all add: updateVector_eq)

lemma updateMatrix_same_shape:
  assumes "length w = r" "\<forall>row\<in>set w. length row = c"
    "length grads = r" "\<forall>row\<in>set grads. length row = c"
  shows "updateMatrix rate w grads
         = map (\<lambda>i. map (\<lambda>j. w ! i ! j - rate * grads ! i ! j) [0..<c]) [0..<r]"
  using assms by (intro nth_equalityI) (simp_all add: updateMatrix_eq)

subsection \<open>The loss\<close>

lemma epsilon_pos: "0 < epsilon" and epsilon_small: "epsilon < 1 - epsilon"
  by (simp_all add: epsilon_def)

lemma clampOutput_bounds: "epsilon \<le> clampOutput y" "clampOutput y \<le> 1 - epsilon"
  using epsilon_small by (simp_all add: clampOutput_def)

lemma Math_log_clamp [simp]:
  "Math_log (clampOutput y) = Some (ln (clampOutput y))"
  "Math_log (1 - clampOutput y) = Some (ln (1 - clampOutput y))"
  using clampOutput_bounds[of y] epsilon_pos by (simp_all add: Math_log_def)

lemma bce_loop:
  "k \<le> length ys \<Longrightarrow> k \<le> length target \<Longrightarrow>
   fold (\<lambda>i acc. bceStep target acc (ys ! i) i) [0..<k] (Some s)
   = Some (s - (\<Sum>i<k. target ! i * ln (clampOutput (ys ! i))
                        + (1 - target ! i) * ln (1 - clampOutput (ys ! i))))"
  by (induction k) (simp_all add: bceStep_def Let_def algebra_simps)

lemma mse_loop:
  "k \<le> length ys \<Longrightarrow> k \<le> length target \<Longrightarrow>
   fold (\<lambda>i acc. mseStep target acc (ys ! i) i) [0..<k] (Some s)
   = Some (s + (\<Sum>i<k. 0.5 * (target ! i - ys ! i) ^ 2))"
  by (induction k) (simp_all add: mseStep_def algebra_simps)

lemma lossOf_defined:
  assumes "ys \<noteq> []" "length ys \<le> length target"
  shows "lossOf tt ys target =
     Some (case tt of
        classification \<Rightarrow>
          - (\<Sum>i<length ys. target ! i * ln (clampOutput (ys ! i))
                            + (1 - target ! i) * ln (1 - clampOutput (ys ! i))) / real (length ys)
      | regression \<Rightarrow> (\<Sum>i<length ys. 0.5 * (target ! i - ys ! i) ^ 2) / real (length ys))"
  using assms
  by (cases tt) (simp_all add: lossOf_def reducei_def bce_loop mse_loop divideByLength_def)

subsection \<open>trainStep on well-dimensioned data, in closed form\<close>

lemma map_by_index: "map f xs = map (\<lambda>i. f (xs ! i)) [0..<length xs]"
  by (intro nth_equalityI) simp_all

lemma trainStep_wd:
  fixes nn :: NeuralNetwork
  assumes wd: "wellDimensioned nn"
    and len_in: "length inputs = inputSize nn"
    and len_t: "length target = outputSize nn"
  defines "og \<equiv> map (\<lambda>k. spec_outputPost nn inputs ! k - target ! k) [0..<outputSize nn]"
  defines "hg \<equiv> map (\<lambda>h. (\<Sum>k<outputSize nn. og ! k * (weights2 nn ! h ! k))
                           * sigmoidDerivative (spec_hiddenPre nn inputs ! h)) [0..<hiddenSize nn]"
  defines "g2 \<equiv> map (\<lambda>h. map (\<lambda>k. spec_hiddenPost nn inputs ! h * og ! k) [0..<outputSize nn])
                  [0..<hiddenSize nn]"
  defines "g1 \<equiv> map (\<lambda>i. map (\<lambda>h. inputs ! i * hg ! h) [0..<hiddenSize nn]) [0..<inputSize nn]"
  defines "w2' \<equiv> map (\<lambda>h. map (\<lambda>k. weights2 nn ! h ! k - learningRate nn * g2 ! h ! k)
                   [0..<outputSize nn]) [0..<hiddenSize nn]"
  defines "w1' \<equiv> map (\<lambda>i. map (\<lambda>h. weights1 nn ! i ! h - learningRate nn * g1 ! i ! h)
                   [0..<hiddenSize nn]) [0..<inputSize nn]"
  defines "b2' \<equiv> map (\<lambda>k. biases2 nn ! k - learningRate nn * og ! k) [0..<outputSize nn]"
  defines "b1' \<equiv> map (\<lambda>h. biases1 nn ! h - learningRate nn * hg ! h) [0..<hiddenSize nn]"
  shows "trainStep nn inputs target =
     Inr (\<lparr>forward = \<lparr>fw_inputs = inputs,
                      fw_hiddenPre = spec_hiddenPre nn inputs,
                      fw_hiddenPost = spec_hiddenPost nn inputs,
                      fw_outputPre = spec_outputPre nn inputs,
                      fw_outputPost = spec_outputPost nn inputs,
                      fw_weights1 = weights1 nn,
                      fw_weights2 = weights2 nn,
                      fw_biases1 = biases1 nn,
                      fw_biases2 = biases2 nn\<rparr>,
           backward = \<lparr>bw_loss = lossOf (taskType nn) (spec_outputPost nn inputs) target,
                       bw_outputGradients = og,
                       bw_hiddenGradients = hg,
                       bw_weights2Gradients = g2,
                       bw_weights1Gradients = g1,
                       bw_biases2Gradients = og,
                       bw_biases1Gradients = hg\<rparr>,
           after = \<lparr>af_weights1 = w1', af_weights2 = w2', af_biases1 = b1', af_biases2 = b2'\<rparr>\<rparr>,
          nn\<lparr>weights2 := w2', weights1 := w1', biases2 := b2', biases1 := b1'\<rparr>)"
proof -
  note d = wellDimensionedD[OF wd]
  have pre: "vectorAdd (matrixMultiply (weights1 nn) inputs) (biases1 nn) = spec_hiddenPre nn inputs"
    by (rule hiddenPre_spec[OF wd len_in])
  have post: "map sigmoid (spec_hiddenPre nn inputs) = spec_hiddenPost nn inputs"
    by (simp add: spec_hiddenPost_def sigmoid_eq)
  have opre: "vectorAdd (matrixMultiply (weights2 nn) (spec_hiddenPost nn inputs)) (biases2 nn)
              = spec_outputPre nn inputs"
    by (rule outputPre_spec[OF wd])
  have opost: "(if taskType nn = classification then map sigmoid (spec_outputPre nn inputs)
                else spec_outputPre nn inputs) = spec_outputPost nn inputs"
    by (simp add: spec_outputPost_def sigmoid_eq split: TaskType.splits)
  have ogo: "outputGradientsOf (spec_outputPost nn inputs) target = map Some og"
    using len_t by (simp add: outputGradientsOf_defined og_def)
  have no_nan: "None \<notin> set (map Some og)" by auto
  have the_og: "map the (map Some og) = og" by (simp add: comp_def)
  have len_og: "length og = outputSize nn" by (simp add: og_def)
  have he: "hiddenErrorValuesOf nn og
            = map (\<lambda>h. \<Sum>k<outputSize nn. og ! k * (weights2 nn ! h ! k)) [0..<hiddenSize nn]"
    by (rule hiddenErrorValuesOf_wd[OF wd len_og])
  have hgo: "hiddenGradientsOf (hiddenErrorValuesOf nn og) (spec_hiddenPre nn inputs) = hg"
    unfolding he by (subst hiddenGradientsOf_same_length) (simp_all add: hg_def)
  have len_hg: "length hg = hiddenSize nn" by (simp add: hg_def)
  have g2o: "map (\<lambda>hidden_val. map (\<lambda>grad. hidden_val * grad) og) (spec_hiddenPost nn inputs) = g2"
    unfolding g2_def using len_og by (intro nth_equalityI) simp_all
  have g1o: "map (\<lambda>input_val. map (\<lambda>grad. input_val * grad) hg) inputs = g1"
    unfolding g1_def using len_hg len_in by (intro nth_equalityI) simp_all
  have u2: "updateMatrix (learningRate nn) (weights2 nn) g2 = w2'"
    unfolding w2'_def
    by (rule updateMatrix_same_shape) (use d in \<open>auto simp: g2_def\<close>)
  have u1: "updateMatrix (learningRate nn) (weights1 nn) g1 = w1'"
    unfolding w1'_def
    by (rule updateMatrix_same_shape) (use d in \<open>auto simp: g1_def\<close>)
  have ub2: "updateVector (learningRate nn) (biases2 nn) og = b2'"
    unfolding b2'_def using d len_og by (simp add: updateVector_same_length)
  have ub1: "updateVector (learningRate nn) (biases1 nn) hg = b1'"
    unfolding b1'_def using d len_hg by (simp add: updateVector_same_length)
  show ?thesis
    unfolding trainStep_def Let_def pre post opre opost ogo the_og hgo g2o g1o
    using no_nan by (simp add: u2 u1 ub2 ub1)
qed

subsection \<open>The two small engines, evaluated\<close>

lemma regressionNet_sel:
  "weights1 regressionNet = [[1], [2]]" "weights2 regressionNet = [[2]]"
  "biases1 regressionNet = [0]" "biases2 regressionNet = [1]"
  "learningRate regressionNet = 1 / 10" "taskType regressionNet = regression"
  by (simp_all add: regressionNet_def)

lemma regressionNet_size:
  "inputSize regressionNet = 2" "hiddenSize regressionNet = 1" "outputSize regressionNet = 1"
  by (simp_all add: regressionNet_sel inputSize_def hiddenSize_def outputSize_def)

lemma regressionNet_wd: "wellDimensioned regressionNet"
  by (simp add: wellDimensioned_def regressionNet_size regressionNet_sel)

lemma classificationNet_sel:
  "weights1 classificationNet = [[1], [2]]" "weights2 classificationNet = [[2]]"
  "biases1 classificationNet = [0]" "biases2 classificationNet = [- 1]"
  "learningRate classificationNet = 1 / 10" "taskType classificationNet = classification"
  by (simp_all add: classificationNet_def)

lemma classificationNet_size:
  "inputSize classificationNet = 2" "hiddenSize classificationNet = 1"
  "outputSize classificationNet = 1"
  by (simp_all add: classificationNet_sel inputSize_def hiddenSize_def outputSize_def)

lemma classificationNet_wd: "wellDimensioned classificationNet"
  by (simp add: wellDimensioned_def classificationNet_size classificationNet_sel)

lemma upt_2: "[0..<2] = [0, 1]"
  by (simp add: upt_rec)

lemma sum_lessThan_1: "(\<Sum>i<Suc 0. f i) = (f 0 :: real)"
  by simp

lemma sum_lessThan_2: "(\<Sum>i<(2::nat). f i) = (f 0 + f 1 :: real)"
  by (simp add: lessThan_Suc eval_nat_numeral)

lemma regressionNet_forward:
  "spec_hiddenPre regressionNet [2, - 1] = [0]"
  "spec_hiddenPost regressionNet [2, - 1] = [1 / 2]"
  "spec_outputPre regressionNet [2, - 1] = [2]"
  "spec_outputPost regressionNet [2, - 1] = [2]"
proof -
  show a: "spec_hiddenPre regressionNet [2, - 1] = [0]"
    by (simp add: spec_hiddenPre_def regressionNet_size regressionNet_sel sum_lessThan_2)
  show b: "spec_hiddenPost regressionNet [2, - 1] = [1 / 2]"
    by (simp add: spec_hiddenPost_def a)
  show c: "spec_outputPre regressionNet [2, - 1] = [2]"
    by (simp add: spec_outputPre_def b regressionNet_size regressionNet_sel)
  show "spec_outputPost regressionNet [2, - 1] = [2]"
    by (simp add: spec_outputPost_def c regressionNet_sel)
qed

lemma classificationNet_forward:
  "spec_hiddenPre classificationNet [2, - 1] = [0]"
  "spec_hiddenPost classificationNet [2, - 1] = [1 / 2]"
  "spec_outputPre classificationNet [2, - 1] = [0]"
  "spec_outputPost classificationNet [2, - 1] = [1 / 2]"
proof -
  show a: "spec_hiddenPre classificationNet [2, - 1] = [0]"
    by (simp add: spec_hiddenPre_def classificationNet_size classificationNet_sel sum_lessThan_2)
  show b: "spec_hiddenPost classificationNet [2, - 1] = [1 / 2]"
    by (simp add: spec_hiddenPost_def a)
  show c: "spec_outputPre classificationNet [2, - 1] = [0]"
    by (simp add: spec_outputPre_def b classificationNet_size classificationNet_sel)
  show "spec_outputPost classificationNet [2, - 1] = [1 / 2]"
    by (simp add: spec_outputPost_def c classificationNet_sel)
qed

lemma sigmoidDerivative_0: "sigmoidDerivative 0 = 1 / 4"
  by (simp add: sigmoidDerivative_def sigmoid_def Let_def)

lemma regressionNet_step:
  "trainStep regressionNet [2, - 1] [1] =
     Inr (\<lparr>forward = \<lparr>fw_inputs = [2, - 1], fw_hiddenPre = [0], fw_hiddenPost = [1 / 2],
                      fw_outputPre = [2], fw_outputPost = [2],
                      fw_weights1 = [[1], [2]], fw_weights2 = [[2]],
                      fw_biases1 = [0], fw_biases2 = [1]\<rparr>,
           backward = \<lparr>bw_loss = Some (1 / 2), bw_outputGradients = [1],
                       bw_hiddenGradients = [1 / 2], bw_weights2Gradients = [[1 / 2]],
                       bw_weights1Gradients = [[1], [- 1 / 2]],
                       bw_biases2Gradients = [1], bw_biases1Gradients = [1 / 2]\<rparr>,
           after = \<lparr>af_weights1 = [[9 / 10], [41 / 20]], af_weights2 = [[39 / 20]],
                    af_biases1 = [- 1 / 20], af_biases2 = [9 / 10]\<rparr>\<rparr>,
          \<lparr>weights1 = [[9 / 10], [41 / 20]], weights2 = [[39 / 20]], biases1 = [- 1 / 20],
           biases2 = [9 / 10], learningRate = 1 / 10, taskType = regression\<rparr>)"
proof -
  have loss: "lossOf regression [2] [1] = Some (1 / 2)"
    by (simp add: lossOf_defined)
  have step: "trainStep regressionNet [2, - 1] [1] = Inr (\<lparr>forward = \<lparr>fw_inputs = [2, - 1], fw_hiddenPre = [0], fw_hiddenPost = [1 / 2],
                      fw_outputPre = [2], fw_outputPost = [2],
                      fw_weights1 = [[1], [2]], fw_weights2 = [[2]],
                      fw_biases1 = [0], fw_biases2 = [1]\<rparr>,
           backward = \<lparr>bw_loss = Some (1 / 2), bw_outputGradients = [1],
                       bw_hiddenGradients = [1 / 2], bw_weights2Gradients = [[1 / 2]],
                       bw_weights1Gradients = [[1], [- 1 / 2]],
                       bw_biases2Gradients = [1], bw_biases1Gradients = [1 / 2]\<rparr>,
           after = \<lparr>af_weights1 = [[9 / 10], [41 / 20]], af_weights2 = [[39 / 20]],
                    af_biases1 = [- 1 / 20], af_biases2 = [9 / 10]\<rparr>\<rparr>,
          regressionNet\<lparr>weights2 := [[39 / 20]], weights1 := [[9 / 10], [41 / 20]],
             biases2 := [9 / 10], biases1 := [- 1 / 20]\<rparr>)"
    by (simp add: trainStep_wd[OF regressionNet_wd] regressionNet_forward regressionNet_size
        regressionNet_sel upt_2 sum_lessThan_2 sigmoidDerivative_0 loss)
  show ?thesis
    unfolding step by (simp add: regressionNet_def)
qed

lemma classificationNet_step:
  "trainStep classificationNet [2, - 1] [1] =
     Inr (\<lparr>forward = \<lparr>fw_inputs = [2, - 1], fw_hiddenPre = [0], fw_hiddenPost = [1 / 2],
                      fw_outputPre = [0], fw_outputPost = [1 / 2],
                      fw_weights1 = [[1], [2]], fw_weights2 = [[2]],
                      fw_biases1 = [0], fw_biases2 = [- 1]\<rparr>,
           backward = \<lparr>bw_loss = Some (ln 2), bw_outputGradients = [- 1 / 2],
                       bw_hiddenGradients = [- 1 / 4], bw_weights2Gradients = [[- 1 / 4]],
                       bw_weights1Gradients = [[- 1 / 2], [1 / 4]],
                       bw_biases2Gradients = [- 1 / 2], bw_biases1Gradients = [- 1 / 4]\<rparr>,
           after = \<lparr>af_weights1 = [[21 / 20], [79 / 40]], af_weights2 = [[81 / 40]],
                    af_biases1 = [1 / 40], af_biases2 = [- 19 / 20]\<rparr>\<rparr>,
          \<lparr>weights1 = [[21 / 20], [79 / 40]], weights2 = [[81 / 40]], biases1 = [1 / 40],
           biases2 = [- 19 / 20], learningRate = 1 / 10, taskType = classification\<rparr>)"
proof -
  have clamp: "clampOutput (1 / 2) = 1 / 2"
    by (simp add: clampOutput_def epsilon_def)
  have loss: "lossOf classification [1 / 2] [1] = Some (ln 2)"
    by (simp add: lossOf_defined clamp ln_div)
  have step: "trainStep classificationNet [2, - 1] [1] =
     Inr (\<lparr>forward = \<lparr>fw_inputs = [2, - 1], fw_hiddenPre = [0], fw_hiddenPost = [1 / 2],
                      fw_outputPre = [0], fw_outputPost = [1 / 2],
                      fw_weights1 = [[1], [2]], fw_weights2 = [[2]],
                      fw_biases1 = [0], fw_biases2 = [- 1]\<rparr>,
           backward = \<lparr>bw_loss = Some (ln 2), bw_outputGradients = [- 1 / 2],
                       bw_hiddenGradients = [- 1 / 4], bw_weights2Gradients = [[- 1 / 4]],
                       bw_weights1Gradients = [[- 1 / 2], [1 / 4]],
                       bw_biases2Gradients = [- 1 / 2], bw_biases1Gradients = [- 1 / 4]\<rparr>,
           after = \<lparr>af_weights1 = [[21 / 20], [79 / 40]], af_weights2 = [[81 / 40]],
                    af_biases1 = [1 / 40], af_biases2 = [- 19 / 20]\<rparr>\<rparr>,
          classificationNet\<lparr>weights2 := [[81 / 40]], weights1 := [[21 / 20], [79 / 40]],
             biases2 := [- 19 / 20], biases1 := [1 / 40]\<rparr>)"
    by (simp add: trainStep_wd[OF classificationNet_wd] classificationNet_forward
        classificationNet_size classificationNet_sel upt_2 sum_lessThan_2 sigmoidDerivative_0
        loss)
  show ?thesis
    unfolding step by (simp add: classificationNet_def)
qed

section \<open>Properties of the store\<close>

lemma elem_append_old: "a < length s \<Longrightarrow> elem (s @ ext) a = elem s a"
  by (simp add: elem_def nth_append)

lemma isNumbers_bound: "isNumbers s a \<Longrightarrow> a < length s"
  by (auto simp: isNumbers_def elem_def split: if_splits)

lemma isMatrix_bound: "isMatrix s a \<Longrightarrow> a < length s"
  by (auto simp: isMatrix_def elem_def split: if_splits)

lemma isMatrix_rows: "isMatrix s a \<Longrightarrow> r \<in> set (rowsAt s a) \<Longrightarrow> isNumbers s r"
  by (auto simp: isMatrix_def rowsAt_def list_all_iff split: option.splits obj.splits)

text \<open>Reading an array depends on the store at its address only.\<close>

lemma numbersAt_cong: "elem s' a = elem s a \<Longrightarrow> numbersAt s' a = numbersAt s a"
  by (simp add: numbersAt_def)

lemma isNumbers_cong: "elem s' a = elem s a \<Longrightarrow> isNumbers s' a = isNumbers s a"
  by (simp add: isNumbers_def)

lemma rowsAt_cong: "elem s' a = elem s a \<Longrightarrow> rowsAt s' a = rowsAt s a"
  by (simp add: rowsAt_def)

lemma matrixAt_cong:
  assumes "\<forall>c\<in>matrixCells s a. elem s' c = elem s c"
  shows "matrixAt s' a = matrixAt s a"
proof -
  have r: "rowsAt s' a = rowsAt s a"
    using assms by (intro rowsAt_cong) (simp add: matrixCells_def)
  have "numbersAt s' c = numbersAt s c" if "c \<in> set (rowsAt s a)" for c
    using assms that by (intro numbersAt_cong) (simp add: matrixCells_def)
  then show ?thesis
    by (simp add: matrixAt_def r)
qed

lemma isMatrix_cong:
  assumes "\<forall>c\<in>matrixCells s a. elem s' c = elem s c"
  shows "isMatrix s' a = isMatrix s a"
proof -
  have a: "elem s' a = elem s a" using assms by (simp add: matrixCells_def)
  have "isNumbers s' c = isNumbers s c" if "c \<in> set (rowsAt s a)" for c
    using assms that by (intro isNumbers_cong) (simp add: matrixCells_def)
  then show ?thesis
    by (auto simp: isMatrix_def a rowsAt_def list_all_iff split: option.splits obj.splits)
qed

lemma matrixCells_cong: "elem s' a = elem s a \<Longrightarrow> matrixCells s' a = matrixCells s a"
  unfolding matrixCells_def using rowsAt_cong[of s' a s] by simp

lemma matrixCells_bound:
  assumes "isMatrix s a" and "c \<in> matrixCells s a"
  shows "c < length s"
proof (cases "c = a")
  case True
  then show ?thesis using assms(1) by (simp add: isMatrix_bound)
next
  case False
  then have "c \<in> set (rowsAt s a)" using assms(2) by (simp add: matrixCells_def)
  then show ?thesis using assms(1) by (blast intro: isNumbers_bound isMatrix_rows)
qed

lemma tensorCells_bound:
  assumes "validTensors s t" and "c \<in> tensorCells s t"
  shows "c < length s"
  using assms unfolding validTensors_def tensorCells_def
  by (blast intro: matrixCells_bound isNumbers_bound)

text \<open>A store that has only grown reads as before at the old addresses.\<close>

lemma prefix_elem: "prefix s s' \<Longrightarrow> a < length s \<Longrightarrow> elem s' a = elem s a"
  by (auto simp: prefix_def elem_def nth_append)

lemma prefix_numbersAt: "prefix s s' \<Longrightarrow> isNumbers s a \<Longrightarrow> numbersAt s' a = numbersAt s a"
  by (rule numbersAt_cong, rule prefix_elem, assumption, rule isNumbers_bound)

lemma prefix_isNumbers:
  assumes "prefix s s'" and "isNumbers s a"
  shows "isNumbers s' a"
proof -
  have "elem s' a = elem s a"
    using assms(1) isNumbers_bound[OF assms(2)] by (rule prefix_elem)
  then have "isNumbers s' a = isNumbers s a" by (rule isNumbers_cong)
  then show ?thesis using assms(2) by simp
qed

lemma prefix_matrix_agree:
  assumes "prefix s s'" and "isMatrix s a"
  shows "\<forall>c\<in>matrixCells s a. elem s' c = elem s c"
proof
  fix c
  assume "c \<in> matrixCells s a"
  then have "c < length s" using assms(2) by (simp add: matrixCells_bound)
  with assms(1) show "elem s' c = elem s c" by (rule prefix_elem)
qed

lemma prefix_matrixAt: "prefix s s' \<Longrightarrow> isMatrix s a \<Longrightarrow> matrixAt s' a = matrixAt s a"
  by (intro matrixAt_cong prefix_matrix_agree)

lemma prefix_isMatrix: "prefix s s' \<Longrightarrow> isMatrix s a \<Longrightarrow> isMatrix s' a"
  using isMatrix_cong[OF prefix_matrix_agree, of s s' a] by simp

lemma prefix_matrixCells: "prefix s s' \<Longrightarrow> isMatrix s a \<Longrightarrow> matrixCells s' a = matrixCells s a"
  by (rule matrixCells_cong, rule prefix_elem, assumption, rule isMatrix_bound)

lemma prefix_length: "prefix s s' \<Longrightarrow> length s \<le> length s'"
  by (auto simp: prefix_def)

text \<open>The copies.\<close>

lemma spread_result:
  assumes "spread a s = (a', s')"
  shows "a' = length s" "s' = s @ [Numbers (numbersAt s a)]"
  using assms by (auto simp: spread_def alloc_def)

lemma spread_props:
  assumes "spread a s = (a', s')"
  shows "prefix s s'" "length s' = Suc (length s)" "a' = length s" "isNumbers s' a'"
    "numbersAt s' a' = numbersAt s a"
  using spread_result[OF assms] by (simp_all add: isNumbers_def numbersAt_def)

lemma spreadEach_props:
  assumes "spreadEach rs s = (rs', s')" and "\<forall>r\<in>set rs. isNumbers s r"
  shows "prefix s s' \<and> length s' = length s + length rs \<and>
         rs' = [length s..<length s + length rs] \<and>
         (\<forall>r\<in>set rs'. isNumbers s' r) \<and>
         map (numbersAt s') rs' = map (numbersAt s) rs"
  using assms
proof (induction rs arbitrary: s rs' s')
  case Nil
  then show ?case by simp
next
  case (Cons r rs)
  obtain r1 s1 where sp: "spread r s = (r1, s1)" by (cases "spread r s")
  obtain rs2 s2 where se: "spreadEach rs s1 = (rs2, s2)" by (cases "spreadEach rs s1")
  have res: "rs' = r1 # rs2" "s' = s2" using Cons.prems(1) sp se by simp_all
  note p = spread_props[OF sp]
  have r_ok: "isNumbers s r" and rs_ok: "\<forall>x\<in>set rs. isNumbers s x"
    using Cons.prems(2) by simp_all
  have valid1: "\<forall>x\<in>set rs. isNumbers s1 x"
    using rs_ok prefix_isNumbers[OF p(1)] by blast
  from Cons.IH[OF se valid1]
  have ih1: "prefix s1 s2" and ih2: "length s2 = length s1 + length rs"
    and ih3: "rs2 = [length s1..<length s1 + length rs]"
    and ih4: "\<forall>x\<in>set rs2. isNumbers s2 x"
    and ih5: "map (numbersAt s2) rs2 = map (numbersAt s1) rs"
    by blast+
  have pre: "prefix s s2" using p(1) ih1 by (rule prefix_order.trans)
  have r1a: "isNumbers s2 r1" using ih1 p(4) by (rule prefix_isNumbers)
  have r1b: "numbersAt s2 r1 = numbersAt s r"
    using prefix_numbersAt[OF ih1 p(4)] p(5) by simp
  have rest: "map (numbersAt s1) rs = map (numbersAt s) rs"
    using rs_ok prefix_numbersAt[OF p(1)] by simp
  have upt: "[length s..<length s + length (r # rs)] = length s # [length s1..<length s1 + length rs]"
    using p(2) by (simp add: upt_rec)
  have len: "length s2 = length s + length (r # rs)"
    using ih2 p(2) by simp
  have c4: "\<forall>x\<in>set (r1 # rs2). isNumbers s2 x"
    using r1a ih4 by simp
  have c5: "map (numbersAt s2) (r1 # rs2) = map (numbersAt s) (r # rs)"
    using r1b ih5 rest by simp
  have c3: "r1 # rs2 = [length s..<length s + length (r # rs)]"
    unfolding upt using p(3) ih3 by simp
  show ?case
    unfolding res using pre len c3 c4 c5 by blast
qed

lemma copyRows_props:
  assumes "copyRows a s = (a', s')" and "isMatrix s a"
  shows "prefix s s'" "isMatrix s' a'" "matrixAt s' a' = matrixAt s a"
    "matrixCells s' a' \<subseteq> {length s..<length s'}"
proof -
  obtain rs1 s1 where se: "spreadEach (rowsAt s a) s = (rs1, s1)"
    by (cases "spreadEach (rowsAt s a) s")
  have res: "a' = length s1" "s' = s1 @ [Rows rs1]"
    using assms(1) se by (auto simp: copyRows_def alloc_def)
  have rows: "\<forall>r\<in>set (rowsAt s a). isNumbers s r"
    using assms(2) isMatrix_rows by blast
  from spreadEach_props[OF se rows]
  have p1: "prefix s s1" and p2: "length s1 = length s + length (rowsAt s a)"
    and p3: "rs1 = [length s..<length s + length (rowsAt s a)]"
    and p4: "\<forall>x\<in>set rs1. isNumbers s1 x"
    and p5: "map (numbersAt s1) rs1 = map (numbersAt s) (rowsAt s a)"
    by blast+
  have pre1: "prefix s1 s'" by (simp add: res)
  show "prefix s s'" using p1 pre1 by (rule prefix_order.trans)
  have at: "elem s' a' = Some (Rows rs1)" by (simp add: res elem_def)
  have rows': "rowsAt s' a' = rs1" by (simp add: rowsAt_def at)
  have n4: "\<forall>x\<in>set rs1. isNumbers s' x"
    using p4 prefix_isNumbers[OF pre1] by blast
  have n5: "map (numbersAt s') rs1 = map (numbersAt s1) rs1"
    using p4 prefix_numbersAt[OF pre1] by simp
  show "isMatrix s' a'"
    using n4 by (simp add: isMatrix_def at list_all_iff)
  show "matrixAt s' a' = matrixAt s a"
    by (simp add: matrixAt_def rows' n5 p5)
  have "length s' = Suc (length s1)" by (simp add: res)
  moreover have "set rs1 = {length s..<length s1}" by (simp add: p3 p2)
  moreover have "length s \<le> length s1" by (simp add: p2)
  ultimately show "matrixCells s' a' \<subseteq> {length s..<length s'}"
    unfolding matrixCells_def rows' by (auto simp: res(1))
qed

lemma copyTensors_props:
  assumes c: "copyTensors t s = (t', s')" and v: "validTensors s t"
  shows "prefix s s'" "validTensors s' t'"
    "tensorCells s' t' \<subseteq> {length s..<length s'}"
    "matrixAt s' (weights1At t') = matrixAt s (weights1At t)"
    "matrixAt s' (weights2At t') = matrixAt s (weights2At t)"
    "numbersAt s' (biases1At t') = numbersAt s (biases1At t)"
    "numbersAt s' (biases2At t') = numbersAt s (biases2At t)"
proof -
  have v1: "isMatrix s (weights1At t)" and v2: "isMatrix s (weights2At t)"
    and v3: "isNumbers s (biases1At t)" and v4: "isNumbers s (biases2At t)"
    using v by (simp_all add: validTensors_def)
  obtain w1 s1 where c1: "copyRows (weights1At t) s = (w1, s1)"
    by (cases "copyRows (weights1At t) s")
  obtain w2 s2 where c2: "copyRows (weights2At t) s1 = (w2, s2)"
    by (cases "copyRows (weights2At t) s1")
  obtain b1 s3 where c3: "spread (biases1At t) s2 = (b1, s3)"
    by (cases "spread (biases1At t) s2")
  obtain b2 s4 where c4: "spread (biases2At t) s3 = (b2, s4)"
    by (cases "spread (biases2At t) s3")
  have res: "t' = \<lparr>weights1At = w1, weights2At = w2, biases1At = b1, biases2At = b2\<rparr>"
    "s' = s4"
    using c c1 c2 c3 c4 by (simp_all add: copyTensors_def)
  note p1 = copyRows_props[OF c1 v1]
  have v2': "isMatrix s1 (weights2At t)" using p1(1) v2 by (rule prefix_isMatrix)
  note p2 = copyRows_props[OF c2 v2']
  note p3 = spread_props[OF c3]
  note p4 = spread_props[OF c4]
  have s02: "prefix s s2" using p1(1) p2(1) by (rule prefix_order.trans)
  have s03: "prefix s s3" using s02 p3(1) by (rule prefix_order.trans)
  have s13: "prefix s1 s3" using p2(1) p3(1) by (rule prefix_order.trans)
  have s14: "prefix s1 s4" using s13 p4(1) by (rule prefix_order.trans)
  have s24: "prefix s2 s4" using p3(1) p4(1) by (rule prefix_order.trans)
  show "prefix s s'" unfolding res using s03 p4(1) by (rule prefix_order.trans)
  have m1: "isMatrix s4 w1" using s14 p1(2) by (rule prefix_isMatrix)
  have m2: "isMatrix s4 w2" using s24 p2(2) by (rule prefix_isMatrix)
  have n1: "isNumbers s4 b1" using p4(1) p3(4) by (rule prefix_isNumbers)
  show "validTensors s' t'"
    unfolding res using m1 m2 n1 p4(4) by (simp add: validTensors_def)
  have len: "length s \<le> length s1" "length s1 \<le> length s2" "length s3 = Suc (length s2)"
    "length s4 = Suc (length s3)"
    using p1(1) p2(1) p3(2) p4(2) by (simp_all add: prefix_length)
  have cells1: "matrixCells s4 w1 = matrixCells s1 w1"
    using s14 p1(2) by (rule prefix_matrixCells)
  have cells2: "matrixCells s4 w2 = matrixCells s2 w2"
    using s24 p2(2) by (rule prefix_matrixCells)
  show "tensorCells s' t' \<subseteq> {length s..<length s'}"
    unfolding res tensorCells_def using p1(4) p2(4) p3(3) p4(3) len
    by (auto simp: cells1 cells2)
  show "matrixAt s' (weights1At t') = matrixAt s (weights1At t)"
    unfolding res using prefix_matrixAt[OF s14 p1(2)] p1(3) by simp
  show "matrixAt s' (weights2At t') = matrixAt s (weights2At t)"
    unfolding res using prefix_matrixAt[OF s24 p2(2)] p2(3) prefix_matrixAt[OF p1(1) v2]
    by simp
  show "numbersAt s' (biases1At t') = numbersAt s (biases1At t)"
    unfolding res using prefix_numbersAt[OF p4(1) p3(4)] p3(5) prefix_numbersAt[OF s02 v3]
    by simp
  show "numbersAt s' (biases2At t') = numbersAt s (biases2At t)"
    unfolding res using p4(5) prefix_numbersAt[OF s03 v4] by simp
qed

text \<open>The parameters of an engine depend on its own arrays only.\<close>

lemma engineOf_frame:
  assumes v: "validTensors s (tensors e)"
    and agree: "\<forall>c\<in>tensorCells s (tensors e). elem s' c = elem s c"
  shows "engineOf s' e = engineOf s e"
proof -
  have "matrixAt s' (weights1At (tensors e)) = matrixAt s (weights1At (tensors e))"
    "matrixAt s' (weights2At (tensors e)) = matrixAt s (weights2At (tensors e))"
    using agree by (auto intro!: matrixAt_cong simp: tensorCells_def)
  moreover have "numbersAt s' (biases1At (tensors e)) = numbersAt s (biases1At (tensors e))"
    "numbersAt s' (biases2At (tensors e)) = numbersAt s (biases2At (tensors e))"
    using agree by (auto intro!: numbersAt_cong simp: tensorCells_def)
  ultimately show ?thesis
    by (simp add: engineOf_def)
qed

lemma changedOnlyAt_elem:
  "changedOnlyAt C s s' \<Longrightarrow> c < length s \<Longrightarrow> c \<notin> C \<Longrightarrow> elem s' c = elem s c"
  by (simp add: changedOnlyAt_def elem_def)

lemma engineOf_untouched:
  assumes v: "validTensors s (tensors e)"
    and ch: "changedOnlyAt C s s'"
    and disj: "tensorCells s (tensors e) \<inter> C = {}"
  shows "engineOf s' e = engineOf s e"
proof (rule engineOf_frame[OF v], rule ballI)
  fix c
  assume c: "c \<in> tensorCells s (tensors e)"
  then have "c < length s" using v by (simp add: tensorCells_bound)
  moreover have "c \<notin> C" using c disj by blast
  ultimately show "elem s' c = elem s c" using ch by (simp add: changedOnlyAt_elem)
qed

lemma engineOf_prefix:
  assumes v: "validTensors s (tensors e)" and p: "prefix s s'"
  shows "engineOf s' e = engineOf s e"
proof (rule engineOf_frame[OF v], rule ballI)
  fix c
  assume "c \<in> tensorCells s (tensors e)"
  then have "c < length s" using v by (simp add: tensorCells_bound)
  with p show "elem s' c = elem s c" by (rule prefix_elem)
qed

lemma validTensors_prefix:
  assumes "validTensors s t" and "prefix s s'"
  shows "validTensors s' t" "tensorCells s' t = tensorCells s t"
  using assms by (simp_all add: validTensors_def tensorCells_def prefix_isMatrix
      prefix_isNumbers prefix_matrixCells)

subsection \<open>trainStep on the store refines trainStep on lists\<close>

lemma numbersAt_update_same:
  "a < length s \<Longrightarrow> numbersAt (s[a := Numbers xs]) a = xs"
  by (simp add: numbersAt_def elem_def)

lemma numbersAt_update_other:
  "a \<noteq> b \<Longrightarrow> numbersAt (s[a := ob]) b = numbersAt s b"
  by (simp add: numbersAt_def elem_def)

lemma updateVectorAt_loop:
  assumes b: "isNumbers s bAt" and ne: "gAt \<noteq> bAt"
  shows "fold (updateEntryAt rate bAt gAt) [0..<k] s
         = s[bAt := Numbers (fold (updateEntry rate (numbersAt s gAt)) [0..<k] (numbersAt s bAt))]"
proof (induction k)
  case 0
  have "s ! bAt = Numbers (numbersAt s bAt)"
    using b by (auto simp: isNumbers_def numbersAt_def elem_def split: if_splits obj.splits)
  then have "s[bAt := Numbers (numbersAt s bAt)] = s" by (metis list_update_id)
  then show ?case by simp
next
  case (Suc k)
  let ?bk = "fold (updateEntry rate (numbersAt s gAt)) [0..<k] (numbersAt s bAt)"
  let ?sk = "s[bAt := Numbers ?bk]"
  have lt: "bAt < length s" using b by (rule isNumbers_bound)
  have rb: "numbersAt ?sk bAt = ?bk" using lt by (rule numbersAt_update_same)
  have rg: "numbersAt ?sk gAt = numbersAt s gAt" using ne by (simp add: numbersAt_update_other)
  have "updateEntryAt rate bAt gAt k ?sk
        = s[bAt := Numbers (updateEntry rate (numbersAt s gAt) k ?bk)]"
    by (simp add: updateEntryAt_def updateEntry_def rb rg writeCell_def
        split: option.splits)
  then show ?case using Suc by simp
qed

lemma updateVectorAt_refines:
  assumes "isNumbers s bAt" and "gAt \<noteq> bAt"
  shows "updateVectorAt rate bAt gAt s
         = s[bAt := Numbers (updateVector rate (numbersAt s bAt) (numbersAt s gAt))]"
  unfolding updateVectorAt_def updateVector_def by (rule updateVectorAt_loop[OF assms])

lemma updatedInPlace_refl: "\<forall>r\<in>set rs. isNumbers s r \<Longrightarrow> updatedInPlace rs s s"
  by (simp add: updatedInPlace_def)

lemma updatedInPlace_elem:
  "updatedInPlace rs s0 s \<Longrightarrow> a \<notin> set rs \<Longrightarrow> elem s a = elem s0 a"
  by (simp add: updatedInPlace_def elem_def)

lemma isMatrix_not_row:
  assumes "isMatrix s a"
  shows "a \<notin> set (rowsAt s a)"
proof
  assume "a \<in> set (rowsAt s a)"
  then have "isNumbers s a" using assms by (rule isMatrix_rows[rotated])
  with assms show False
    by (auto simp: isMatrix_def isNumbers_def split: option.splits obj.splits)
qed

lemma updatedInPlace_rowsAt:
  assumes u: "updatedInPlace (rowsAt s0 wAt) s0 s" and m: "isMatrix s0 wAt"
  shows "rowsAt s wAt = rowsAt s0 wAt"
  by (rule rowsAt_cong, rule updatedInPlace_elem[OF u], rule isMatrix_not_row[OF m])

lemma updatedInPlace_other_matrix:
  assumes u: "updatedInPlace rs s0 s" and disj: "matrixCells s0 gAt \<inter> set rs = {}"
  shows "matrixAt s gAt = matrixAt s0 gAt"
proof (rule matrixAt_cong, rule ballI)
  fix c assume "c \<in> matrixCells s0 gAt"
  then have "c \<notin> set rs" using disj by blast
  with u show "elem s c = elem s0 c" by (rule updatedInPlace_elem)
qed

lemma map_nth_update_distinct:
  assumes "distinct rs" and "i < length rs"
  shows "map (\<lambda>r. if r = rs ! i then x else f r) rs = (map f rs)[i := x]"
  using assms by (intro nth_equalityI) (auto simp: nth_list_update nth_eq_iff_index_eq)

lemma isNumbers_update_same: "a < length s \<Longrightarrow> isNumbers (s[a := Numbers xs]) a"
  by (simp add: isNumbers_def elem_def)

lemma isNumbers_update_other: "a \<noteq> b \<Longrightarrow> isNumbers (s[a := ob]) b = isNumbers s b"
  by (simp add: isNumbers_def elem_def)

lemma updateCellAt_step:
  assumes m: "isMatrix s0 wAt" and d: "distinct (rowsAt s0 wAt)"
    and disj: "matrixCells s0 gAt \<inter> set (rowsAt s0 wAt) = {}"
    and u: "updatedInPlace (rowsAt s0 wAt) s0 s"
  shows "updatedInPlace (rowsAt s0 wAt) s0 (updateCellAt rate wAt gAt i j s) \<and>
         matrixAt (updateCellAt rate wAt gAt i j s) wAt
         = updateCell rate (matrixAt s0 gAt) i j (matrixAt s wAt)"
proof -
  let ?rs = "rowsAt s0 wAt"
  have rows: "rowsAt s wAt = ?rs" using u m by (rule updatedInPlace_rowsAt)
  have g: "matrixAt s gAt = matrixAt s0 gAt" using u disj by (rule updatedInPlace_other_matrix)
  have w: "matrixAt s wAt = map (numbersAt s) ?rs" by (simp add: matrixAt_def rows)
  show ?thesis
  proof (cases "elem2 (matrixAt s wAt) i j")
    case None
    then show ?thesis using u by (simp add: updateCellAt_def updateCell_def)
  next
    case (Some c)
    note c = Some
    show ?thesis
    proof (cases "elem2 (matrixAt s0 gAt) i j")
      case None
      then show ?thesis using u c by (simp add: updateCellAt_def updateCell_def g)
    next
      case (Some gv)
      have i: "i < length ?rs"
        using c by (auto simp: elem2_def elem_def w split: if_splits)
      let ?r = "?rs ! i"
      let ?row = "(numbersAt s ?r)[j := c - rate * gv]"
      let ?s' = "s[?r := Numbers ?row]"
      have r_in: "?r \<in> set ?rs" using i by simp
      have "isNumbers s ?r" using u r_in by (simp add: updatedInPlace_def)
      then have r_lt: "?r < length s" by (rule isNumbers_bound)
      have step: "updateCellAt rate wAt gAt i j s = ?s'"
        using c Some by (simp add: updateCellAt_def g writeCell_def rows)
      have inv: "updatedInPlace ?rs s0 ?s'"
        unfolding updatedInPlace_def
      proof (intro conjI allI impI ballI)
        show "length ?s' = length s0" using u by (simp add: updatedInPlace_def)
      next
        fix a assume a: "a < length s0" "a \<notin> set ?rs"
        then have "?r \<noteq> a" using r_in by blast
        then have "?s' ! a = s ! a" by (rule nth_list_update_neq)
        then show "?s' ! a = s0 ! a" using u a by (simp add: updatedInPlace_def)
      next
        fix r assume r: "r \<in> set ?rs"
        have old: "isNumbers s r" using u r by (simp add: updatedInPlace_def)
        show "isNumbers ?s' r"
        proof (cases "r = ?r")
          case True
          then show ?thesis using r_lt by (simp add: isNumbers_update_same)
        next
          case False
          then show ?thesis using old by (simp add: isNumbers_update_other)
        qed
      qed
      have "matrixAt ?s' wAt = map (numbersAt ?s') ?rs"
        using updatedInPlace_rowsAt[OF inv m] by (simp add: matrixAt_def)
      also have "\<dots> = map (\<lambda>r. if r = ?r then ?row else numbersAt s r) ?rs"
        using r_lt by (intro map_cong refl) (simp add: numbersAt_update_same numbersAt_update_other)
      also have "\<dots> = (map (numbersAt s) ?rs)[i := ?row]"
        using d i by (rule map_nth_update_distinct)
      also have "\<dots> = updateCell rate (matrixAt s0 gAt) i j (matrixAt s wAt)"
        using c Some i by (simp add: updateCell_def w)
      finally show ?thesis using inv step by simp
    qed
  qed
qed

lemma updateCellAt_loop:
  assumes m: "isMatrix s0 wAt" and d: "distinct (rowsAt s0 wAt)"
    and disj: "matrixCells s0 gAt \<inter> set (rowsAt s0 wAt) = {}"
  shows "updatedInPlace (rowsAt s0 wAt) s0 s \<Longrightarrow>
     updatedInPlace (rowsAt s0 wAt) s0 (fold (updateCellAt rate wAt gAt i) js s) \<and>
     matrixAt (fold (updateCellAt rate wAt gAt i) js s) wAt
     = fold (updateCell rate (matrixAt s0 gAt) i) js (matrixAt s wAt)"
proof (induction js arbitrary: s)
  case Nil
  then show ?case by simp
next
  case (Cons j js)
  note st = updateCellAt_step[OF m d disj Cons.prems, of rate i j]
  from Cons.IH[OF st[THEN conjunct1]] st[THEN conjunct2]
  show ?case by simp
qed

lemma updateRowsAt_loop:
  assumes m: "isMatrix s0 wAt" and d: "distinct (rowsAt s0 wAt)"
    and disj: "matrixCells s0 gAt \<inter> set (rowsAt s0 wAt) = {}"
  shows "updatedInPlace (rowsAt s0 wAt) s0 s \<Longrightarrow>
     updatedInPlace (rowsAt s0 wAt) s0
       (fold (\<lambda>i s. fold (updateCellAt rate wAt gAt i) [0..<length (matrixAt s wAt ! i)] s) is s) \<and>
     matrixAt (fold (\<lambda>i s. fold (updateCellAt rate wAt gAt i) [0..<length (matrixAt s wAt ! i)] s) is s) wAt
     = fold (\<lambda>i w. fold (updateCell rate (matrixAt s0 gAt) i) [0..<length (w ! i)] w) is
         (matrixAt s wAt)"
proof (induction "is" arbitrary: s)
  case Nil
  then show ?case by simp
next
  case (Cons i "is")
  note st = updateCellAt_loop[OF m d disj Cons.prems, of rate i "[0..<length (matrixAt s wAt ! i)]"]
  from Cons.IH[OF st[THEN conjunct1]] st[THEN conjunct2]
  show ?case by simp
qed

lemma updateMatrixAt_refines:
  assumes m: "isMatrix s wAt" and d: "distinct (rowsAt s wAt)"
    and disj: "matrixCells s gAt \<inter> set (rowsAt s wAt) = {}"
  shows "updatedInPlace (rowsAt s wAt) s (updateMatrixAt rate wAt gAt s)"
    "matrixAt (updateMatrixAt rate wAt gAt s) wAt
     = updateMatrix rate (matrixAt s wAt) (matrixAt s gAt)"
proof -
  have init: "updatedInPlace (rowsAt s wAt) s s"
    using m by (intro updatedInPlace_refl ballI) (rule isMatrix_rows)
  note l = updateRowsAt_loop[OF m d disj init, of rate "[0..<length (matrixAt s wAt)]"]
  show "updatedInPlace (rowsAt s wAt) s (updateMatrixAt rate wAt gAt s)"
    using l by (simp add: updateMatrixAt_def)
  show "matrixAt (updateMatrixAt rate wAt gAt s) wAt
     = updateMatrix rate (matrixAt s wAt) (matrixAt s gAt)"
    using l by (simp add: updateMatrixAt_def updateMatrix_def)
qed

lemma alloc_numbers_props:
  assumes "alloc (Numbers xs) s = (a, s')"
  shows "prefix s s'" "a = length s" "length s' = Suc (length s)" "isNumbers s' a"
    "numbersAt s' a = xs"
  using assms by (auto simp: alloc_def isNumbers_def numbersAt_def elem_def prefix_def)

lemma forwardPassAt_props:
  assumes v: "validTensors s (tensors e)"
    and f: "forwardPassAt e inputs s = ((hiddenPre, hiddenPost, outputPre, outputPost), s')"
  shows "prefix s s'"
    "hiddenPre = length s" "hiddenPost = length s + 1" "outputPre = length s + 2"
    "outputPost = length s + 3" "length s' = length s + 4"
    "isNumbers s' hiddenPre" "isNumbers s' hiddenPost" "isNumbers s' outputPre"
    "isNumbers s' outputPost"
    "numbersAt s' hiddenPre =
       vectorAdd (matrixMultiply (matrixAt s (weights1At (tensors e))) (numbersAt s inputs))
         (numbersAt s (biases1At (tensors e)))"
    "numbersAt s' hiddenPost = map sigmoid (numbersAt s' hiddenPre)"
    "numbersAt s' outputPre =
       vectorAdd (matrixMultiply (matrixAt s (weights2At (tensors e))) (numbersAt s' hiddenPost))
         (numbersAt s (biases2At (tensors e)))"
    "numbersAt s' outputPost =
       (if taskTypeOf e = classification then map sigmoid (numbersAt s' outputPre)
        else numbersAt s' outputPre)"
proof -
  have v2: "isMatrix s (weights2At (tensors e))" and v4: "isNumbers s (biases2At (tensors e))"
    using v by (simp_all add: validTensors_def)
  obtain hp s1 where a1: "alloc (Numbers (vectorAdd
                    (matrixMultiply (matrixAt s (weights1At (tensors e))) (numbersAt s inputs))
                    (numbersAt s (biases1At (tensors e))))) s = (hp, s1)"
    by (cases "alloc (Numbers (vectorAdd
                    (matrixMultiply (matrixAt s (weights1At (tensors e))) (numbersAt s inputs))
                    (numbersAt s (biases1At (tensors e))))) s")
  obtain hpo s2 where a2: "alloc (Numbers (map sigmoid (numbersAt s1 hp))) s1 = (hpo, s2)"
    by (cases "alloc (Numbers (map sigmoid (numbersAt s1 hp))) s1")
  obtain opr s3 where a3: "alloc (Numbers (vectorAdd
                    (matrixMultiply (matrixAt s2 (weights2At (tensors e))) (numbersAt s2 hpo))
                    (numbersAt s2 (biases2At (tensors e))))) s2 = (opr, s3)"
    by (cases "alloc (Numbers (vectorAdd
                    (matrixMultiply (matrixAt s2 (weights2At (tensors e))) (numbersAt s2 hpo))
                    (numbersAt s2 (biases2At (tensors e))))) s2")
  obtain opo s4 where a4: "alloc (Numbers (if taskTypeOf e = classification
                           then map sigmoid (numbersAt s3 opr)
                           else numbersAt s3 opr)) s3 = (opo, s4)"
    by (cases "alloc (Numbers (if taskTypeOf e = classification
                           then map sigmoid (numbersAt s3 opr)
                           else numbersAt s3 opr)) s3")
  have res: "hiddenPre = hp" "hiddenPost = hpo" "outputPre = opr" "outputPost = opo" "s' = s4"
    using f by (simp_all add: forwardPassAt_def a1 a2 a3 a4)
  note p1 = alloc_numbers_props[OF a1]
  note p2 = alloc_numbers_props[OF a2]
  note p3 = alloc_numbers_props[OF a3]
  note p4 = alloc_numbers_props[OF a4]
  have s02: "prefix s s2" using p1(1) p2(1) by (rule prefix_order.trans)
  have s03: "prefix s s3" using s02 p3(1) by (rule prefix_order.trans)
  have s24: "prefix s2 s4" using p3(1) p4(1) by (rule prefix_order.trans)
  have s14: "prefix s1 s4" using p2(1) s24 by (rule prefix_order.trans)
  have s12: "prefix s1 s2" by (rule p2(1))
  have s13: "prefix s1 s3" using p2(1) p3(1) by (rule prefix_order.trans)
  have s23: "prefix s2 s3" by (rule p3(1))
  show "prefix s s'" unfolding res using s03 p4(1) by (rule prefix_order.trans)
  show "hiddenPre = length s" "hiddenPost = length s + 1" "outputPre = length s + 2"
    "outputPost = length s + 3" "length s' = length s + 4"
    unfolding res using p1(2,3) p2(2,3) p3(2,3) p4(2,3) by simp_all
  show n1: "isNumbers s' hiddenPre" unfolding res using s14 p1(4) by (rule prefix_isNumbers)
  show n2: "isNumbers s' hiddenPost" unfolding res using s24 p2(4) by (rule prefix_isNumbers)
  show n3: "isNumbers s' outputPre" unfolding res using p4(1) p3(4) by (rule prefix_isNumbers)
  show n4: "isNumbers s' outputPost" unfolding res by (rule p4(4))
  have r1: "numbersAt s4 hp = numbersAt s1 hp" using s14 p1(4) by (rule prefix_numbersAt)
  have r2: "numbersAt s4 hpo = numbersAt s2 hpo" using s24 p2(4) by (rule prefix_numbersAt)
  have r3: "numbersAt s4 opr = numbersAt s3 opr" using p4(1) p3(4) by (rule prefix_numbersAt)
  show "numbersAt s' hiddenPre =
       vectorAdd (matrixMultiply (matrixAt s (weights1At (tensors e))) (numbersAt s inputs))
         (numbersAt s (biases1At (tensors e)))"
    unfolding res r1 by (rule p1(5))
  show "numbersAt s' hiddenPost = map sigmoid (numbersAt s' hiddenPre)"
    unfolding res r1 r2 by (rule p2(5))
  have w2: "matrixAt s2 (weights2At (tensors e)) = matrixAt s (weights2At (tensors e))"
    using s02 v2 by (rule prefix_matrixAt)
  have b2: "numbersAt s2 (biases2At (tensors e)) = numbersAt s (biases2At (tensors e))"
    using s02 v4 by (rule prefix_numbersAt)
  show "numbersAt s' outputPre =
       vectorAdd (matrixMultiply (matrixAt s (weights2At (tensors e))) (numbersAt s' hiddenPost))
         (numbersAt s (biases2At (tensors e)))"
    unfolding res r2 r3 using p3(5) by (simp add: w2 b2)
  show "numbersAt s' outputPost =
       (if taskTypeOf e = classification then map sigmoid (numbersAt s' outputPre)
        else numbersAt s' outputPre)"
    unfolding res r3 using p4(5) by simp
qed

lemma allocEach_props:
  "allocEach rows s = (rs, s') \<Longrightarrow>
     prefix s s' \<and> length s' = length s + length rows \<and>
     rs = [length s..<length s + length rows] \<and>
     (\<forall>r\<in>set rs. isNumbers s' r) \<and> map (numbersAt s') rs = rows"
proof (induction rows arbitrary: s rs s')
  case Nil
  then show ?case by simp
next
  case (Cons row rows)
  obtain r1 s1 where a: "alloc (Numbers row) s = (r1, s1)" by (cases "alloc (Numbers row) s")
  obtain rs2 s2 where ae: "allocEach rows s1 = (rs2, s2)" by (cases "allocEach rows s1")
  have res: "rs = r1 # rs2" "s' = s2" using Cons.prems a ae by simp_all
  note p = alloc_numbers_props[OF a]
  from Cons.IH[OF ae]
  have ih1: "prefix s1 s2" and ih2: "length s2 = length s1 + length rows"
    and ih3: "rs2 = [length s1..<length s1 + length rows]"
    and ih4: "\<forall>x\<in>set rs2. isNumbers s2 x"
    and ih5: "map (numbersAt s2) rs2 = rows"
    by blast+
  have pre: "prefix s s2" using p(1) ih1 by (rule prefix_order.trans)
  have r1a: "isNumbers s2 r1" using ih1 p(4) by (rule prefix_isNumbers)
  have r1b: "numbersAt s2 r1 = row" using prefix_numbersAt[OF ih1 p(4)] p(5) by simp
  have upt: "[length s..<length s + length (row # rows)]
             = length s # [length s1..<length s1 + length rows]"
    using p(3) by (simp add: upt_rec)
  have len: "length s2 = length s + length (row # rows)" using ih2 p(3) by simp
  have c3: "r1 # rs2 = [length s..<length s + length (row # rows)]"
    unfolding upt using p(2) ih3 by simp
  have c4: "\<forall>x\<in>set (r1 # rs2). isNumbers s2 x" using r1a ih4 by simp
  have c5: "map (numbersAt s2) (r1 # rs2) = row # rows" using r1b ih5 by simp
  show ?case unfolding res using pre len c3 c4 c5 by blast
qed

lemma allocMatrix_props:
  assumes "allocMatrix rows s = (a, s')"
  shows "prefix s s'" "isMatrix s' a" "matrixAt s' a = rows"
    "matrixCells s' a \<subseteq> {length s..<length s'}" "length s \<le> a" "a < length s'"
proof -
  obtain rs1 s1 where ae: "allocEach rows s = (rs1, s1)" by (cases "allocEach rows s")
  have res: "a = length s1" "s' = s1 @ [Rows rs1]"
    using assms ae by (auto simp: allocMatrix_def alloc_def)
  from allocEach_props[OF ae]
  have p1: "prefix s s1" and p2: "length s1 = length s + length rows"
    and p3: "rs1 = [length s..<length s + length rows]"
    and p4: "\<forall>x\<in>set rs1. isNumbers s1 x"
    and p5: "map (numbersAt s1) rs1 = rows"
    by blast+
  have pre1: "prefix s1 s'" by (simp add: res)
  show "prefix s s'" using p1 pre1 by (rule prefix_order.trans)
  have at: "elem s' a = Some (Rows rs1)" by (simp add: res elem_def)
  have rows': "rowsAt s' a = rs1" by (simp add: rowsAt_def at)
  have n4: "\<forall>x\<in>set rs1. isNumbers s' x" using p4 prefix_isNumbers[OF pre1] by blast
  have n5: "map (numbersAt s') rs1 = map (numbersAt s1) rs1"
    using p4 prefix_numbersAt[OF pre1] by simp
  show "isMatrix s' a" using n4 by (simp add: isMatrix_def at list_all_iff)
  show "matrixAt s' a = rows" by (simp add: matrixAt_def rows' n5 p5)
  have "length s' = Suc (length s1)" by (simp add: res)
  moreover have "set rs1 = {length s..<length s1}" by (simp add: p3 p2)
  moreover have "length s \<le> length s1" by (simp add: p2)
  ultimately show "matrixCells s' a \<subseteq> {length s..<length s'}"
    unfolding matrixCells_def rows' by (auto simp: res(1))
  show "length s \<le> a" "a < length s'" by (simp_all add: res p2)
qed

lemma gradientsAt_NaN:
  "None \<in> set (outputGradientsOf (numbersAt s outputPost) (numbersAt s target)) \<Longrightarrow>
   gradientsAt e inputs target hiddenPre hiddenPost outputPost s = Inl NotANumber"
  by (simp add: gradientsAt_def)

lemma gradientsAt_props:
  assumes v: "validTensors s (tensors e)"
    and valid: "isNumbers s inputs" "isNumbers s hiddenPre" "isNumbers s hiddenPost"
    and ok: "None \<notin> set (outputGradientsOf (numbersAt s outputPost) (numbersAt s target))"
  shows "\<exists>og hg g2 g1 b2g b1g s'.
     gradientsAt e inputs target hiddenPre hiddenPost outputPost s
       = Inr ((lossOf (taskTypeOf e) (numbersAt s outputPost) (numbersAt s target),
               og, hg, g2, g1, b2g, b1g), s') \<and>
     prefix s s' \<and>
     length s \<le> og \<and> og < hg \<and> hg < b2g \<and> b2g < b1g \<and> b1g < length s' \<and>
     og \<notin> matrixCells s' g2 \<and> hg \<notin> matrixCells s' g2 \<and>
     og \<notin> matrixCells s' g1 \<and> hg \<notin> matrixCells s' g1 \<and>
     b2g \<notin> matrixCells s' g2 \<and> b1g \<notin> matrixCells s' g2 \<and>
     b2g \<notin> matrixCells s' g1 \<and> b1g \<notin> matrixCells s' g1 \<and>
     matrixCells s' g2 \<inter> matrixCells s' g1 = {} \<and>
     matrixCells s' g2 \<subseteq> {length s..<length s'} \<and>
     matrixCells s' g1 \<subseteq> {length s..<length s'} \<and>
     isNumbers s' og \<and> isNumbers s' hg \<and> isMatrix s' g2 \<and> isMatrix s' g1 \<and>
     isNumbers s' b2g \<and> isNumbers s' b1g \<and>
     numbersAt s' og
       = map the (outputGradientsOf (numbersAt s outputPost) (numbersAt s target)) \<and>
     numbersAt s' hg
       = hiddenGradientsOf (hiddenErrorValuesOf (engineOf s e) (numbersAt s' og))
           (numbersAt s hiddenPre) \<and>
     matrixAt s' g2
       = map (\<lambda>hidden_val. map (\<lambda>grad. hidden_val * grad) (numbersAt s' og))
           (numbersAt s hiddenPost) \<and>
     matrixAt s' g1
       = map (\<lambda>input_val. map (\<lambda>grad. input_val * grad) (numbersAt s' hg))
           (numbersAt s inputs) \<and>
     numbersAt s' b2g = numbersAt s' og \<and>
     numbersAt s' b1g = numbersAt s' hg"
proof -
  let ?ogv = "map the (outputGradientsOf (numbersAt s outputPost) (numbersAt s target))"
  obtain og s1 where a1: "alloc (Numbers ?ogv) s = (og, s1)"
    by (cases "alloc (Numbers ?ogv) s")
  note p1 = alloc_numbers_props[OF a1]
  let ?hgv = "hiddenGradientsOf (hiddenErrorValuesOf (engineOf s1 e) (numbersAt s1 og))
                (numbersAt s1 hiddenPre)"
  obtain hg s2 where a2: "alloc (Numbers ?hgv) s1 = (hg, s2)"
    by (cases "alloc (Numbers ?hgv) s1")
  note p2 = alloc_numbers_props[OF a2]
  let ?g2v = "map (\<lambda>hidden_val. map (\<lambda>grad. hidden_val * grad) (numbersAt s2 og))
                (numbersAt s2 hiddenPost)"
  obtain g2 s3 where a3: "allocMatrix ?g2v s2 = (g2, s3)"
    by (cases "allocMatrix ?g2v s2")
  note p3 = allocMatrix_props[OF a3]
  let ?g1v = "map (\<lambda>input_val. map (\<lambda>grad. input_val * grad) (numbersAt s3 hg))
                (numbersAt s3 inputs)"
  obtain g1 s4 where a4: "allocMatrix ?g1v s3 = (g1, s4)"
    by (cases "allocMatrix ?g1v s3")
  note p4 = allocMatrix_props[OF a4]
  obtain b2g s5 where a5: "spread og s4 = (b2g, s5)" by (cases "spread og s4")
  note p5 = spread_props[OF a5]
  obtain b1g s6 where a6: "spread hg s5 = (b1g, s6)" by (cases "spread hg s5")
  note p6 = spread_props[OF a6]
  have run: "gradientsAt e inputs target hiddenPre hiddenPost outputPost s
       = Inr ((lossOf (taskTypeOf e) (numbersAt s outputPost) (numbersAt s target),
               og, hg, g2, g1, b2g, b1g), s6)"
    using ok by (simp add: gradientsAt_def Let_def a1 a2 a3 a4 a5 a6)
  have s01: "prefix s s1" by (rule p1(1))
  have s12: "prefix s1 s2" by (rule p2(1))
  have s23: "prefix s2 s3" by (rule p3(1))
  have s34: "prefix s3 s4" by (rule p4(1))
  have s45: "prefix s4 s5" by (rule p5(1))
  have s56: "prefix s5 s6" by (rule p6(1))
  have s46: "prefix s4 s6" using s45 s56 by (rule prefix_order.trans)
  have s36: "prefix s3 s6" using s34 s46 by (rule prefix_order.trans)
  have s26: "prefix s2 s6" using s23 s36 by (rule prefix_order.trans)
  have s16: "prefix s1 s6" using s12 s26 by (rule prefix_order.trans)
  have s06: "prefix s s6" using s01 s16 by (rule prefix_order.trans)
  have s02: "prefix s s2" using s01 s12 by (rule prefix_order.trans)
  have s03: "prefix s s3" using s02 s23 by (rule prefix_order.trans)
  have s13: "prefix s1 s3" using s12 s23 by (rule prefix_order.trans)
  have s24: "prefix s2 s4" using s23 s34 by (rule prefix_order.trans)
  have len: "length s1 = Suc (length s)" "length s2 = Suc (length s1)"
    "length s2 \<le> length s3" "length s3 \<le> length s4" "length s5 = Suc (length s4)"
    "length s6 = Suc (length s5)"
    using p1(3) p2(3) p5(2) p6(2) prefix_length[OF s23] prefix_length[OF s34] by simp_all
  have addr: "og = length s" "hg = length s1" "b2g = length s4" "b1g = length s5"
    using p1(2) p2(2) p5(3) p6(3) by simp_all
  have og6: "isNumbers s6 og" using s16 p1(4) by (rule prefix_isNumbers)
  have hg6: "isNumbers s6 hg" using s26 p2(4) by (rule prefix_isNumbers)
  have g26: "isMatrix s6 g2" using s36 p3(2) by (rule prefix_isMatrix)
  have g16: "isMatrix s6 g1" using s46 p4(2) by (rule prefix_isMatrix)
  have b2g6: "isNumbers s6 b2g" using s56 p5(4) by (rule prefix_isNumbers)
  have cells2: "matrixCells s6 g2 = matrixCells s3 g2" using s36 p3(2) by (rule prefix_matrixCells)
  have cells1: "matrixCells s6 g1 = matrixCells s4 g1" using s46 p4(2) by (rule prefix_matrixCells)
  have c2: "matrixCells s6 g2 \<subseteq> {length s2..<length s3}" unfolding cells2 by (rule p3(4))
  have c1: "matrixCells s6 g1 \<subseteq> {length s3..<length s4}" unfolding cells1 by (rule p4(4))
  have ogv: "numbersAt s6 og = ?ogv"
    using prefix_numbersAt[OF s16 p1(4)] p1(5) by simp
  have og_s: "numbersAt s1 og = numbersAt s6 og" "numbersAt s2 og = numbersAt s6 og"
    using prefix_numbersAt[OF s16 p1(4)] prefix_numbersAt[OF s12 p1(4)] by simp_all
  have hg_s: "numbersAt s3 hg = numbersAt s6 hg"
    using prefix_numbersAt[OF s26 p2(4)] prefix_numbersAt[OF s23 p2(4)] by simp
  have eng: "engineOf s1 e = engineOf s e" using v s01 by (rule engineOf_prefix)
  have hp1: "numbersAt s1 hiddenPre = numbersAt s hiddenPre"
    using s01 valid(2) by (rule prefix_numbersAt)
  have hpo2: "numbersAt s2 hiddenPost = numbersAt s hiddenPost"
    using s02 valid(3) by (rule prefix_numbersAt)
  have in3: "numbersAt s3 inputs = numbersAt s inputs"
    using s03 valid(1) by (rule prefix_numbersAt)
  have hgv: "numbersAt s6 hg
       = hiddenGradientsOf (hiddenErrorValuesOf (engineOf s e) (numbersAt s6 og))
           (numbersAt s hiddenPre)"
    using prefix_numbersAt[OF s26 p2(4)] p2(5) by (simp add: eng hp1 og_s)
  have g2v: "matrixAt s6 g2
       = map (\<lambda>hidden_val. map (\<lambda>grad. hidden_val * grad) (numbersAt s6 og))
           (numbersAt s hiddenPost)"
    using prefix_matrixAt[OF s36 p3(2)] p3(3) by (simp add: og_s hpo2)
  have g1v: "matrixAt s6 g1
       = map (\<lambda>input_val. map (\<lambda>grad. input_val * grad) (numbersAt s6 hg))
           (numbersAt s inputs)"
    using prefix_matrixAt[OF s46 p4(2)] p4(3) by (simp add: hg_s in3)
  have og4: "numbersAt s4 og = numbersAt s6 og"
    using prefix_numbersAt[OF s16 p1(4)]
      prefix_numbersAt[OF prefix_order.trans[OF s12 s24] p1(4)] by simp
  have hg5: "numbersAt s5 hg = numbersAt s6 hg"
    using prefix_numbersAt[OF s26 p2(4)]
      prefix_numbersAt[OF prefix_order.trans[OF s24 s45] p2(4)] by simp
  have b2v: "numbersAt s6 b2g = numbersAt s6 og"
    using prefix_numbersAt[OF s56 p5(4)] p5(5) og4 by simp
  have b1v: "numbersAt s6 b1g = numbersAt s6 hg"
    using p6(5) hg5 by simp
  have order: "length s \<le> og" "og < hg" "hg < b2g" "b2g < b1g" "b1g < length s6"
    using addr len by simp_all
  have notin: "og \<notin> matrixCells s6 g2" "hg \<notin> matrixCells s6 g2"
    "og \<notin> matrixCells s6 g1" "hg \<notin> matrixCells s6 g1"
    "b2g \<notin> matrixCells s6 g2" "b1g \<notin> matrixCells s6 g2"
    "b2g \<notin> matrixCells s6 g1" "b1g \<notin> matrixCells s6 g1"
    using c2 c1 addr len by auto
  have disj: "matrixCells s6 g2 \<inter> matrixCells s6 g1 = {}"
  proof -
    have "{length s2..<length s3} \<inter> {length s3..<length s4} = {}" by auto
    then show ?thesis using c2 c1 by blast
  qed
  have sub: "matrixCells s6 g2 \<subseteq> {length s..<length s6}"
    "matrixCells s6 g1 \<subseteq> {length s..<length s6}"
    using c2 c1 len by auto
  show ?thesis
    using run s06 order notin disj sub og6 hg6 g26 g16 b2g6 p6(4) ogv hgv g2v g1v b2v b1v
    by blast
qed

lemma updatedInPlace_length: "updatedInPlace rs s0 s \<Longrightarrow> length s = length s0"
  by (simp add: updatedInPlace_def)

lemma updatedInPlace_numbers:
  assumes "updatedInPlace rs s0 s" and "a \<notin> set rs"
  shows "numbersAt s a = numbersAt s0 a" "isNumbers s a = isNumbers s0 a"
  using updatedInPlace_elem[OF assms] by (simp_all add: numbersAt_def isNumbers_def)

lemma updatedInPlace_isNumbers:
  assumes u: "updatedInPlace rs s0 s" and n: "isNumbers s0 a"
  shows "isNumbers s a"
proof (cases "a \<in> set rs")
  case True
  then show ?thesis using u by (simp add: updatedInPlace_def)
next
  case False
  then show ?thesis using updatedInPlace_numbers(2)[OF u] n by simp
qed

lemma isMatrix_not_isNumbers: "isMatrix s a \<Longrightarrow> \<not> isNumbers s a"
  by (auto simp: isMatrix_def isNumbers_def split: option.splits obj.splits)

lemma updatedInPlace_matrix:
  assumes u: "updatedInPlace rs s0 s" and m: "isMatrix s0 a"
    and rs: "\<forall>r\<in>set rs. isNumbers s0 r"
  shows "isMatrix s a" "rowsAt s a = rowsAt s0 a" "matrixCells s a = matrixCells s0 a"
proof -
  have "a \<notin> set rs" using m rs isMatrix_not_isNumbers by blast
  then have el: "elem s a = elem s0 a" using u by (simp add: updatedInPlace_elem)
  then show rows: "rowsAt s a = rowsAt s0 a" by (rule rowsAt_cong)
  then show "matrixCells s a = matrixCells s0 a" by (simp add: matrixCells_def)
  have "isNumbers s r" if "r \<in> set (rowsAt s0 a)" for r
    using u isMatrix_rows[OF m that] by (rule updatedInPlace_isNumbers)
  then show "isMatrix s a"
    using m el by (auto simp: isMatrix_def rowsAt_def list_all_iff split: option.splits obj.splits)
qed

lemma updatedInPlace_matrixAt:
  assumes u: "updatedInPlace rs s0 s" and disj: "set (rowsAt s0 a) \<inter> set rs = {}"
    and m: "isMatrix s0 a" and rs: "\<forall>r\<in>set rs. isNumbers s0 r"
  shows "matrixAt s a = matrixAt s0 a"
proof -
  have "a \<notin> set rs" using m rs isMatrix_not_isNumbers by blast
  then have "matrixCells s0 a \<inter> set rs = {}" using disj by (simp add: matrixCells_def)
  with u show ?thesis by (rule updatedInPlace_other_matrix)
qed

lemma updatedInPlace_trans:
  assumes a: "updatedInPlace rs s0 s1" and b: "updatedInPlace rs s1 s2"
  shows "updatedInPlace rs s0 s2"
  using assms by (auto simp: updatedInPlace_def)

lemma updatedInPlace_mono:
  assumes u: "updatedInPlace rs s0 s" and sub: "set rs \<subseteq> set rs'"
    and n: "\<forall>r\<in>set rs'. isNumbers s0 r"
  shows "updatedInPlace rs' s0 s"
  unfolding updatedInPlace_def
proof (intro conjI allI impI ballI)
  show "length s = length s0" using u by (rule updatedInPlace_length)
next
  fix a assume "a < length s0" "a \<notin> set rs'"
  then show "s ! a = s0 ! a" using u sub by (auto simp: updatedInPlace_def)
next
  fix r assume "r \<in> set rs'"
  then have "isNumbers s0 r" using n by blast
  with u show "isNumbers s r" by (rule updatedInPlace_isNumbers)
qed

lemma updatedInPlace_write:
  assumes "isNumbers s b"
  shows "updatedInPlace [b] s (s[b := Numbers xs])"
  using assms isNumbers_bound[OF assms]
  by (auto simp: updatedInPlace_def isNumbers_update_same nth_list_update)

lemma updatedInPlace_changedOnlyAt:
  "updatedInPlace rs s0 s \<Longrightarrow> changedOnlyAt (set rs) s0 s"
  by (simp add: updatedInPlace_def changedOnlyAt_def)

lemma numberCells_valid:
  assumes "validTensors s t"
  shows "\<forall>r\<in>set (numberCells s t). isNumbers s r"
  using assms isMatrix_rows
  by (auto simp: validTensors_def numberCells_def)

lemma updateParametersAt_props:
  assumes v: "validTensors s (tensors e)" and d: "distinct (numberCells s (tensors e))"
    and g2: "isMatrix s g2" "matrixCells s g2 \<inter> set (numberCells s (tensors e)) = {}"
    and g1: "isMatrix s g1" "matrixCells s g1 \<inter> set (numberCells s (tensors e)) = {}"
    and b2g: "isNumbers s b2g" "b2g \<notin> set (numberCells s (tensors e))"
    and b1g: "isNumbers s b1g" "b1g \<notin> set (numberCells s (tensors e))"
  shows "updatedInPlace (numberCells s (tensors e)) s (updateParametersAt e g2 g1 b2g b1g s)"
    "engineOf (updateParametersAt e g2 g1 b2g b1g s) e
     = (engineOf s e)
         \<lparr>weights2 := updateMatrix (learningRateOf e) (matrixAt s (weights2At (tensors e)))
                       (matrixAt s g2),
          weights1 := updateMatrix (learningRateOf e) (matrixAt s (weights1At (tensors e)))
                       (matrixAt s g1),
          biases2 := updateVector (learningRateOf e) (numbersAt s (biases2At (tensors e)))
                       (numbersAt s b2g),
          biases1 := updateVector (learningRateOf e) (numbersAt s (biases1At (tensors e)))
                       (numbersAt s b1g)\<rparr>"
proof -
  let ?t = "tensors e"
  let ?N = "numberCells s ?t"
  let ?w1 = "weights1At ?t" let ?w2 = "weights2At ?t"
  let ?b1 = "biases1At ?t" let ?b2 = "biases2At ?t"
  let ?lr = "learningRateOf e"
  have vm: "isMatrix s ?w1" "isMatrix s ?w2" and vn: "isNumbers s ?b1" "isNumbers s ?b2"
    using v by (simp_all add: validTensors_def)
  have N: "\<forall>r\<in>set ?N. isNumbers s r" using v by (rule numberCells_valid)
  have dr: "distinct (rowsAt s ?w1)" "distinct (rowsAt s ?w2)"
    "set (rowsAt s ?w1) \<inter> set (rowsAt s ?w2) = {}"
    "?b1 \<notin> set (rowsAt s ?w1)" "?b1 \<notin> set (rowsAt s ?w2)"
    "?b2 \<notin> set (rowsAt s ?w1)" "?b2 \<notin> set (rowsAt s ?w2)" "?b1 \<noteq> ?b2"
    using d by (auto simp: numberCells_def)
  have sub: "set (rowsAt s ?w1) \<subseteq> set ?N" "set (rowsAt s ?w2) \<subseteq> set ?N"
    "set [?b1] \<subseteq> set ?N" "set [?b2] \<subseteq> set ?N"
    by (auto simp: numberCells_def)
  have rows_num: "\<forall>r\<in>set (rowsAt s ?w1). isNumbers s r" "\<forall>r\<in>set (rowsAt s ?w2). isNumbers s r"
    using N sub by blast+
  \<comment> \<open>the update of \<open>weights2\<close>\<close>
  define s1 where "s1 = updateMatrixAt ?lr ?w2 g2 s"
  have g2d: "matrixCells s g2 \<inter> set (rowsAt s ?w2) = {}" using g2(2) sub by blast
  have u1: "updatedInPlace (rowsAt s ?w2) s s1"
    and w2_1: "matrixAt s1 ?w2 = updateMatrix ?lr (matrixAt s ?w2) (matrixAt s g2)"
    unfolding s1_def using updateMatrixAt_refines[OF vm(2) dr(2) g2d] by simp_all
  have len1: "length s1 = length s" using u1 by (rule updatedInPlace_length)
  have m1: "isMatrix s1 ?w1" "rowsAt s1 ?w1 = rowsAt s ?w1"
    using updatedInPlace_matrix[OF u1 vm(1) rows_num(2)] by simp_all
  have w1_1: "matrixAt s1 ?w1 = matrixAt s ?w1"
    using u1 dr(3) vm(1) rows_num(2) by (rule updatedInPlace_matrixAt)
  have g1_1: "isMatrix s1 g1" "matrixCells s1 g1 = matrixCells s g1"
    using updatedInPlace_matrix[OF u1 g1(1) rows_num(2)] by simp_all
  have g1v_1: "matrixAt s1 g1 = matrixAt s g1"
    using u1 _ g1(1) rows_num(2)
  proof (rule updatedInPlace_matrixAt)
    show "set (rowsAt s g1) \<inter> set (rowsAt s ?w2) = {}"
      using g1(2) sub by (auto simp: matrixCells_def)
  qed
  \<comment> \<open>the update of \<open>weights1\<close>\<close>
  define s2 where "s2 = updateMatrixAt ?lr ?w1 g1 s1"
  have g1d: "matrixCells s1 g1 \<inter> set (rowsAt s1 ?w1) = {}"
    unfolding g1_1 m1 using g1(2) sub by blast
  have d1: "distinct (rowsAt s1 ?w1)" unfolding m1 by (rule dr(1))
  have u2: "updatedInPlace (rowsAt s ?w1) s1 s2"
    and w1_2: "matrixAt s2 ?w1 = updateMatrix ?lr (matrixAt s ?w1) (matrixAt s g1)"
    using updateMatrixAt_refines[OF m1(1) d1 g1d, of ?lr] unfolding s2_def m1 w1_1 g1v_1
    by simp_all
  have rows_num1: "\<forall>r\<in>set (rowsAt s ?w1). isNumbers s1 r"
    using rows_num(1) updatedInPlace_isNumbers[OF u1] by blast
  have m2: "isMatrix s1 ?w2" "rowsAt s1 ?w2 = rowsAt s ?w2"
    using updatedInPlace_matrix[OF u1 vm(2) rows_num(2)] by simp_all
  have w2_2: "matrixAt s2 ?w2 = matrixAt s1 ?w2"
    using u2 _ m2(1) rows_num1
  proof (rule updatedInPlace_matrixAt)
    show "set (rowsAt s1 ?w2) \<inter> set (rowsAt s ?w1) = {}" unfolding m2 using dr(3) by blast
  qed
  have U1: "updatedInPlace ?N s s1" using u1 sub(2) N by (rule updatedInPlace_mono)
  have N1: "\<forall>r\<in>set ?N. isNumbers s1 r" using N updatedInPlace_isNumbers[OF U1] by blast
  have U2: "updatedInPlace ?N s1 s2" using u2 sub(1) N1 by (rule updatedInPlace_mono)
  have U02: "updatedInPlace ?N s s2" using U1 U2 by (rule updatedInPlace_trans)
  \<comment> \<open>the update of \<open>biases2\<close>\<close>
  define s3 where "s3 = updateVectorAt ?lr ?b2 b2g s2"
  have b2_2: "isNumbers s2 ?b2" using U02 vn(2) by (rule updatedInPlace_isNumbers)
  have b2g_ne: "b2g \<noteq> ?b2" using b2g(2) by (auto simp: numberCells_def)
  have b2v: "numbersAt s2 ?b2 = numbersAt s ?b2"
    using updatedInPlace_numbers(1)[OF u1 dr(7)] updatedInPlace_numbers(1)[OF u2 dr(6)]
    by simp
  have b2gv: "numbersAt s2 b2g = numbersAt s b2g"
    using updatedInPlace_numbers(1)[OF U02 b2g(2)] by simp
  have s3_eq: "s3 = s2[?b2 := Numbers (updateVector ?lr (numbersAt s ?b2) (numbersAt s b2g))]"
    unfolding s3_def using updateVectorAt_refines[OF b2_2 b2g_ne, of ?lr] by (simp add: b2v b2gv)
  have u3: "updatedInPlace [?b2] s2 s3" unfolding s3_eq using b2_2 by (rule updatedInPlace_write)
  have N2: "\<forall>r\<in>set ?N. isNumbers s2 r" using N updatedInPlace_isNumbers[OF U02] by blast
  have U3: "updatedInPlace ?N s2 s3" using u3 sub(4) N2 by (rule updatedInPlace_mono)
  have U03: "updatedInPlace ?N s s3" using U02 U3 by (rule updatedInPlace_trans)
  have b2_3: "numbersAt s3 ?b2 = updateVector ?lr (numbersAt s ?b2) (numbersAt s b2g)"
    unfolding s3_eq using isNumbers_bound[OF b2_2] by (rule numbersAt_update_same)
  \<comment> \<open>the update of \<open>biases1\<close>\<close>
  define s4 where "s4 = updateVectorAt ?lr ?b1 b1g s3"
  have b1_3: "isNumbers s3 ?b1" using U03 vn(1) by (rule updatedInPlace_isNumbers)
  have b1g_ne: "b1g \<noteq> ?b1" using b1g(2) by (auto simp: numberCells_def)
  have b1_not: "?b1 \<notin> set [?b2]" using dr(8) by simp
  have b1v: "numbersAt s3 ?b1 = numbersAt s ?b1"
    using updatedInPlace_numbers(1)[OF u1 dr(5)] updatedInPlace_numbers(1)[OF u2 dr(4)]
      updatedInPlace_numbers(1)[OF u3 b1_not]
    by simp
  have b1gv: "numbersAt s3 b1g = numbersAt s b1g"
    using updatedInPlace_numbers(1)[OF U03 b1g(2)] by simp
  have s4_eq: "s4 = s3[?b1 := Numbers (updateVector ?lr (numbersAt s ?b1) (numbersAt s b1g))]"
    unfolding s4_def using updateVectorAt_refines[OF b1_3 b1g_ne, of ?lr] by (simp add: b1v b1gv)
  have u4: "updatedInPlace [?b1] s3 s4" unfolding s4_eq using b1_3 by (rule updatedInPlace_write)
  have N3: "\<forall>r\<in>set ?N. isNumbers s3 r" using N updatedInPlace_isNumbers[OF U03] by blast
  have U4: "updatedInPlace ?N s3 s4" using u4 sub(3) N3 by (rule updatedInPlace_mono)
  have U04: "updatedInPlace ?N s s4" using U03 U4 by (rule updatedInPlace_trans)
  have b1_4: "numbersAt s4 ?b1 = updateVector ?lr (numbersAt s ?b1) (numbersAt s b1g)"
    unfolding s4_eq using isNumbers_bound[OF b1_3] by (rule numbersAt_update_same)
  have b2_not: "?b2 \<notin> set [?b1]" using dr(8) by simp
  have b2_4: "numbersAt s4 ?b2 = updateVector ?lr (numbersAt s ?b2) (numbersAt s b2g)"
    using updatedInPlace_numbers(1)[OF u4 b2_not] b2_3 by simp
  \<comment> \<open>the matrices are not touched by the two vector updates\<close>
  have u34: "updatedInPlace [?b2, ?b1] s2 s4"
  proof (rule updatedInPlace_trans)
    show "updatedInPlace [?b2, ?b1] s2 s3"
      using u3 _ _
    proof (rule updatedInPlace_mono)
      show "set [?b2] \<subseteq> set [?b2, ?b1]" by simp
      show "\<forall>r\<in>set [?b2, ?b1]. isNumbers s2 r" using N2 sub by auto
    qed
    show "updatedInPlace [?b2, ?b1] s3 s4"
      using u4 _ _
    proof (rule updatedInPlace_mono)
      show "set [?b1] \<subseteq> set [?b2, ?b1]" by simp
      show "\<forall>r\<in>set [?b2, ?b1]. isNumbers s3 r" using N3 sub by auto
    qed
  qed
  have bn2: "\<forall>r\<in>set [?b2, ?b1]. isNumbers s2 r" using N2 sub by auto
  have m1_2: "isMatrix s2 ?w1" "rowsAt s2 ?w1 = rowsAt s ?w1"
    using updatedInPlace_matrix[OF U02 vm(1) N] by simp_all
  have m2_2: "isMatrix s2 ?w2" "rowsAt s2 ?w2 = rowsAt s ?w2"
    using updatedInPlace_matrix[OF U02 vm(2) N] by simp_all
  have w1_4: "matrixAt s4 ?w1 = matrixAt s2 ?w1"
    using u34 _ m1_2(1) bn2
  proof (rule updatedInPlace_matrixAt)
    show "set (rowsAt s2 ?w1) \<inter> set [?b2, ?b1] = {}" unfolding m1_2 using dr(4,6) by simp
  qed
  have w2_4: "matrixAt s4 ?w2 = matrixAt s2 ?w2"
    using u34 _ m2_2(1) bn2
  proof (rule updatedInPlace_matrixAt)
    show "set (rowsAt s2 ?w2) \<inter> set [?b2, ?b1] = {}" unfolding m2_2 using dr(5,7) by simp
  qed
  have run: "updateParametersAt e g2 g1 b2g b1g s = s4"
    by (simp add: updateParametersAt_def Let_def s1_def s2_def s3_def s4_def)
  show "updatedInPlace ?N s (updateParametersAt e g2 g1 b2g b1g s)"
    unfolding run by (rule U04)
  show "engineOf (updateParametersAt e g2 g1 b2g b1g s) e
     = (engineOf s e)
         \<lparr>weights2 := updateMatrix ?lr (matrixAt s ?w2) (matrixAt s g2),
          weights1 := updateMatrix ?lr (matrixAt s ?w1) (matrixAt s g1),
          biases2 := updateVector ?lr (numbersAt s ?b2) (numbersAt s b2g),
          biases1 := updateVector ?lr (numbersAt s ?b1) (numbersAt s b1g)\<rparr>"
    unfolding run
    by (simp add: engineOf_def w1_4 w1_2 w2_4 w2_2 w2_1 b1_4 b2_4)
qed

text \<open>The arrays of a record stay as they are while the engine is updated in place and
  while new arrays are allocated.\<close>

lemma kept_numbers:
  assumes u: "updatedInPlace N sa sb" and p: "prefix sb sc"
    and n: "isNumbers sa a" and fresh: "a \<notin> set N"
  shows "isNumbers sc a" "numbersAt sc a = numbersAt sa a"
proof -
  have b: "isNumbers sb a" using u n by (rule updatedInPlace_isNumbers)
  show "isNumbers sc a" using p b by (rule prefix_isNumbers)
  show "numbersAt sc a = numbersAt sa a"
    using prefix_numbersAt[OF p b] updatedInPlace_numbers(1)[OF u fresh] by simp
qed

lemma kept_matrix:
  assumes u: "updatedInPlace N sa sb" and p: "prefix sb sc"
    and m: "isMatrix sa a" and fresh: "matrixCells sa a \<inter> set N = {}"
    and N: "\<forall>r\<in>set N. isNumbers sa r"
  shows "isMatrix sc a" "matrixAt sc a = matrixAt sa a" "matrixCells sc a = matrixCells sa a"
proof -
  note b = updatedInPlace_matrix[OF u m N]
  have rows: "set (rowsAt sa a) \<inter> set N = {}" using fresh by (auto simp: matrixCells_def)
  show "isMatrix sc a" using p b(1) by (rule prefix_isMatrix)
  show "matrixAt sc a = matrixAt sa a"
    using prefix_matrixAt[OF p b(1)] updatedInPlace_matrixAt[OF u rows m N] by simp
  show "matrixCells sc a = matrixCells sa a"
    using prefix_matrixCells[OF p b(1)] b(3) by simp
qed

lemma numberCells_bound:
  assumes "validTensors s t" and "r \<in> set (numberCells s t)"
  shows "r < length s"
  using numberCells_valid[OF assms(1)] assms(2) isNumbers_bound by blast

lemma numberCells_prefix:
  assumes "validTensors s t" and "prefix s s'"
  shows "numberCells s' t = numberCells s t"
proof -
  have "isMatrix s (weights1At t)" "isMatrix s (weights2At t)"
    using assms(1) by (simp_all add: validTensors_def)
  then have "rowsAt s' (weights1At t) = rowsAt s (weights1At t)"
    "rowsAt s' (weights2At t) = rowsAt s (weights2At t)"
    using assms(2) by (auto intro!: rowsAt_cong prefix_elem isMatrix_bound)
  then show ?thesis by (simp add: numberCells_def)
qed

lemma numberCells_updated:
  assumes v: "validTensors s t" and u: "updatedInPlace (numberCells s t) s s'"
  shows "validTensors s' t" "numberCells s' t = numberCells s t"
proof -
  note N = numberCells_valid[OF v]
  have m: "isMatrix s (weights1At t)" "isMatrix s (weights2At t)"
    and n: "isNumbers s (biases1At t)" "isNumbers s (biases2At t)"
    using v by (simp_all add: validTensors_def)
  note m1 = updatedInPlace_matrix[OF u m(1) N]
  note m2 = updatedInPlace_matrix[OF u m(2) N]
  show "validTensors s' t"
    using m1(1) m2(1) updatedInPlace_isNumbers[OF u n(1)] updatedInPlace_isNumbers[OF u n(2)]
    by (simp add: validTensors_def)
  show "numberCells s' t = numberCells s t"
    by (simp add: numberCells_def m1(2) m2(2))
qed

lemma trainStep_unfold:
  "trainStep nn inputs target =
     (let hiddenPre = vectorAdd (matrixMultiply (weights1 nn) inputs) (biases1 nn);
          hiddenPost = map sigmoid hiddenPre;
          outputPre = vectorAdd (matrixMultiply (weights2 nn) hiddenPost) (biases2 nn);
          outputPost = (if taskType nn = classification then map sigmoid outputPre
                        else outputPre);
          outputGradientsOpt = outputGradientsOf outputPost target;
          outputGradients = map the outputGradientsOpt;
          hiddenGradients = hiddenGradientsOf (hiddenErrorValuesOf nn outputGradients) hiddenPre;
          weights2Gradients =
            map (\<lambda>hidden_val. map (\<lambda>grad. hidden_val * grad) outputGradients) hiddenPost;
          weights1Gradients =
            map (\<lambda>input_val. map (\<lambda>grad. input_val * grad) hiddenGradients) inputs;
          w2' = updateMatrix (learningRate nn) (weights2 nn) weights2Gradients;
          w1' = updateMatrix (learningRate nn) (weights1 nn) weights1Gradients;
          b2' = updateVector (learningRate nn) (biases2 nn) outputGradients;
          b1' = updateVector (learningRate nn) (biases1 nn) hiddenGradients
      in if None \<in> set outputGradientsOpt then Inl NotANumber
         else Inr (\<lparr>forward = \<lparr>fw_inputs = inputs,
                                fw_hiddenPre = hiddenPre,
                                fw_hiddenPost = hiddenPost,
                                fw_outputPre = outputPre,
                                fw_outputPost = outputPost,
                                fw_weights1 = weights1 nn,
                                fw_weights2 = weights2 nn,
                                fw_biases1 = biases1 nn,
                                fw_biases2 = biases2 nn\<rparr>,
                    backward = \<lparr>bw_loss = lossOf (taskType nn) outputPost target,
                                 bw_outputGradients = outputGradients,
                                 bw_hiddenGradients = hiddenGradients,
                                 bw_weights2Gradients = weights2Gradients,
                                 bw_weights1Gradients = weights1Gradients,
                                 bw_biases2Gradients = outputGradients,
                                 bw_biases1Gradients = hiddenGradients\<rparr>,
                    after = \<lparr>af_weights1 = w1', af_weights2 = w2',
                             af_biases1 = b1', af_biases2 = b2'\<rparr>\<rparr>,
                   nn\<lparr>weights2 := w2', weights1 := w1', biases2 := b2', biases1 := b1'\<rparr>))"
  by (simp add: trainStep_def Let_def)

lemma trainStepAt_refines:
  assumes v: "validTensors s (tensors e)" and d: "distinct (numberCells s (tensors e))"
    and i: "isNumbers s inputs" and ni: "inputs \<notin> set (numberCells s (tensors e))"
    and tg: "isNumbers s target"
    and run: "trainStep (engineOf s e) (numbersAt s inputs) (numbersAt s target) = Inr (step, nn')"
  shows "\<exists>r s'.
     trainStepAt e inputs target s = Inr (r, s') \<and>
     stepOf s' r = step \<and> engineOf s' e = nn' \<and>
     validTensors s' (tensors e) \<and>
     numberCells s' (tensors e) = numberCells s (tensors e) \<and>
     changedOnlyAt (set (numberCells s (tensors e))) s s' \<and>
     inputsAt r = inputs \<and>
     isNumbers s' (outputGradientsAt r) \<and> isNumbers s' (hiddenGradientsAt r) \<and>
     isNumbers s' (biases2GradientsAt r) \<and> isNumbers s' (biases1GradientsAt r) \<and>
     length s \<le> outputGradientsAt r \<and>
     outputGradientsAt r < hiddenGradientsAt r \<and>
     hiddenGradientsAt r < biases2GradientsAt r \<and>
     biases2GradientsAt r < biases1GradientsAt r"
proof -
  let ?t = "tensors e"
  let ?N = "numberCells s ?t"
  let ?nn = "engineOf s e"
  let ?in = "numbersAt s inputs"
  let ?tg = "numbersAt s target"
  let ?hp = "vectorAdd (matrixMultiply (weights1 ?nn) ?in) (biases1 ?nn)"
  let ?hpo = "map sigmoid ?hp"
  let ?opr = "vectorAdd (matrixMultiply (weights2 ?nn) ?hpo) (biases2 ?nn)"
  let ?opo = "if taskType ?nn = classification then map sigmoid ?opr else ?opr"
  let ?ogo = "outputGradientsOf ?opo ?tg"
  let ?og = "map the ?ogo"
  let ?hg = "hiddenGradientsOf (hiddenErrorValuesOf ?nn ?og) ?hp"
  let ?g2 = "map (\<lambda>hidden_val. map (\<lambda>grad. hidden_val * grad) ?og) ?hpo"
  let ?g1 = "map (\<lambda>input_val. map (\<lambda>grad. input_val * grad) ?hg) ?in"
  have sel: "weights1 ?nn = matrixAt s (weights1At ?t)" "weights2 ?nn = matrixAt s (weights2At ?t)"
    "biases1 ?nn = numbersAt s (biases1At ?t)" "biases2 ?nn = numbersAt s (biases2At ?t)"
    "learningRate ?nn = learningRateOf e" "taskType ?nn = taskTypeOf e"
    by (simp_all add: engineOf_def)
  have ok: "None \<notin> set ?ogo"
    using run by (auto simp: trainStep_unfold Let_def split: if_splits)
  have Nlt: "\<And>r. r \<in> set ?N \<Longrightarrow> r < length s"
    using v by (rule numberCells_bound)
  \<comment> \<open>the snapshot\<close>
  obtain initial s1 where c1: "copyTensors ?t s = (initial, s1)" by (cases "copyTensors ?t s")
  note p1 = copyTensors_props[OF c1 v]
  have v1: "validTensors s1 ?t" using validTensors_prefix(1)[OF v p1(1)] .
  have i1: "isNumbers s1 inputs" using p1(1) i by (rule prefix_isNumbers)
  \<comment> \<open>the forward pass\<close>
  obtain fw s2 where f0: "forwardPassAt e inputs s1 = (fw, s2)"
    by (cases "forwardPassAt e inputs s1")
  obtain hp hpo opr opo where fw: "fw = (hp, hpo, opr, opo)" by (cases fw) auto
  note f = f0[unfolded fw]
  note p2 = forwardPassAt_props[OF v1 f]
  have s02: "prefix s s2" using p1(1) p2(1) by (rule prefix_order.trans)
  have v2: "validTensors s2 ?t" using validTensors_prefix(1)[OF v s02] .
  have i2: "isNumbers s2 inputs" using s02 i by (rule prefix_isNumbers)
  have e1: "engineOf s1 e = ?nn" using v p1(1) by (rule engineOf_prefix)
  have e2: "engineOf s2 e = ?nn" using v s02 by (rule engineOf_prefix)
  have in1: "numbersAt s1 inputs = ?in" using p1(1) i by (rule prefix_numbersAt)
  have in2: "numbersAt s2 inputs = ?in" using s02 i by (rule prefix_numbersAt)
  have tg2: "numbersAt s2 target = ?tg" using s02 tg by (rule prefix_numbersAt)
  have sel1: "matrixAt s1 (weights1At ?t) = weights1 ?nn"
    "matrixAt s1 (weights2At ?t) = weights2 ?nn"
    "numbersAt s1 (biases1At ?t) = biases1 ?nn" "numbersAt s1 (biases2At ?t) = biases2 ?nn"
    using e1 by (simp_all add: engineOf_def)
  have hp2: "numbersAt s2 hp = ?hp" using p2(11) by (simp add: sel1 in1)
  have hpo2: "numbersAt s2 hpo = ?hpo" using p2(12) by (simp add: hp2)
  have opr2: "numbersAt s2 opr = ?opr" using p2(13) by (simp add: sel1 hpo2)
  have opo2: "numbersAt s2 opo = ?opo" using p2(14) by (simp add: opr2 sel)
  \<comment> \<open>loss and gradients\<close>
  have ok2: "None \<notin> set (outputGradientsOf (numbersAt s2 opo) (numbersAt s2 target))"
    using ok by (simp add: opo2 tg2)
  from gradientsAt_props[OF v2 i2 p2(7) p2(8) ok2]
  obtain og hg g2 g1 b2g b1g s3 where
    g: "gradientsAt e inputs target hp hpo opo s2
        = Inr ((lossOf (taskTypeOf e) (numbersAt s2 opo) (numbersAt s2 target),
                og, hg, g2, g1, b2g, b1g), s3)"
    and s23: "prefix s2 s3"
    and ord: "length s2 \<le> og" "og < hg" "hg < b2g" "b2g < b1g" "b1g < length s3"
    and cells: "matrixCells s3 g2 \<subseteq> {length s2..<length s3}"
               "matrixCells s3 g1 \<subseteq> {length s2..<length s3}"
    and kinds: "isNumbers s3 og" "isNumbers s3 hg" "isMatrix s3 g2" "isMatrix s3 g1"
               "isNumbers s3 b2g" "isNumbers s3 b1g"
    and ogv: "numbersAt s3 og
              = map the (outputGradientsOf (numbersAt s2 opo) (numbersAt s2 target))"
    and hgv: "numbersAt s3 hg
              = hiddenGradientsOf (hiddenErrorValuesOf (engineOf s2 e) (numbersAt s3 og))
                  (numbersAt s2 hp)"
    and g2v: "matrixAt s3 g2
              = map (\<lambda>hidden_val. map (\<lambda>grad. hidden_val * grad) (numbersAt s3 og))
                  (numbersAt s2 hpo)"
    and g1v: "matrixAt s3 g1
              = map (\<lambda>input_val. map (\<lambda>grad. input_val * grad) (numbersAt s3 hg))
                  (numbersAt s2 inputs)"
    and b2v: "numbersAt s3 b2g = numbersAt s3 og"
    and b1v: "numbersAt s3 b1g = numbersAt s3 hg"
    by blast
  have og3: "numbersAt s3 og = ?og" using ogv by (simp add: opo2 tg2)
  have hg3: "numbersAt s3 hg = ?hg" using hgv by (simp add: og3 e2 hp2)
  have g23: "matrixAt s3 g2 = ?g2" using g2v by (simp add: og3 hpo2)
  have g13: "matrixAt s3 g1 = ?g1" using g1v by (simp add: hg3 in2)
  have s03: "prefix s s3" using s02 s23 by (rule prefix_order.trans)
  have s13: "prefix s1 s3" using p2(1) s23 by (rule prefix_order.trans)
  have v3: "validTensors s3 ?t" using validTensors_prefix(1)[OF v s03] .
  have N3: "numberCells s3 ?t = ?N" using v s03 by (rule numberCells_prefix)
  have e3: "engineOf s3 e = ?nn" using v s03 by (rule engineOf_prefix)
  have len: "length s \<le> length s1" "length s1 \<le> length s2" "length s2 \<le> length s3"
    using p1(1) p2(1) s23 by (simp_all add: prefix_length)
  have fresh_cell: "a \<notin> set ?N" if "length s \<le> a" for a
    using Nlt[of a] that by auto
  have fresh_cells: "C \<inter> set ?N = {}" if "C \<subseteq> {length s..<n}" for C n
    using Nlt that by fastforce
  \<comment> \<open>the update in place\<close>
  define s4 where "s4 = updateParametersAt e g2 g1 b2g b1g s3"
  have d3: "distinct (numberCells s3 ?t)" unfolding N3 by (rule d)
  have c2N: "matrixCells s3 g2 \<inter> set (numberCells s3 ?t) = {}"
    unfolding N3 using cells(1) len by (intro fresh_cells[of _ "length s3"]) auto
  have c1N: "matrixCells s3 g1 \<inter> set (numberCells s3 ?t) = {}"
    unfolding N3 using cells(2) len by (intro fresh_cells[of _ "length s3"]) auto
  have b2N: "b2g \<notin> set (numberCells s3 ?t)"
    unfolding N3 using ord len by (intro fresh_cell) simp
  have b1N: "b1g \<notin> set (numberCells s3 ?t)"
    unfolding N3 using ord len by (intro fresh_cell) simp
  note up = updateParametersAt_props[OF v3 d3 kinds(3) c2N kinds(4) c1N kinds(5) b2N kinds(6) b1N]
  have u: "updatedInPlace ?N s3 s4" using up(1) unfolding N3 s4_def .
  have e4: "engineOf s4 e
     = ?nn\<lparr>weights2 := updateMatrix (learningRate ?nn) (weights2 ?nn) ?g2,
           weights1 := updateMatrix (learningRate ?nn) (weights1 ?nn) ?g1,
           biases2 := updateVector (learningRate ?nn) (biases2 ?nn) ?og,
           biases1 := updateVector (learningRate ?nn) (biases1 ?nn) ?hg\<rparr>"
    using up(2) e3 unfolding s4_def[symmetric]
    by (simp add: engineOf_def g23 g13 b2v b1v og3 hg3)
  have u': "updatedInPlace (numberCells s3 ?t) s3 s4" using u unfolding N3 .
  note v4 = numberCells_updated[OF v3 u']
  \<comment> \<open>the copies of the \<open>after\<close> section\<close>
  obtain aft s5 where c5: "copyTensors ?t s4 = (aft, s5)" by (cases "copyTensors ?t s4")
  note p5 = copyTensors_props[OF c5 v4(1)]
  have e5: "engineOf s5 e = engineOf s4 e" using v4(1) p5(1) by (rule engineOf_prefix)
  have v5: "validTensors s5 ?t" using validTensors_prefix(1)[OF v4(1) p5(1)] .
  have N5: "numberCells s5 ?t = ?N"
    using numberCells_prefix[OF v4(1) p5(1)] v4(2) N3 by simp
  define r where "r = \<lparr>inputsAt = inputs, hiddenPreAt = hp, hiddenPostAt = hpo,
      outputPreAt = opr, outputPostAt = opo, initialAt = initial,
      lossValue = lossOf (taskTypeOf e) (numbersAt s2 opo) (numbersAt s2 target),
      outputGradientsAt = og, hiddenGradientsAt = hg, weights2GradientsAt = g2,
      weights1GradientsAt = g1, biases2GradientsAt = b2g, biases1GradientsAt = b1g,
      afterAt = aft\<rparr>"
  have result: "trainStepAt e inputs target s = Inr (r, s5)"
    by (simp add: trainStepAt_def c1 f0 fw g Let_def s4_def[symmetric] c5 r_def)
  \<comment> \<open>what the final store holds at the addresses of the record\<close>
  have N3n: "\<forall>x\<in>set ?N. isNumbers s3 x"
    using numberCells_valid[OF v3] unfolding N3 .
  have k_in: "numbersAt s5 inputs = ?in"
    using kept_numbers(2)[OF u p5(1) prefix_isNumbers[OF s03 i] ni]
      prefix_numbersAt[OF s03 i] by simp
  have k_hp: "numbersAt s5 hp = ?hp"
    using kept_numbers(2)[OF u p5(1) prefix_isNumbers[OF s23 p2(7)]]
      prefix_numbersAt[OF s23 p2(7)] hp2 fresh_cell[of hp] p2(2) len by simp
  have k_hpo: "numbersAt s5 hpo = ?hpo"
    using kept_numbers(2)[OF u p5(1) prefix_isNumbers[OF s23 p2(8)]]
      prefix_numbersAt[OF s23 p2(8)] hpo2 fresh_cell[of hpo] p2(3) len by simp
  have k_opr: "numbersAt s5 opr = ?opr"
    using kept_numbers(2)[OF u p5(1) prefix_isNumbers[OF s23 p2(9)]]
      prefix_numbersAt[OF s23 p2(9)] opr2 fresh_cell[of opr] p2(4) len by simp
  have k_opo: "numbersAt s5 opo = ?opo"
    using kept_numbers(2)[OF u p5(1) prefix_isNumbers[OF s23 p2(10)]]
      prefix_numbersAt[OF s23 p2(10)] opo2 fresh_cell[of opo] p2(5) len by simp
  have og_f: "og \<notin> set ?N" "hg \<notin> set ?N" "b2g \<notin> set ?N" "b1g \<notin> set ?N"
    using ord len by (auto intro!: fresh_cell)
  note k_og = kept_numbers[OF u p5(1) kinds(1) og_f(1)]
  note k_hg = kept_numbers[OF u p5(1) kinds(2) og_f(2)]
  note k_b2g = kept_numbers[OF u p5(1) kinds(5) og_f(3)]
  note k_b1g = kept_numbers[OF u p5(1) kinds(6) og_f(4)]
  have c2N': "matrixCells s3 g2 \<inter> set ?N = {}" using c2N unfolding N3 .
  have c1N': "matrixCells s3 g1 \<inter> set ?N = {}" using c1N unfolding N3 .
  note k_g2 = kept_matrix[OF u p5(1) kinds(3) c2N' N3n]
  note k_g1 = kept_matrix[OF u p5(1) kinds(4) c1N' N3n]
  \<comment> \<open>the snapshot taken before the update\<close>
  have init3: "validTensors s3 initial" "tensorCells s3 initial = tensorCells s1 initial"
    using validTensors_prefix[OF p1(2) s13] by simp_all
  have im: "isMatrix s3 (weights1At initial)" "isMatrix s3 (weights2At initial)"
    and inb: "isNumbers s3 (biases1At initial)" "isNumbers s3 (biases2At initial)"
    using init3(1) by (simp_all add: validTensors_def)
  have initN: "tensorCells s3 initial \<inter> set ?N = {}"
    unfolding init3(2) using p1(3) by (rule fresh_cells)
  have iw1: "matrixAt s5 (weights1At initial) = weights1 ?nn"
    using kept_matrix(2)[OF u p5(1) im(1) _ N3n] initN
      prefix_matrixAt[OF s13] p1(2) p1(4)
    by (auto simp: tensorCells_def validTensors_def sel)
  have iw2: "matrixAt s5 (weights2At initial) = weights2 ?nn"
    using kept_matrix(2)[OF u p5(1) im(2) _ N3n] initN
      prefix_matrixAt[OF s13] p1(2) p1(5)
    by (auto simp: tensorCells_def validTensors_def sel)
  have ib1: "numbersAt s5 (biases1At initial) = biases1 ?nn"
    using kept_numbers(2)[OF u p5(1) inb(1)] initN
      prefix_numbersAt[OF s13] p1(2) p1(6)
    by (auto simp: tensorCells_def validTensors_def sel)
  have ib2: "numbersAt s5 (biases2At initial) = biases2 ?nn"
    using kept_numbers(2)[OF u p5(1) inb(2)] initN
      prefix_numbersAt[OF s13] p1(2) p1(7)
    by (auto simp: tensorCells_def validTensors_def sel)
  \<comment> \<open>the \<open>after\<close> section\<close>
  have aw: "matrixAt s5 (weights1At aft) = weights1 (engineOf s4 e)"
    "matrixAt s5 (weights2At aft) = weights2 (engineOf s4 e)"
    "numbersAt s5 (biases1At aft) = biases1 (engineOf s4 e)"
    "numbersAt s5 (biases2At aft) = biases2 (engineOf s4 e)"
    using p5(4-7) by (simp_all add: engineOf_def)
  have loss: "lossValue r = lossOf (taskType ?nn) ?opo ?tg"
    by (simp add: r_def opo2 tg2 sel)
  have step: "step = \<lparr>forward = \<lparr>fw_inputs = ?in, fw_hiddenPre = ?hp, fw_hiddenPost = ?hpo,
                                fw_outputPre = ?opr, fw_outputPost = ?opo,
                                fw_weights1 = weights1 ?nn, fw_weights2 = weights2 ?nn,
                                fw_biases1 = biases1 ?nn, fw_biases2 = biases2 ?nn\<rparr>,
                    backward = \<lparr>bw_loss = lossOf (taskType ?nn) ?opo ?tg,
                                 bw_outputGradients = ?og, bw_hiddenGradients = ?hg,
                                 bw_weights2Gradients = ?g2, bw_weights1Gradients = ?g1,
                                 bw_biases2Gradients = ?og, bw_biases1Gradients = ?hg\<rparr>,
                    after = \<lparr>af_weights1 = updateMatrix (learningRate ?nn) (weights1 ?nn) ?g1,
                             af_weights2 = updateMatrix (learningRate ?nn) (weights2 ?nn) ?g2,
                             af_biases1 = updateVector (learningRate ?nn) (biases1 ?nn) ?hg,
                             af_biases2 = updateVector (learningRate ?nn) (biases2 ?nn) ?og\<rparr>\<rparr>"
    and nn': "nn' = ?nn\<lparr>weights2 := updateMatrix (learningRate ?nn) (weights2 ?nn) ?g2,
           weights1 := updateMatrix (learningRate ?nn) (weights1 ?nn) ?g1,
           biases2 := updateVector (learningRate ?nn) (biases2 ?nn) ?og,
           biases1 := updateVector (learningRate ?nn) (biases1 ?nn) ?hg\<rparr>"
    using run ok unfolding trainStep_unfold Let_def by simp_all
  have st: "stepOf s5 r = step"
    unfolding step stepOf_def
    by (simp add: loss) (simp add: r_def k_in k_hp k_hpo k_opr k_opo iw1 iw2 ib1 ib2
        k_og(2) k_hg(2) k_b2g(2) k_b1g(2) k_g2(2) k_g1(2) og3 hg3 g23 g13 b2v b1v aw e4)
  have en: "engineOf s5 e = nn'" by (simp add: e5 e4 nn')
  have ch: "changedOnlyAt (set ?N) s s5"
  proof -
    have "changedOnlyAt (set ?N) s3 s4" using u by (rule updatedInPlace_changedOnlyAt)
    then show ?thesis
      using s03 p5(1) unfolding changedOnlyAt_def prefix_def
      by (auto simp: nth_append)
  qed
  show ?thesis
    using result st en v5 N5 ch k_og(1) k_hg(1) k_b2g(1) k_b1g(1) ord len
    by (intro exI[of _ r] exI[of _ s5]) (simp add: r_def)
qed

subsection \<open>The engine owns its arrays\<close>

lemma copyRows_rows:
  assumes "copyRows a s = (a', s')" and "isMatrix s a"
  shows "rowsAt s' a' = [length s..<length s + length (rowsAt s a)]"
    "a' = length s + length (rowsAt s a)" "length s' = Suc a'"
proof -
  obtain rs1 s1 where se: "spreadEach (rowsAt s a) s = (rs1, s1)"
    by (cases "spreadEach (rowsAt s a) s")
  have res: "a' = length s1" "s' = s1 @ [Rows rs1]"
    using assms(1) se by (auto simp: copyRows_def alloc_def)
  have rows: "\<forall>r\<in>set (rowsAt s a). isNumbers s r"
    using assms(2) isMatrix_rows by blast
  from spreadEach_props[OF se rows]
  have p2: "length s1 = length s + length (rowsAt s a)"
    and p3: "rs1 = [length s..<length s + length (rowsAt s a)]"
    by blast+
  have at: "elem s' a' = Some (Rows rs1)" by (simp add: res elem_def)
  show "rowsAt s' a' = [length s..<length s + length (rowsAt s a)]"
    by (simp add: rowsAt_def at p3)
  show "a' = length s + length (rowsAt s a)" "length s' = Suc a'"
    by (simp_all add: res p2)
qed

lemma copyTensors_distinct:
  assumes c: "copyTensors t s = (t', s')" and v: "validTensors s t"
  shows "distinct (numberCells s' t')"
proof -
  have v1: "isMatrix s (weights1At t)" and v2: "isMatrix s (weights2At t)"
    using v by (simp_all add: validTensors_def)
  obtain w1 s1 where c1: "copyRows (weights1At t) s = (w1, s1)"
    by (cases "copyRows (weights1At t) s")
  obtain w2 s2 where c2: "copyRows (weights2At t) s1 = (w2, s2)"
    by (cases "copyRows (weights2At t) s1")
  obtain b1 s3 where c3: "spread (biases1At t) s2 = (b1, s3)"
    by (cases "spread (biases1At t) s2")
  obtain b2 s4 where c4: "spread (biases2At t) s3 = (b2, s4)"
    by (cases "spread (biases2At t) s3")
  have res: "t' = \<lparr>weights1At = w1, weights2At = w2, biases1At = b1, biases2At = b2\<rparr>"
    "s' = s4"
    using c c1 c2 c3 c4 by (simp_all add: copyTensors_def)
  note p1 = copyRows_props[OF c1 v1]
  have v2': "isMatrix s1 (weights2At t)" using p1(1) v2 by (rule prefix_isMatrix)
  note p2 = copyRows_props[OF c2 v2']
  note q1 = copyRows_rows[OF c1 v1]
  note q2 = copyRows_rows[OF c2 v2']
  note p3 = spread_props[OF c3]
  note p4 = spread_props[OF c4]
  have s14: "prefix s1 s4"
    using p2(1) p3(1) p4(1) by (blast intro: prefix_order.trans)
  have s24: "prefix s2 s4" using p3(1) p4(1) by (rule prefix_order.trans)
  have r1: "rowsAt s4 w1 = [length s..<length s + length (rowsAt s (weights1At t))]"
    using rowsAt_cong[OF prefix_elem[OF s14 isMatrix_bound[OF p1(2)]]] q1(1) by simp
  have r2: "rowsAt s4 w2 = [length s1..<length s1 + length (rowsAt s1 (weights2At t))]"
    using rowsAt_cong[OF prefix_elem[OF s24 isMatrix_bound[OF p2(2)]]] q2(1) by simp
  have "distinct ([length s..<length s + length (rowsAt s (weights1At t))]
          @ [length s1..<length s1 + length (rowsAt s1 (weights2At t))] @ [b1, b2])"
    using q1(2,3) q2(2,3) p3(2,3) p4(3) by auto
  then show ?thesis
    by (simp add: numberCells_def res r1 r2)
qed

lemma setWeights_owns:
  assumes "validTensors s weights" and "setWeights e weights s = (e', s')"
  shows "ownsItsArrays s' e'"
proof -
  obtain t where c: "copyTensors weights s = (t, s')" and e': "e' = e\<lparr>tensors := t\<rparr>"
    using assms(2) by (auto simp: setWeights_def split: prod.splits)
  show ?thesis
    using copyTensors_props(2)[OF c assms(1)] copyTensors_distinct[OF c assms(1)]
    by (simp add: ownsItsArrays_def e')
qed

subsection \<open>From trainStep on lists to trainStep on the store\<close>

lemma trainingStore_engine: "engineOf trainingStore exampleEngine = regressionNet"
  by (simp add: engineOf_def matrixAt_def rowsAt_def numbersAt_def trainingStore_def
      exampleEngine_def regressionNet_def elem_def)

lemma trainingStore_args:
  "numbersAt trainingStore 7 = [2, - 1]" "numbersAt trainingStore 8 = [1]"
  "isNumbers trainingStore 7" "isNumbers trainingStore 8"
  by (simp_all add: numbersAt_def isNumbers_def trainingStore_def elem_def)

lemma trainingStore_cells: "numberCells trainingStore (tensors exampleEngine) = [0, 1, 3, 5, 6]"
  by (simp add: numberCells_def rowsAt_def trainingStore_def exampleEngine_def elem_def)

lemma trainingStore_owns: "ownsItsArrays trainingStore exampleEngine"
  unfolding ownsItsArrays_def trainingStore_cells
  by (simp add: validTensors_def isMatrix_def isNumbers_def trainingStore_def exampleEngine_def
      elem_def)

lemma trainStepAt_from_values:
  assumes own: "ownsItsArrays s e"
    and i: "isNumbers s inputs" and ni: "inputs \<notin> set (numberCells s (tensors e))"
    and tg: "isNumbers s target"
    and run: "trainStep (engineOf s e) (numbersAt s inputs) (numbersAt s target) = Inr (step, nn')"
  shows "\<exists>r s'.
     trainStepAt e inputs target s = Inr (r, s') \<and>
     stepOf s' r = step \<and> engineOf s' e = nn' \<and> ownsItsArrays s' e \<and>
     changedOnlyAt (set (numberCells s (tensors e))) s s' \<and>
     inputsAt r = inputs \<and>
     isNumbers s' (outputGradientsAt r) \<and> isNumbers s' (hiddenGradientsAt r) \<and>
     isNumbers s' (biases2GradientsAt r) \<and> isNumbers s' (biases1GradientsAt r) \<and>
     biases2GradientsAt r \<noteq> outputGradientsAt r \<and>
     biases1GradientsAt r \<noteq> hiddenGradientsAt r"
proof -
  have v: "validTensors s (tensors e)" and d: "distinct (numberCells s (tensors e))"
    using own by (simp_all add: ownsItsArrays_def)
  from trainStepAt_refines[OF v d i ni tg run]
  obtain r s' where
    a: "trainStepAt e inputs target s = Inr (r, s')" "stepOf s' r = step" "engineOf s' e = nn'"
      "validTensors s' (tensors e)" "numberCells s' (tensors e) = numberCells s (tensors e)"
      "changedOnlyAt (set (numberCells s (tensors e))) s s'" "inputsAt r = inputs"
      "isNumbers s' (outputGradientsAt r)" "isNumbers s' (hiddenGradientsAt r)"
      "isNumbers s' (biases2GradientsAt r)" "isNumbers s' (biases1GradientsAt r)"
    and ord: "outputGradientsAt r < hiddenGradientsAt r"
      "hiddenGradientsAt r < biases2GradientsAt r"
      "biases2GradientsAt r < biases1GradientsAt r"
    by blast
  have "ownsItsArrays s' e" using a(4,5) d by (simp add: ownsItsArrays_def)
  moreover have "biases2GradientsAt r \<noteq> outputGradientsAt r"
    "biases1GradientsAt r \<noteq> hiddenGradientsAt r"
    using ord by simp_all
  ultimately show ?thesis using a by blast
qed

lemma trainStep_update_rule_values:
  assumes "wellDimensioned nn" and "length inputs = inputSize nn"
    and "length target = outputSize nn"
  shows "\<exists>step nn'.
     trainStep nn inputs target = Inr (step, nn') \<and>
     fw_weights1 (forward step) = weights1 nn \<and>
     fw_weights2 (forward step) = weights2 nn \<and>
     fw_biases1 (forward step) = biases1 nn \<and>
     fw_biases2 (forward step) = biases2 nn \<and>
     hasShape (inputSize nn) (hiddenSize nn) (bw_weights1Gradients (backward step)) \<and>
     hasShape (hiddenSize nn) (outputSize nn) (bw_weights2Gradients (backward step)) \<and>
     length (bw_biases1Gradients (backward step)) = hiddenSize nn \<and>
     length (bw_biases2Gradients (backward step)) = outputSize nn \<and>
     af_weights1 (after step) =
       map (\<lambda>i. map (\<lambda>h. fw_weights1 (forward step) ! i ! h
                          - learningRate nn * bw_weights1Gradients (backward step) ! i ! h)
                  [0..<hiddenSize nn]) [0..<inputSize nn] \<and>
     af_weights2 (after step) =
       map (\<lambda>h. map (\<lambda>k. fw_weights2 (forward step) ! h ! k
                          - learningRate nn * bw_weights2Gradients (backward step) ! h ! k)
                  [0..<outputSize nn]) [0..<hiddenSize nn] \<and>
     af_biases1 (after step) =
       map (\<lambda>h. fw_biases1 (forward step) ! h
                 - learningRate nn * bw_biases1Gradients (backward step) ! h)
         [0..<hiddenSize nn] \<and>
     af_biases2 (after step) =
       map (\<lambda>k. fw_biases2 (forward step) ! k
                 - learningRate nn * bw_biases2Gradients (backward step) ! k)
         [0..<outputSize nn] \<and>
     weights1 nn' = af_weights1 (after step) \<and>
     weights2 nn' = af_weights2 (after step) \<and>
     biases1 nn' = af_biases1 (after step) \<and>
     biases2 nn' = af_biases2 (after step)"
  unfolding trainStep_wd[OF assms]
  by (simp add: hasShape_def list_all_iff)

lemma trainStep_backward_gradients_values:
  assumes "wellDimensioned nn" and "length inputs = inputSize nn"
    and "length target = outputSize nn"
  shows "\<exists>step nn'.
     trainStep nn inputs target = Inr (step, nn') \<and>
     fw_inputs (forward step) = inputs \<and>
     fw_weights2 (forward step) = weights2 nn \<and>
     fw_hiddenPre (forward step) = spec_hiddenPre nn inputs \<and>
     fw_hiddenPost (forward step) = spec_hiddenPost nn inputs \<and>
     bw_hiddenGradients (backward step) =
       map (\<lambda>h. (\<Sum>k<outputSize nn. bw_outputGradients (backward step) ! k
                                        * (fw_weights2 (forward step) ! h ! k))
                 * (sigmoid (fw_hiddenPre (forward step) ! h)
                    * (1 - sigmoid (fw_hiddenPre (forward step) ! h))))
         [0..<hiddenSize nn] \<and>
     bw_weights2Gradients (backward step) =
       map (\<lambda>h. map (\<lambda>k. fw_hiddenPost (forward step) ! h
                           * bw_outputGradients (backward step) ! k)
                  [0..<outputSize nn]) [0..<hiddenSize nn] \<and>
     bw_weights1Gradients (backward step) =
       map (\<lambda>i. map (\<lambda>h. fw_inputs (forward step) ! i * bw_hiddenGradients (backward step) ! h)
                  [0..<hiddenSize nn]) [0..<inputSize nn] \<and>
     bw_biases2Gradients (backward step) = bw_outputGradients (backward step) \<and>
     bw_biases1Gradients (backward step) = bw_hiddenGradients (backward step)"
  unfolding trainStep_wd[OF assms]
  by (simp add: sigmoidDerivative_def Let_def)

section \<open>Properties of the loss over numbers that overflow\<close>





















































section \<open>The claims\<close>

text \<open>
  C1. An engine that owns its arrays and is well-dimensioned is called with an \<open>inputs\<close>
  array of \<open>inputSize\<close> numbers, not one of its own, and a \<open>target\<close> array of \<open>outputSize\<close>
  numbers. Then \<open>trainStep\<close> returns a record. Read from the store after the call, its
  \<open>forward\<close> section holds the parameters of before the call, its gradient tensors have
  the shapes of the parameters, and its \<open>after\<close> section is, entry by entry and for each
  of \<open>weights1\<close>, \<open>weights2\<close>, \<open>biases1\<close> and \<open>biases2\<close>, the \<open>forward\<close> entry minus
  \<open>learningRate\<close> times the gradient entry. The engine's own arrays hold, after the call,
  the parameters of the \<open>after\<close> section, and the engine still owns its arrays.
\<close>

theorem trainStep_update_rule:
  fixes nn :: NeuralNetwork
  assumes own: "ownsItsArrays s e"
    and i: "isNumbers s inputs" and ni: "inputs \<notin> set (numberCells s (tensors e))"
    and tg: "isNumbers s target"
    and nn: "nn = engineOf s e"
    and wd: "wellDimensioned nn"
    and li: "length (numbersAt s inputs) = inputSize nn"
    and lt: "length (numbersAt s target) = outputSize nn"
  shows "\<exists>r s' step.
     trainStepAt e inputs target s = Inr (r, s') \<and> step = stepOf s' r \<and>
     fw_weights1 (forward step) = weights1 nn \<and>
     fw_weights2 (forward step) = weights2 nn \<and>
     fw_biases1 (forward step) = biases1 nn \<and>
     fw_biases2 (forward step) = biases2 nn \<and>
     hasShape (inputSize nn) (hiddenSize nn) (bw_weights1Gradients (backward step)) \<and>
     hasShape (hiddenSize nn) (outputSize nn) (bw_weights2Gradients (backward step)) \<and>
     length (bw_biases1Gradients (backward step)) = hiddenSize nn \<and>
     length (bw_biases2Gradients (backward step)) = outputSize nn \<and>
     af_weights1 (after step) =
       map (\<lambda>i. map (\<lambda>h. fw_weights1 (forward step) ! i ! h
                          - learningRate nn * bw_weights1Gradients (backward step) ! i ! h)
                  [0..<hiddenSize nn]) [0..<inputSize nn] \<and>
     af_weights2 (after step) =
       map (\<lambda>h. map (\<lambda>k. fw_weights2 (forward step) ! h ! k
                          - learningRate nn * bw_weights2Gradients (backward step) ! h ! k)
                  [0..<outputSize nn]) [0..<hiddenSize nn] \<and>
     af_biases1 (after step) =
       map (\<lambda>h. fw_biases1 (forward step) ! h
                 - learningRate nn * bw_biases1Gradients (backward step) ! h)
         [0..<hiddenSize nn] \<and>
     af_biases2 (after step) =
       map (\<lambda>k. fw_biases2 (forward step) ! k
                 - learningRate nn * bw_biases2Gradients (backward step) ! k)
         [0..<outputSize nn] \<and>
     weights1 (engineOf s' e) = af_weights1 (after step) \<and>
     weights2 (engineOf s' e) = af_weights2 (after step) \<and>
     biases1 (engineOf s' e) = af_biases1 (after step) \<and>
     biases2 (engineOf s' e) = af_biases2 (after step) \<and>
     ownsItsArrays s' e"
proof -
  from trainStep_update_rule_values[OF wd li lt]
  obtain step nn' where
    run: "trainStep nn (numbersAt s inputs) (numbersAt s target) = Inr (step, nn')"
    and rest: "fw_weights1 (forward step) = weights1 nn \<and>
     fw_weights2 (forward step) = weights2 nn \<and>
     fw_biases1 (forward step) = biases1 nn \<and>
     fw_biases2 (forward step) = biases2 nn \<and>
     hasShape (inputSize nn) (hiddenSize nn) (bw_weights1Gradients (backward step)) \<and>
     hasShape (hiddenSize nn) (outputSize nn) (bw_weights2Gradients (backward step)) \<and>
     length (bw_biases1Gradients (backward step)) = hiddenSize nn \<and>
     length (bw_biases2Gradients (backward step)) = outputSize nn \<and>
     af_weights1 (after step) =
       map (\<lambda>i. map (\<lambda>h. fw_weights1 (forward step) ! i ! h
                          - learningRate nn * bw_weights1Gradients (backward step) ! i ! h)
                  [0..<hiddenSize nn]) [0..<inputSize nn] \<and>
     af_weights2 (after step) =
       map (\<lambda>h. map (\<lambda>k. fw_weights2 (forward step) ! h ! k
                          - learningRate nn * bw_weights2Gradients (backward step) ! h ! k)
                  [0..<outputSize nn]) [0..<hiddenSize nn] \<and>
     af_biases1 (after step) =
       map (\<lambda>h. fw_biases1 (forward step) ! h
                 - learningRate nn * bw_biases1Gradients (backward step) ! h)
         [0..<hiddenSize nn] \<and>
     af_biases2 (after step) =
       map (\<lambda>k. fw_biases2 (forward step) ! k
                 - learningRate nn * bw_biases2Gradients (backward step) ! k)
         [0..<outputSize nn] \<and>
     weights1 nn' = af_weights1 (after step) \<and>
     weights2 nn' = af_weights2 (after step) \<and>
     biases1 nn' = af_biases1 (after step) \<and>
     biases2 nn' = af_biases2 (after step)"
    by blast
  from trainStepAt_from_values[OF own i ni tg run[unfolded nn]]
  obtain r s' where a: "trainStepAt e inputs target s = Inr (r, s')" "stepOf s' r = step"
    "engineOf s' e = nn'" "ownsItsArrays s' e"
    by blast
  show ?thesis
    using a rest by (intro exI[of _ r] exI[of _ s'] exI[of _ step]) simp
qed

theorem trainStep_update_rule_witness:
  "ownsItsArrays trainingStore exampleEngine \<and>
   isNumbers trainingStore 7 \<and> 7 \<notin> set (numberCells trainingStore (tensors exampleEngine)) \<and>
   isNumbers trainingStore 8 \<and>
   regressionNet = engineOf trainingStore exampleEngine \<and>
   wellDimensioned regressionNet \<and>
   length (numbersAt trainingStore 7) = inputSize regressionNet \<and>
   length (numbersAt trainingStore 8) = outputSize regressionNet \<and>
   (\<exists>r s' step.
      trainStepAt exampleEngine 7 8 trainingStore = Inr (r, s') \<and> step = stepOf s' r \<and>
      fw_weights1 (forward step) = [[1], [2]] \<and>
      bw_weights1Gradients (backward step) = [[1], [- 1 / 2]] \<and>
      af_weights1 (after step) = [[1 - 1 / 10 * 1], [2 - 1 / 10 * (- 1 / 2)]] \<and>
      fw_weights2 (forward step) = [[2]] \<and>
      bw_weights2Gradients (backward step) = [[1 / 2]] \<and>
      af_weights2 (after step) = [[2 - 1 / 10 * (1 / 2)]] \<and>
      fw_biases1 (forward step) = [0] \<and>
      bw_biases1Gradients (backward step) = [1 / 2] \<and>
      af_biases1 (after step) = [0 - 1 / 10 * (1 / 2)] \<and>
      fw_biases2 (forward step) = [1] \<and>
      bw_biases2Gradients (backward step) = [1] \<and>
      af_biases2 (after step) = [1 - 1 / 10 * 1] \<and>
      weights1 (engineOf s' exampleEngine) = af_weights1 (after step) \<and>
      weights2 (engineOf s' exampleEngine) = af_weights2 (after step) \<and>
      biases1 (engineOf s' exampleEngine) = af_biases1 (after step) \<and>
      biases2 (engineOf s' exampleEngine) = af_biases2 (after step))"
proof -
  have ni: "7 \<notin> set (numberCells trainingStore (tensors exampleEngine))"
    by (simp add: trainingStore_cells)
  have nn: "regressionNet = engineOf trainingStore exampleEngine"
    by (simp add: trainingStore_engine)
  have li: "length (numbersAt trainingStore 7) = inputSize regressionNet"
    and lt: "length (numbersAt trainingStore 8) = outputSize regressionNet"
    by (simp_all add: trainingStore_args regressionNet_size)
  from trainStep_update_rule[OF trainingStore_owns trainingStore_args(3) ni
      trainingStore_args(4) nn regressionNet_wd li lt]
  obtain r s' step where
    a: "trainStepAt exampleEngine 7 8 trainingStore = Inr (r, s')" "step = stepOf s' r"
    and b: "weights1 (engineOf s' exampleEngine) = af_weights1 (after step)"
      "weights2 (engineOf s' exampleEngine) = af_weights2 (after step)"
      "biases1 (engineOf s' exampleEngine) = af_biases1 (after step)"
      "biases2 (engineOf s' exampleEngine) = af_biases2 (after step)"
    by blast
  have run: "trainStep (engineOf trainingStore exampleEngine) (numbersAt trainingStore 7)
               (numbersAt trainingStore 8)
             = Inr (fst (projr (trainStep regressionNet [2, - 1] [1])),
                    snd (projr (trainStep regressionNet [2, - 1] [1])))"
    by (simp add: trainingStore_engine trainingStore_args regressionNet_step)
  from trainStepAt_from_values[OF trainingStore_owns trainingStore_args(3) ni
      trainingStore_args(4) run]
  obtain r2 s2 where
    c: "trainStepAt exampleEngine 7 8 trainingStore = Inr (r2, s2)"
      "stepOf s2 r2 = fst (projr (trainStep regressionNet [2, - 1] [1]))"
    by blast
  have same: "r2 = r" "s2 = s'" using a(1) c(1) by simp_all
  have step: "step = fst (projr (trainStep regressionNet [2, - 1] [1]))"
    using c(2) a(2) same by simp
  have vals: "fw_weights1 (forward step) = [[1], [2]]"
      "bw_weights1Gradients (backward step) = [[1], [- 1 / 2]]"
      "af_weights1 (after step) = [[1 - 1 / 10 * 1], [2 - 1 / 10 * (- 1 / 2)]]"
      "fw_weights2 (forward step) = [[2]]"
      "bw_weights2Gradients (backward step) = [[1 / 2]]"
      "af_weights2 (after step) = [[2 - 1 / 10 * (1 / 2)]]"
      "fw_biases1 (forward step) = [0]"
      "bw_biases1Gradients (backward step) = [1 / 2]"
      "af_biases1 (after step) = [0 - 1 / 10 * (1 / 2)]"
      "fw_biases2 (forward step) = [1]"
      "bw_biases2Gradients (backward step) = [1]"
      "af_biases2 (after step) = [1 - 1 / 10 * 1]"
    unfolding step regressionNet_step by simp_all
  show ?thesis
    using trainingStore_owns trainingStore_args(3,4) ni nn regressionNet_wd li lt a b vals
    by (intro conjI exI[of _ r] exI[of _ s'] exI[of _ step]) simp_all
qed

text \<open>
  C2. Whatever the task type, every entry of \<open>outputGradients\<close> in the returned record is
  the entry of \<open>outputPost\<close> minus the entry of \<open>target\<close>, for each of the \<open>outputSize\<close>
  output indices.
\<close>

theorem trainStep_outputGradients:
  assumes "wellDimensioned nn" and "length inputs = inputSize nn"
    and "length target = outputSize nn"
  shows "\<exists>step nn'.
     trainStep nn inputs target = Inr (step, nn') \<and>
     length (fw_outputPost (forward step)) = outputSize nn \<and>
     bw_outputGradients (backward step) =
       map (\<lambda>k. fw_outputPost (forward step) ! k - target ! k) [0..<outputSize nn]"
  unfolding trainStep_wd[OF assms] by simp

theorem trainStep_outputGradients_witness:
  "wellDimensioned classificationNet \<and> wellDimensioned regressionNet \<and>
   length [2, - 1 :: real] = inputSize classificationNet \<and>
   length [2, - 1 :: real] = inputSize regressionNet \<and>
   length [1 :: real] = outputSize classificationNet \<and>
   length [1 :: real] = outputSize regressionNet \<and>
   (\<exists>step nn'.
      trainStep classificationNet [2, - 1] [1] = Inr (step, nn') \<and>
      fw_outputPost (forward step) = [1 / 2] \<and>
      bw_outputGradients (backward step) = [1 / 2 - 1]) \<and>
   (\<exists>step nn'.
      trainStep regressionNet [2, - 1] [1] = Inr (step, nn') \<and>
      fw_outputPost (forward step) = [2] \<and>
      bw_outputGradients (backward step) = [2 - 1])"
  using trainStep_outputGradients[of classificationNet "[2, - 1]" "[1]"]
    trainStep_outputGradients[of regressionNet "[2, - 1]" "[1]"]
  by (simp add: classificationNet_wd classificationNet_size classificationNet_step
      regressionNet_wd regressionNet_size regressionNet_step)

text \<open>
  C3. For an input of length \<open>inputSize\<close>, \<open>predict\<close> returns the specification's
  \<open>outputPost\<close>: \<open>hiddenPre[h]\<close> is the sum over \<open>i\<close> of \<open>weights1[i][h] * inputs[i]\<close> plus
  \<open>biases1[h]\<close>, \<open>hiddenPost\<close> is its sigmoid \<open>1 / (1 + exp (- x))\<close>, \<open>outputPre[o]\<close> is the
  sum over \<open>h\<close> of \<open>weights2[h][o] * hiddenPost[h]\<close> plus \<open>biases2[o]\<close>, and \<open>outputPost\<close> is
  the sigmoid of \<open>outputPre\<close> for classification and \<open>outputPre\<close> itself for regression.
\<close>

theorem predict_formula:
  assumes wd: "wellDimensioned nn" and len: "length inputs = inputSize nn"
  shows "predict nn inputs = spec_outputPost nn inputs"
  using wd len by (rule predict_is_spec)

theorem predict_formula_witness:
  "wellDimensioned classificationNet \<and>
   length [2, - 1 :: real] = inputSize classificationNet \<and>
   predict classificationNet [2, - 1] = spec_outputPost classificationNet [2, - 1] \<and>
   predict classificationNet [2, - 1] = [1 / 2]"
  using predict_formula[of classificationNet "[2, - 1]"]
  by (simp add: classificationNet_wd classificationNet_size classificationNet_forward)

text \<open>
  C10. The \<open>forward\<close> section returned by \<open>trainStep\<close> is the forward computation of
  \<open>predict\<close> on the parameters before the step: \<open>hiddenPre\<close>, \<open>hiddenPost\<close> and \<open>outputPre\<close>
  are the three intermediate values that \<open>predict\<close> computes, and \<open>outputPost\<close> is what
  \<open>predict\<close> returns.
\<close>

theorem trainStep_forward_is_predict:
  assumes "wellDimensioned nn" and "length inputs = inputSize nn"
    and "length target = outputSize nn"
  shows "\<exists>step nn'.
     trainStep nn inputs target = Inr (step, nn') \<and>
     fw_hiddenPre (forward step) = vectorAdd (matrixMultiply (weights1 nn) inputs) (biases1 nn) \<and>
     fw_hiddenPost (forward step) = map sigmoid (fw_hiddenPre (forward step)) \<and>
     fw_outputPre (forward step) =
       vectorAdd (matrixMultiply (weights2 nn) (fw_hiddenPost (forward step))) (biases2 nn) \<and>
     fw_outputPost (forward step) = predict nn inputs \<and>
     predict nn inputs = (if taskType nn = classification
                          then map sigmoid (fw_outputPre (forward step))
                          else fw_outputPre (forward step))"
proof -
  have pre: "vectorAdd (matrixMultiply (weights1 nn) inputs) (biases1 nn) = spec_hiddenPre nn inputs"
    by (rule hiddenPre_spec[OF assms(1,2)])
  have post: "map sigmoid (spec_hiddenPre nn inputs) = spec_hiddenPost nn inputs"
    by (simp add: spec_hiddenPost_def sigmoid_eq)
  have opre: "vectorAdd (matrixMultiply (weights2 nn) (spec_hiddenPost nn inputs)) (biases2 nn)
              = spec_outputPre nn inputs"
    by (rule outputPre_spec[OF assms(1)])
  have p: "predict nn inputs = spec_outputPost nn inputs"
    unfolding predict_def Let_def by (rule outputPost_spec[OF assms(1,2)])
  have opost: "spec_outputPost nn inputs = (if taskType nn = classification
                 then map sigmoid (spec_outputPre nn inputs) else spec_outputPre nn inputs)"
    by (cases "taskType nn") (simp_all add: spec_outputPost_def sigmoid_eq)
  show ?thesis
    unfolding trainStep_wd[OF assms] p using opost by (simp add: pre post opre)
qed

theorem trainStep_forward_is_predict_witness:
  "wellDimensioned classificationNet \<and>
   length [2, - 1 :: real] = inputSize classificationNet \<and>
   length [1 :: real] = outputSize classificationNet \<and>
   (\<exists>step nn'.
      trainStep classificationNet [2, - 1] [1] = Inr (step, nn') \<and>
      fw_outputPost (forward step) = predict classificationNet [2, - 1] \<and>
      predict classificationNet [2, - 1] = [1 / 2])"
proof -
  have sizes: "length [2, - 1 :: real] = inputSize classificationNet"
    "length [1 :: real] = outputSize classificationNet"
    by (simp_all add: classificationNet_size)
  from trainStep_forward_is_predict[OF classificationNet_wd sizes]
  obtain step nn' where
    s: "trainStep classificationNet [2, - 1] [1] = Inr (step, nn')" and
    p: "fw_outputPost (forward step) = predict classificationNet [2, - 1]"
    by blast
  have "fw_outputPost (forward step) = [1 / 2]"
    using s unfolding classificationNet_step by auto
  with s p sizes classificationNet_wd show ?thesis
    by auto
qed

text \<open>
  C4. Under the hypotheses of C1, in the record read from the store after the call,
  \<open>hiddenGradients[h]\<close> is the sum over \<open>o\<close> of \<open>outputGradients[o] * weights2[h][o]\<close>, times
  \<open>sigmoid(hiddenPre[h]) * (1 - sigmoid(hiddenPre[h]))\<close>; \<open>weights2Gradients[h][o]\<close> is
  \<open>hiddenPost[h] * outputGradients[o]\<close>; \<open>weights1Gradients[i][h]\<close> is
  \<open>inputs[i] * hiddenGradients[h]\<close>; \<open>biases2Gradients\<close> has the entries of
  \<open>outputGradients\<close> and \<open>biases1Gradients\<close> those of \<open>hiddenGradients\<close>. The \<open>weights2\<close>
  of the formula is the \<open>forward\<close> section's, the matrix of before the update, and
  \<open>hiddenPre\<close> and \<open>hiddenPost\<close> are the specification's, computed from the parameters of
  before the update. \<open>biases2Gradients\<close> and \<open>outputGradients\<close> are two arrays, and so are
  \<open>biases1Gradients\<close> and \<open>hiddenGradients\<close>: writing to one of a pair leaves the other
  as it is.
\<close>

theorem trainStep_backward_gradients:
  fixes nn :: NeuralNetwork
  assumes own: "ownsItsArrays s e"
    and i: "isNumbers s inputs" and ni: "inputs \<notin> set (numberCells s (tensors e))"
    and tg: "isNumbers s target"
    and nn: "nn = engineOf s e"
    and wd: "wellDimensioned nn"
    and li: "length (numbersAt s inputs) = inputSize nn"
    and lt: "length (numbersAt s target) = outputSize nn"
  shows "\<exists>r s' step.
     trainStepAt e inputs target s = Inr (r, s') \<and> step = stepOf s' r \<and>
     fw_inputs (forward step) = numbersAt s inputs \<and>
     fw_weights2 (forward step) = weights2 nn \<and>
     fw_hiddenPre (forward step) = spec_hiddenPre nn (numbersAt s inputs) \<and>
     fw_hiddenPost (forward step) = spec_hiddenPost nn (numbersAt s inputs) \<and>
     bw_hiddenGradients (backward step) =
       map (\<lambda>h. (\<Sum>k<outputSize nn. bw_outputGradients (backward step) ! k
                                        * (fw_weights2 (forward step) ! h ! k))
                 * (sigmoid (fw_hiddenPre (forward step) ! h)
                    * (1 - sigmoid (fw_hiddenPre (forward step) ! h))))
         [0..<hiddenSize nn] \<and>
     bw_weights2Gradients (backward step) =
       map (\<lambda>h. map (\<lambda>k. fw_hiddenPost (forward step) ! h
                           * bw_outputGradients (backward step) ! k)
                  [0..<outputSize nn]) [0..<hiddenSize nn] \<and>
     bw_weights1Gradients (backward step) =
       map (\<lambda>i. map (\<lambda>h. fw_inputs (forward step) ! i * bw_hiddenGradients (backward step) ! h)
                  [0..<hiddenSize nn]) [0..<inputSize nn] \<and>
     bw_biases2Gradients (backward step) = bw_outputGradients (backward step) \<and>
     bw_biases1Gradients (backward step) = bw_hiddenGradients (backward step) \<and>
     isNumbers s' (outputGradientsAt r) \<and> isNumbers s' (biases2GradientsAt r) \<and>
     isNumbers s' (hiddenGradientsAt r) \<and> isNumbers s' (biases1GradientsAt r) \<and>
     biases2GradientsAt r \<noteq> outputGradientsAt r \<and>
     biases1GradientsAt r \<noteq> hiddenGradientsAt r \<and>
     (\<forall>xs. numbersAt (s'[biases2GradientsAt r := Numbers xs]) (outputGradientsAt r)
            = numbersAt s' (outputGradientsAt r)) \<and>
     (\<forall>xs. numbersAt (s'[outputGradientsAt r := Numbers xs]) (biases2GradientsAt r)
            = numbersAt s' (biases2GradientsAt r)) \<and>
     (\<forall>xs. numbersAt (s'[biases1GradientsAt r := Numbers xs]) (hiddenGradientsAt r)
            = numbersAt s' (hiddenGradientsAt r)) \<and>
     (\<forall>xs. numbersAt (s'[hiddenGradientsAt r := Numbers xs]) (biases1GradientsAt r)
            = numbersAt s' (biases1GradientsAt r))"
proof -
  from trainStep_backward_gradients_values[OF wd li lt]
  obtain step nn' where
    run: "trainStep nn (numbersAt s inputs) (numbersAt s target) = Inr (step, nn')"
    and rest: "fw_inputs (forward step) = numbersAt s inputs \<and>
     fw_weights2 (forward step) = weights2 nn \<and>
     fw_hiddenPre (forward step) = spec_hiddenPre nn (numbersAt s inputs) \<and>
     fw_hiddenPost (forward step) = spec_hiddenPost nn (numbersAt s inputs) \<and>
     bw_hiddenGradients (backward step) =
       map (\<lambda>h. (\<Sum>k<outputSize nn. bw_outputGradients (backward step) ! k
                                        * (fw_weights2 (forward step) ! h ! k))
                 * (sigmoid (fw_hiddenPre (forward step) ! h)
                    * (1 - sigmoid (fw_hiddenPre (forward step) ! h))))
         [0..<hiddenSize nn] \<and>
     bw_weights2Gradients (backward step) =
       map (\<lambda>h. map (\<lambda>k. fw_hiddenPost (forward step) ! h
                           * bw_outputGradients (backward step) ! k)
                  [0..<outputSize nn]) [0..<hiddenSize nn] \<and>
     bw_weights1Gradients (backward step) =
       map (\<lambda>i. map (\<lambda>h. fw_inputs (forward step) ! i * bw_hiddenGradients (backward step) ! h)
                  [0..<hiddenSize nn]) [0..<inputSize nn] \<and>
     bw_biases2Gradients (backward step) = bw_outputGradients (backward step) \<and>
     bw_biases1Gradients (backward step) = bw_hiddenGradients (backward step)"
    by blast
  from trainStepAt_from_values[OF own i ni tg run[unfolded nn]]
  obtain r s' where a: "trainStepAt e inputs target s = Inr (r, s')" "stepOf s' r = step"
    and kinds: "isNumbers s' (outputGradientsAt r)" "isNumbers s' (biases2GradientsAt r)"
      "isNumbers s' (hiddenGradientsAt r)" "isNumbers s' (biases1GradientsAt r)"
    and ne: "biases2GradientsAt r \<noteq> outputGradientsAt r"
      "biases1GradientsAt r \<noteq> hiddenGradientsAt r"
    by blast
  have apart: "\<forall>xs. numbersAt (s'[biases2GradientsAt r := Numbers xs]) (outputGradientsAt r)
            = numbersAt s' (outputGradientsAt r)"
    "\<forall>xs. numbersAt (s'[outputGradientsAt r := Numbers xs]) (biases2GradientsAt r)
            = numbersAt s' (biases2GradientsAt r)"
    "\<forall>xs. numbersAt (s'[biases1GradientsAt r := Numbers xs]) (hiddenGradientsAt r)
            = numbersAt s' (hiddenGradientsAt r)"
    "\<forall>xs. numbersAt (s'[hiddenGradientsAt r := Numbers xs]) (biases1GradientsAt r)
            = numbersAt s' (biases1GradientsAt r)"
    using ne by (simp_all add: numbersAt_update_other)
  show ?thesis
    using a rest kinds ne apart
    by (intro exI[of _ r] exI[of _ s'] exI[of _ step]) simp
qed

theorem trainStep_backward_gradients_witness:
  "ownsItsArrays trainingStore exampleEngine \<and>
   isNumbers trainingStore 7 \<and> 7 \<notin> set (numberCells trainingStore (tensors exampleEngine)) \<and>
   isNumbers trainingStore 8 \<and>
   regressionNet = engineOf trainingStore exampleEngine \<and>
   wellDimensioned regressionNet \<and>
   length (numbersAt trainingStore 7) = inputSize regressionNet \<and>
   length (numbersAt trainingStore 8) = outputSize regressionNet \<and>
   (\<exists>r s' step.
      trainStepAt exampleEngine 7 8 trainingStore = Inr (r, s') \<and> step = stepOf s' r \<and>
      fw_inputs (forward step) = [2, - 1] \<and>
      fw_hiddenPre (forward step) = [0] \<and> fw_hiddenPost (forward step) = [1 / 2] \<and>
      bw_outputGradients (backward step) = [1] \<and>
      bw_hiddenGradients (backward step) = [(1 * 2) * (1 / 2 * (1 - 1 / 2))] \<and>
      bw_weights2Gradients (backward step) = [[1 / 2 * 1]] \<and>
      bw_weights1Gradients (backward step) = [[2 * (1 / 2)], [- 1 * (1 / 2)]] \<and>
      bw_biases2Gradients (backward step) = [1] \<and>
      bw_biases1Gradients (backward step) = [1 / 2] \<and>
      biases2GradientsAt r \<noteq> outputGradientsAt r \<and>
      biases1GradientsAt r \<noteq> hiddenGradientsAt r \<and>
      numbersAt (s'[biases2GradientsAt r := Numbers [100]]) (outputGradientsAt r) = [1])"
proof -
  have ni: "7 \<notin> set (numberCells trainingStore (tensors exampleEngine))"
    by (simp add: trainingStore_cells)
  have nn: "regressionNet = engineOf trainingStore exampleEngine"
    by (simp add: trainingStore_engine)
  have li: "length (numbersAt trainingStore 7) = inputSize regressionNet"
    and lt: "length (numbersAt trainingStore 8) = outputSize regressionNet"
    by (simp_all add: trainingStore_args regressionNet_size)
  from trainStep_backward_gradients[OF trainingStore_owns trainingStore_args(3) ni
      trainingStore_args(4) nn regressionNet_wd li lt]
  obtain r s' step where
    a: "trainStepAt exampleEngine 7 8 trainingStore = Inr (r, s')" "step = stepOf s' r"
    and ne: "biases2GradientsAt r \<noteq> outputGradientsAt r"
      "biases1GradientsAt r \<noteq> hiddenGradientsAt r"
    and apart: "\<forall>xs. numbersAt (s'[biases2GradientsAt r := Numbers xs]) (outputGradientsAt r)
            = numbersAt s' (outputGradientsAt r)"
    by blast
  have run: "trainStep (engineOf trainingStore exampleEngine) (numbersAt trainingStore 7)
               (numbersAt trainingStore 8)
             = Inr (fst (projr (trainStep regressionNet [2, - 1] [1])),
                    snd (projr (trainStep regressionNet [2, - 1] [1])))"
    by (simp add: trainingStore_engine trainingStore_args regressionNet_step)
  from trainStepAt_from_values[OF trainingStore_owns trainingStore_args(3) ni
      trainingStore_args(4) run]
  obtain r2 s2 where
    c: "trainStepAt exampleEngine 7 8 trainingStore = Inr (r2, s2)"
      "stepOf s2 r2 = fst (projr (trainStep regressionNet [2, - 1] [1]))"
    by blast
  have same: "r2 = r" "s2 = s'" using a(1) c(1) by simp_all
  have step: "step = fst (projr (trainStep regressionNet [2, - 1] [1]))"
    using c(2) a(2) same by simp
  have vals: "fw_inputs (forward step) = [2, - 1]"
      "fw_hiddenPre (forward step) = [0]" "fw_hiddenPost (forward step) = [1 / 2]"
      "bw_outputGradients (backward step) = [1]"
      "bw_hiddenGradients (backward step) = [(1 * 2) * (1 / 2 * (1 - 1 / 2))]"
      "bw_weights2Gradients (backward step) = [[1 / 2 * 1]]"
      "bw_weights1Gradients (backward step) = [[2 * (1 / 2)], [- 1 * (1 / 2)]]"
      "bw_biases2Gradients (backward step) = [1]"
      "bw_biases1Gradients (backward step) = [1 / 2]"
    unfolding step regressionNet_step by simp_all
  have "numbersAt s' (outputGradientsAt r) = [1]"
    using vals(4) a(2) by (simp add: stepOf_def)
  then have w: "numbersAt (s'[biases2GradientsAt r := Numbers [100]]) (outputGradientsAt r) = [1]"
    using apart by simp
  show ?thesis
    using trainingStore_owns trainingStore_args(3,4) ni nn regressionNet_wd li lt a ne vals w
    by (intro conjI exI[of _ r] exI[of _ s'] exI[of _ step]) simp_all
qed

lemma clampOutput_spec: "clampOutput y = spec_clamp y"
  by (simp add: clampOutput_def spec_clamp_def epsilon_def max_def min_def)

lemma spec_clamp_complement: "1 - spec_clamp y = spec_clamp (1 - y)"
  by (simp add: spec_clamp_def)

text \<open>
  C5. The loss of the record is, for classification, minus the mean over the output units
  of \<open>t * ln (clamp y) + (1 - t) * ln (clamp (1 - y))\<close>, with the clamp to
  \<open>[1e-12, 1 - 1e-12]\<close>, and for regression the mean of \<open>0.5 * (t - y)\<^sup>2\<close>, where \<open>y\<close> is
  \<open>outputPost\<close> and \<open>t\<close> the target.
\<close>

theorem trainStep_loss:
  assumes "wellDimensioned nn" and "length inputs = inputSize nn"
    and "length target = outputSize nn"
  shows "\<exists>step nn'.
     trainStep nn inputs target = Inr (step, nn') \<and>
     bw_loss (backward step) =
       Some (case taskType nn of
          classification \<Rightarrow>
            - ((\<Sum>k<outputSize nn.
                  target ! k * ln (spec_clamp (fw_outputPost (forward step) ! k))
                  + (1 - target ! k) * ln (spec_clamp (1 - fw_outputPost (forward step) ! k)))
               / real (outputSize nn))
        | regression \<Rightarrow>
            (\<Sum>k<outputSize nn. 0.5 * (target ! k - fw_outputPost (forward step) ! k) ^ 2)
            / real (outputSize nn))"
proof -
  have ne: "spec_outputPost nn inputs \<noteq> []"
    using wellDimensionedD(11)[OF assms(1)] length_spec_outputPost[of nn inputs]
    by (cases "spec_outputPost nn inputs") simp_all
  have "lossOf (taskType nn) (spec_outputPost nn inputs) target =
       Some (case taskType nn of
          classification \<Rightarrow>
            - ((\<Sum>k<outputSize nn.
                  target ! k * ln (spec_clamp (spec_outputPost nn inputs ! k))
                  + (1 - target ! k) * ln (spec_clamp (1 - spec_outputPost nn inputs ! k)))
               / real (outputSize nn))
        | regression \<Rightarrow>
            (\<Sum>k<outputSize nn. 0.5 * (target ! k - spec_outputPost nn inputs ! k) ^ 2)
            / real (outputSize nn))"
    using assms(3) by (subst lossOf_defined[OF ne])
      (simp_all add: clampOutput_spec spec_clamp_complement split: TaskType.splits)
  then show ?thesis
    unfolding trainStep_wd[OF assms] by (simp cong: TaskType.case_cong)
qed

theorem trainStep_loss_witness:
  "wellDimensioned classificationNet \<and> wellDimensioned regressionNet \<and>
   length [2, - 1 :: real] = inputSize classificationNet \<and>
   length [2, - 1 :: real] = inputSize regressionNet \<and>
   length [1 :: real] = outputSize classificationNet \<and>
   length [1 :: real] = outputSize regressionNet \<and>
   (\<exists>step nn'.
      trainStep classificationNet [2, - 1] [1] = Inr (step, nn') \<and>
      fw_outputPost (forward step) = [1 / 2] \<and>
      bw_loss (backward step) = Some (- ((1 * ln (1 / 2) + (1 - 1) * ln (1 - 1 / 2)) / 1)) \<and>
      bw_loss (backward step) = Some (ln 2)) \<and>
   (\<exists>step nn'.
      trainStep regressionNet [2, - 1] [1] = Inr (step, nn') \<and>
      fw_outputPost (forward step) = [2] \<and>
      bw_loss (backward step) = Some (0.5 * (1 - 2) ^ 2 / 1))"
proof -
  have sizes: "length [2, - 1 :: real] = inputSize classificationNet"
    "length [1 :: real] = outputSize classificationNet"
    "length [2, - 1 :: real] = inputSize regressionNet"
    "length [1 :: real] = outputSize regressionNet"
    by (simp_all add: classificationNet_size regressionNet_size)
  from trainStep_loss[OF classificationNet_wd sizes(1,2)]
  obtain step nn' where
    s: "trainStep classificationNet [2, - 1] [1] = Inr (step, nn')" by blast
  have c: "fw_outputPost (forward step) = [1 / 2]" "bw_loss (backward step) = Some (ln 2)"
    using s unfolding classificationNet_step by auto
  from trainStep_loss[OF regressionNet_wd sizes(3,4)]
  obtain rstep rnn' where
    r: "trainStep regressionNet [2, - 1] [1] = Inr (rstep, rnn')" by blast
  have d: "fw_outputPost (forward rstep) = [2]" "bw_loss (backward rstep) = Some (1 / 2)"
    using r unfolding regressionNet_step by auto
  have "\<exists>step nn'.
      trainStep classificationNet [2, - 1] [1] = Inr (step, nn') \<and>
      fw_outputPost (forward step) = [1 / 2] \<and>
      bw_loss (backward step) = Some (- ((1 * ln (1 / 2) + (1 - 1) * ln (1 - 1 / 2)) / 1)) \<and>
      bw_loss (backward step) = Some (ln 2)"
    using s c by (auto simp: ln_div)
  moreover have "\<exists>step nn'.
      trainStep regressionNet [2, - 1] [1] = Inr (step, nn') \<and>
      fw_outputPost (forward step) = [2] \<and>
      bw_loss (backward step) = Some (0.5 * (1 - 2) ^ 2 / 1)"
    using r d by auto
  ultimately show ?thesis
    using sizes classificationNet_wd regressionNet_wd by blast
qed

lemma bce_term_nonpos:
  assumes "0 \<le> t" "t \<le> 1"
  shows "t * ln (clampOutput y) + (1 - t) * ln (1 - clampOutput y) \<le> 0"
proof -
  have c: "0 < clampOutput y" "clampOutput y < 1"
    using clampOutput_bounds[of y] epsilon_pos by linarith+
  have "ln (clampOutput y) \<le> 0" "ln (1 - clampOutput y) \<le> 0"
    using c by simp_all
  then have "t * ln (clampOutput y) \<le> 0" "(1 - t) * ln (1 - clampOutput y) \<le> 0"
    using assms by (simp_all add: mult_nonneg_nonpos)
  then show ?thesis by linarith
qed

lemma lossOf_nonneg:
  assumes ne: "ys \<noteq> []" and len: "length target = length ys"
    and range: "tt = classification \<Longrightarrow> \<forall>t\<in>set target. 0 \<le> t \<and> t \<le> 1"
  shows "\<exists>l. lossOf tt ys target = Some l \<and> 0 \<le> l"
proof (cases tt)
  case classification
  have "(\<Sum>i<length ys. target ! i * ln (clampOutput (ys ! i))
                        + (1 - target ! i) * ln (1 - clampOutput (ys ! i))) \<le> 0"
    using range[OF classification] len by (intro sum_nonpos bce_term_nonpos) simp_all
  then show ?thesis
    using ne len classification by (simp add: lossOf_defined divide_nonpos_nonneg)
next
  case regression
  have "0 \<le> (\<Sum>i<length ys. 0.5 * (target ! i - ys ! i) ^ 2)"
    by (intro sum_nonneg) simp
  then show ?thesis
    using ne len regression by (simp add: lossOf_defined)
qed

text \<open>
  C6. For both task types the loss of the record is a number and is not negative, on
  well-dimensioned data and, for classification, targets between 0 and 1.
\<close>

theorem trainStep_loss_nonneg:
  assumes "wellDimensioned nn" and "length inputs = inputSize nn"
    and "length target = outputSize nn"
    and "taskType nn = classification \<Longrightarrow> \<forall>t\<in>set target. 0 \<le> t \<and> t \<le> 1"
  shows "\<exists>step nn' l.
     trainStep nn inputs target = Inr (step, nn') \<and>
     bw_loss (backward step) = Some l \<and> 0 \<le> l"
proof -
  have ne: "spec_outputPost nn inputs \<noteq> []"
    using wellDimensionedD(11)[OF assms(1)] length_spec_outputPost[of nn inputs]
    by (cases "spec_outputPost nn inputs") simp_all
  obtain l where "lossOf (taskType nn) (spec_outputPost nn inputs) target = Some l" "0 \<le> l"
    using lossOf_nonneg[OF ne, of target "taskType nn"] assms(3,4) by auto
  then show ?thesis
    unfolding trainStep_wd[OF assms(1-3)] by simp
qed

theorem trainStep_loss_nonneg_witness:
  "wellDimensioned classificationNet \<and>
   length [2, - 1 :: real] = inputSize classificationNet \<and>
   length [1 :: real] = outputSize classificationNet \<and>
   taskType classificationNet = classification \<and>
   list_all (\<lambda>t. 0 \<le> t \<and> t \<le> 1) [1 :: real] \<and>
   (\<exists>step nn' l.
      trainStep classificationNet [2, - 1] [1] = Inr (step, nn') \<and>
      bw_loss (backward step) = Some l \<and> l = ln 2 \<and> 0 \<le> l)"
proof -
  have sizes: "length [2, - 1 :: real] = inputSize classificationNet"
    "length [1 :: real] = outputSize classificationNet"
    by (simp_all add: classificationNet_size)
  have range: "\<forall>t\<in>set [1 :: real]. 0 \<le> t \<and> t \<le> 1" by simp
  from trainStep_loss_nonneg[OF classificationNet_wd sizes range]
  obtain step nn' l where
    s: "trainStep classificationNet [2, - 1] [1] = Inr (step, nn')" and
    l: "bw_loss (backward step) = Some l" "0 \<le> l"
    by blast
  have "bw_loss (backward step) = Some (ln 2)"
    using s unfolding classificationNet_step by auto
  with s l sizes classificationNet_wd show ?thesis
    by (auto simp: classificationNet_sel)
qed




text \<open>
  C9, as stated, fails. The engine \<open>regressionNet\<close> has two inputs. On the input \<open>[5]\<close>,
  one entry short, \<open>matrixMultiply\<close> finds the length different from the number of rows
  and returns the zero vector, so the entry 5 does not reach the output: \<open>predict\<close>
  returns \<open>[2]\<close>, as it does on \<open>[7]\<close>, and not what the input \<open>[5, 0]\<close>, with zero in the
  place of the missing entry, gives.
\<close>

theorem predict_short_input_counterexample:
  "wellDimensioned regressionNet \<and> inputSize regressionNet = 2 \<and>
   predict regressionNet [5] = [2] \<and>
   predict regressionNet [7] = [2] \<and>
   predict regressionNet [5, 0] = [2 / (1 + exp (- 5)) + 1] \<and>
   predict regressionNet [5] \<noteq> predict regressionNet [5, 0]"
proof -
  have short: "predict regressionNet [x] = [2]" for x
    by (simp add: predict_def regressionNet_sel matrixMultiply_def vectorAdd_def mapi_def
        mulAddCell_def sigmoid_def Let_def)
  have padded: "predict regressionNet [5, 0] = [2 / (1 + exp (- 5)) + 1]"
    by (simp add: predict_def regressionNet_sel matrixMultiply_def vectorAdd_def mapi_def
        mulAddCell_def sigmoid_def Let_def upt_2)
  have "exp (- 5 :: real) \<noteq> 1" by simp
  then have "2 / (1 + exp (- 5 :: real)) + 1 \<noteq> 2"
    by (simp add: field_simps add_pos_pos)
  then show ?thesis
    using short padded by (simp add: regressionNet_wd regressionNet_size)
qed

text \<open>
  C9, amended. For an input whose length is not \<open>inputSize\<close>, \<open>predict\<close> returns (the
  model of \<open>predict\<close> is a total function: the source has no statement that throws on
  arrays of numbers). The product with \<open>weights1\<close> is replaced by the zero vector as a
  whole, so \<open>hiddenPre\<close> is \<open>biases1\<close> and the result is the prediction for the all-zero
  input, of length \<open>outputSize\<close>; no entry of the input contributes.
\<close>

theorem predict_length_mismatch:
  assumes wd: "wellDimensioned nn" and len: "length inputs \<noteq> inputSize nn"
  shows "vectorAdd (matrixMultiply (weights1 nn) inputs) (biases1 nn) = biases1 nn \<and>
         predict nn inputs = predict nn (replicate (inputSize nn) 0) \<and>
         length (predict nn inputs) = outputSize nn"
proof -
  note d = wellDimensionedD[OF wd]
  have hd: "length (hd (weights1 nn)) = hiddenSize nn"
    using d(1,3) by (cases "weights1 nn") simp_all
  have mm: "matrixMultiply (weights1 nn) inputs = replicate (hiddenSize nn) 0"
    using matrixMultiply_mismatch[OF d(1), of inputs] len d(8) hd by simp
  have pre: "vectorAdd (matrixMultiply (weights1 nn) inputs) (biases1 nn) = biases1 nn"
    unfolding mm using d(6) by (intro nth_equalityI) (simp_all add: vectorAdd_def)
  have zero: "vectorAdd (matrixMultiply (weights1 nn) (replicate (inputSize nn) 0)) (biases1 nn)
              = biases1 nn"
    using hiddenPre_spec[OF wd, of "replicate (inputSize nn) 0"] d(6)
    by (simp add: spec_hiddenPre_def) (intro nth_equalityI, simp_all)
  have eq: "predict nn inputs = predict nn (replicate (inputSize nn) 0)"
    by (simp add: predict_def pre zero)
  have "length (predict nn inputs) = outputSize nn"
    unfolding eq using predict_is_spec[OF wd, of "replicate (inputSize nn) 0"] by simp
  with pre eq show ?thesis by simp
qed

theorem predict_length_mismatch_witness:
  "wellDimensioned regressionNet \<and> length [5 :: real] \<noteq> inputSize regressionNet \<and>
   predict regressionNet [5] = predict regressionNet (replicate (inputSize regressionNet) 0) \<and>
   predict regressionNet [5] = [2] \<and>
   length (predict regressionNet [5]) = outputSize regressionNet"
proof -
  have len: "length [5 :: real] \<noteq> inputSize regressionNet"
    by (simp add: regressionNet_size)
  have "predict regressionNet [5] = [2]"
    by (simp add: predict_def regressionNet_sel matrixMultiply_def vectorAdd_def mapi_def
        mulAddCell_def sigmoid_def Let_def)
  then show ?thesis
    using predict_length_mismatch[OF regressionNet_wd len] regressionNet_wd len
    by (simp add: regressionNet_size)
qed

text \<open>
  C8. For an engine whose four fields are arrays of the store: after
  \<open>setWeights(getWeights())\<close> the engine holds the parameters it held before, so \<open>predict\<close>
  returns the same output for every input; whatever a caller writes to the arrays that
  can be reached from the object \<open>getWeights\<close> returned leaves the engine's parameters as
  they were; and whatever a caller writes, after \<open>setWeights\<close>, to the arrays that can be
  reached from the object it passed leaves the engine's parameters as \<open>setWeights\<close> set
  them.
\<close>

theorem getWeights_setWeights:
  assumes v: "validTensors s (tensors e)"
  shows "(\<forall>w s1 e2 s2 inputs.
            getWeights e s = (w, s1) \<and> setWeights e w s1 = (e2, s2) \<longrightarrow>
            engineOf s2 e2 = engineOf s e \<and>
            predictAt s2 e2 inputs = predictAt s e inputs) \<and>
         (\<forall>w s1 s'.
            getWeights e s = (w, s1) \<and> changedOnlyAt (tensorCells s1 w) s1 s' \<longrightarrow>
            engineOf s1 (e\<lparr>tensors := w\<rparr>) = engineOf s e \<and>
            engineOf s' e = engineOf s e) \<and>
         (\<forall>w e2 s2 s'.
            validTensors s w \<and> setWeights e w s = (e2, s2) \<and>
            changedOnlyAt (tensorCells s2 w) s2 s' \<longrightarrow>
            engineOf s2 e2 = engineOf s (e\<lparr>tensors := w\<rparr>) \<and>
            engineOf s' e2 = engineOf s2 e2)"
proof (intro conjI allI impI; (elim conjE)?)
  fix w s1 e2 s2 and inputs :: "real list"
  assume g: "getWeights e s = (w, s1)"
  assume st: "setWeights e w s1 = (e2, s2)"
  note pg = copyTensors_props[OF g[unfolded getWeights_def] v]
  obtain t2 where c2: "copyTensors w s1 = (t2, s2)" and e2: "e2 = e\<lparr>tensors := t2\<rparr>"
    using st by (auto simp: setWeights_def split: prod.splits)
  note ps = copyTensors_props[OF c2 pg(2)]
  show eq: "engineOf s2 e2 = engineOf s e"
    by (simp add: engineOf_def e2 ps pg)
  show "predictAt s2 e2 inputs = predictAt s e inputs"
    by (simp add: predictAt_def eq)
next
  fix w s1 s'
  assume g: "getWeights e s = (w, s1)"
  assume ch: "changedOnlyAt (tensorCells s1 w) s1 s'"
  note pg = copyTensors_props[OF g[unfolded getWeights_def] v]
  show "engineOf s1 (e\<lparr>tensors := w\<rparr>) = engineOf s e"
    by (simp add: engineOf_def pg)
  have v1: "validTensors s1 (tensors e)" "tensorCells s1 (tensors e) = tensorCells s (tensors e)"
    using validTensors_prefix[OF v pg(1)] by simp_all
  have disj: "tensorCells s1 (tensors e) \<inter> tensorCells s1 w = {}"
    using pg(3) tensorCells_bound[OF v] unfolding v1(2) by fastforce
  have "engineOf s' e = engineOf s1 e"
    using v1(1) ch disj by (rule engineOf_untouched)
  also have "\<dots> = engineOf s e"
    using v pg(1) by (rule engineOf_prefix)
  finally show "engineOf s' e = engineOf s e" .
next
  fix w e2 s2 s'
  assume vw: "validTensors s w"
  assume st: "setWeights e w s = (e2, s2)"
  assume ch: "changedOnlyAt (tensorCells s2 w) s2 s'"
  obtain t2 where c2: "copyTensors w s = (t2, s2)" and e2: "e2 = e\<lparr>tensors := t2\<rparr>"
    using st by (auto simp: setWeights_def split: prod.splits)
  note ps = copyTensors_props[OF c2 vw]
  show "engineOf s2 e2 = engineOf s (e\<lparr>tensors := w\<rparr>)"
    by (simp add: engineOf_def e2 ps)
  have cells: "tensorCells s2 w = tensorCells s w"
    using validTensors_prefix[OF vw ps(1)] by simp
  have v2: "validTensors s2 (tensors e2)" using ps(2) by (simp add: e2)
  have disj: "tensorCells s2 (tensors e2) \<inter> tensorCells s2 w = {}"
    using ps(3) tensorCells_bound[OF vw] unfolding cells e2 by fastforce
  show "engineOf s' e2 = engineOf s2 e2"
    using v2 ch disj by (rule engineOf_untouched)
qed

lemma changedOnlyAt_update:
  assumes "c \<in> C"
  shows "changedOnlyAt C s (s[c := ob])"
proof -
  have "s[c := ob] ! a = s ! a" if "a \<notin> C" for a
  proof -
    have "c \<noteq> a" using assms that by blast
    then show ?thesis by (rule nth_list_update_neq)
  qed
  then show ?thesis by (simp add: changedOnlyAt_def)
qed

lemma exampleEngine_valid: "validTensors exampleStore (tensors exampleEngine)"
  by (simp add: validTensors_def isMatrix_def isNumbers_def exampleStore_def exampleEngine_def
      elem_def)

lemma callerWeights_valid: "validTensors exampleStore callerWeights"
  by (simp add: validTensors_def isMatrix_def isNumbers_def exampleStore_def callerWeights_def
      elem_def)

lemma exampleEngine_is_regressionNet: "engineOf exampleStore exampleEngine = regressionNet"
  by (simp add: engineOf_def matrixAt_def rowsAt_def numbersAt_def exampleStore_def
      exampleEngine_def regressionNet_def elem_def)

lemma exampleEngine_getWeights:
  "getWeights exampleEngine exampleStore =
     (\<lparr>weights1At = 16, weights2At = 18, biases1At = 19, biases2At = 20\<rparr>,
      exampleStore @ [Numbers [1], Numbers [2], Rows [14, 15], Numbers [2], Rows [17],
                      Numbers [0], Numbers [1]])"
  by (simp add: getWeights_def copyTensors_def copyRows_def spread_def alloc_def rowsAt_def
      numbersAt_def exampleStore_def exampleEngine_def elem_def)

lemma exampleEngine_setWeights:
  "setWeights exampleEngine callerWeights exampleStore =
     (exampleEngine\<lparr>tensors := \<lparr>weights1At = 16, weights2At = 18, biases1At = 19,
                                   biases2At = 20\<rparr>\<rparr>,
      exampleStore @ [Numbers [5], Numbers [6], Rows [14, 15], Numbers [7], Rows [17],
                      Numbers [8], Numbers [9]])"
  by (simp add: setWeights_def copyTensors_def copyRows_def spread_def alloc_def rowsAt_def
      numbersAt_def exampleStore_def callerWeights_def elem_def)

theorem getWeights_setWeights_witness:
  "validTensors exampleStore (tensors exampleEngine) \<and>
   validTensors exampleStore callerWeights \<and>
   engineOf exampleStore exampleEngine = regressionNet \<and>
   (\<exists>w s1 e2 s2.
      getWeights exampleEngine exampleStore = (w, s1) \<and>
      setWeights exampleEngine w s1 = (e2, s2) \<and>
      engineOf s2 e2 = regressionNet \<and>
      predictAt s2 e2 [2, - 1] = predictAt exampleStore exampleEngine [2, - 1] \<and>
      weights1At w = 16 \<and> rowsAt s1 16 = [14, 15] \<and>
      changedOnlyAt (tensorCells s1 w) s1 (s1[14 := Numbers [100]]) \<and>
      engineOf (s1[14 := Numbers [100]]) exampleEngine = regressionNet) \<and>
   (\<exists>e2 s2.
      setWeights exampleEngine callerWeights exampleStore = (e2, s2) \<and>
      weights1 (engineOf s2 e2) = [[5], [6]] \<and>
      changedOnlyAt (tensorCells s2 callerWeights) s2 (s2[7 := Numbers [100]]) \<and>
      weights1 (engineOf (s2[7 := Numbers [100]]) e2) = [[5], [6]])"
proof -
  note main = getWeights_setWeights[OF exampleEngine_valid]
  obtain w s1 where g: "getWeights exampleEngine exampleStore = (w, s1)"
    by (cases "getWeights exampleEngine exampleStore")
  obtain e2 s2 where st: "setWeights exampleEngine w s1 = (e2, s2)"
    by (cases "setWeights exampleEngine w s1")
  have w: "w = \<lparr>weights1At = 16, weights2At = 18, biases1At = 19, biases2At = 20\<rparr>"
    and s1: "s1 = exampleStore @ [Numbers [1], Numbers [2], Rows [14, 15], Numbers [2],
                                  Rows [17], Numbers [0], Numbers [1]]"
    using g unfolding exampleEngine_getWeights by simp_all
  have rows: "rowsAt s1 16 = [14, 15]"
    by (simp add: s1 rowsAt_def elem_def exampleStore_def)
  have in_cells: "14 \<in> tensorCells s1 w"
    by (simp add: tensorCells_def matrixCells_def w rows)
  have ch1: "changedOnlyAt (tensorCells s1 w) s1 (s1[14 := Numbers [100]])"
    using in_cells by (rule changedOnlyAt_update)
  have round: "engineOf s2 e2 = regressionNet"
    "predictAt s2 e2 [2, - 1] = predictAt exampleStore exampleEngine [2, - 1]"
    using main g st exampleEngine_is_regressionNet by auto
  have iso1: "engineOf (s1[14 := Numbers [100]]) exampleEngine = regressionNet"
    using main g ch1 exampleEngine_is_regressionNet by auto
  obtain e3 s3 where st3: "setWeights exampleEngine callerWeights exampleStore = (e3, s3)"
    by (cases "setWeights exampleEngine callerWeights exampleStore")
  have e3: "e3 = exampleEngine\<lparr>tensors := \<lparr>weights1At = 16, weights2At = 18, biases1At = 19,
                                   biases2At = 20\<rparr>\<rparr>"
    and s3: "s3 = exampleStore @ [Numbers [5], Numbers [6], Rows [14, 15], Numbers [7],
                                  Rows [17], Numbers [8], Numbers [9]]"
    using st3 unfolding exampleEngine_setWeights by simp_all
  have before: "weights1 (engineOf s3 e3) = [[5], [6]]"
    by (simp add: e3 s3 engineOf_def matrixAt_def rowsAt_def numbersAt_def elem_def
        exampleStore_def)
  have rows3: "rowsAt s3 9 = [7, 8]"
    by (simp add: s3 rowsAt_def elem_def exampleStore_def)
  have "7 \<in> tensorCells s3 callerWeights"
    by (simp add: tensorCells_def matrixCells_def callerWeights_def rows3)
  then have ch3: "changedOnlyAt (tensorCells s3 callerWeights) s3 (s3[7 := Numbers [100]])"
    by (rule changedOnlyAt_update)
  have iso3: "weights1 (engineOf (s3[7 := Numbers [100]]) e3) = [[5], [6]]"
    using main callerWeights_valid st3 ch3 before by auto
  show ?thesis
    using exampleEngine_valid callerWeights_valid exampleEngine_is_regressionNet
      g st round w rows ch1 iso1 st3 before ch3 iso3
    by (intro conjI exI[of _ w] exI[of _ s1] exI[of _ e2] exI[of _ s2] exI[of _ e3]
        exI[of _ s3]) simp_all
qed

end
